(* ===== verification/Dewy_Prelude.thy ===== *)
theory Dewy_Prelude
  imports Main "HOL-Library.Multiset"
begin

text \<open>
  Shared vocabulary of the development: Go integers and their wrap-around, the part of the
  Go packages strings, strconv, net/url and time that dewy uses, and the generic lemmas on them that the
  component theories rewrite with.

  A Go string is a \<^typ>\<open>string\<close>, one \<^typ>\<open>char\<close> per byte. Case folding and
  white space (strings.ToLower, strings.TrimSpace) are those of the ASCII
  range; bytes from 128 on are left alone.
\<close>

named_theorems go_str \<open>unfolding rules of the Go string functions\<close>
named_theorems go_int \<open>unfolding rules of the Go integer functions\<close>

type_synonym goint = int

section \<open>Go integers\<close>

definition max_int64 :: int where "max_int64 = 9223372036854775807"

definition min_int64 :: int where "min_int64 = - 9223372036854775808"

text \<open>The value Go computes for an int expression whose exact value is x.\<close>

definition wrap64 :: "int \<Rightarrow> int" where
  "wrap64 x = (x + 9223372036854775808) mod 18446744073709551616 - 9223372036854775808"

definition in_int64 :: "int \<Rightarrow> bool" where
  "in_int64 x = (min_int64 \<le> x \<and> x \<le> max_int64)"

lemmas int64_defs [go_int] = max_int64_def min_int64_def wrap64_def in_int64_def

section \<open>Package strings\<close>

definition hasPrefix :: "string \<Rightarrow> string \<Rightarrow> bool" where
  "hasPrefix s p = (take (length p) s = p)"

definition hasSuffix :: "string \<Rightarrow> string \<Rightarrow> bool" where
  "hasSuffix s p = (length p \<le> length s \<and> drop (length s - length p) s = p)"

definition trimPrefix :: "string \<Rightarrow> string \<Rightarrow> string" where
  "trimPrefix s p = (if hasPrefix s p then drop (length p) s else s)"

definition trimSuffix :: "string \<Rightarrow> string \<Rightarrow> string" where
  "trimSuffix s p = (if hasSuffix s p then take (length s - length p) s else s)"

text \<open>strings.Index, with None for the result -1.\<close>

fun strIndex :: "string \<Rightarrow> string \<Rightarrow> nat option" where
  "strIndex [] sub = (if sub = [] then Some 0 else None)"
| "strIndex (c # cs) sub =
     (if hasPrefix (c # cs) sub then Some 0 else map_option Suc (strIndex cs sub))"

definition strContains :: "string \<Rightarrow> string \<Rightarrow> bool" where
  "strContains s sub = (strIndex s sub \<noteq> None)"

text \<open>strings.LastIndex of a one-byte needle, with None for the result -1.\<close>

fun lastIndexC :: "char \<Rightarrow> string \<Rightarrow> nat option" where
  "lastIndexC c [] = None"
| "lastIndexC c (x # xs) =
     (case lastIndexC c xs of Some i \<Rightarrow> Some (Suc i) | None \<Rightarrow> if x = c then Some 0 else None)"

text \<open>strings.Split on a one-byte separator; the result is never empty.\<close>

fun splitC :: "char \<Rightarrow> string \<Rightarrow> string list" where
  "splitC c [] = [[]]"
| "splitC c (x # xs) =
     (if x = c then [] # splitC c xs
      else (case splitC c xs of [] \<Rightarrow> [[x]] | y # ys \<Rightarrow> (x # y) # ys))"

text \<open>strings.SplitN with limit 2.\<close>

definition splitN2 :: "string \<Rightarrow> string \<Rightarrow> string list" where
  "splitN2 s sep = (case strIndex s sep of
     None \<Rightarrow> [s] | Some i \<Rightarrow> [take i s, drop (i + length sep) s])"

text \<open>strings.Join.\<close>

fun joinS :: "string \<Rightarrow> string list \<Rightarrow> string" where
  "joinS sep [] = []"
| "joinS sep [x] = x"
| "joinS sep (x # y # ys) = x @ sep @ joinS sep (y # ys)"

definition toLowerC :: "char \<Rightarrow> char" where
  "toLowerC c = (let n = (of_char c :: nat) in if 65 \<le> n \<and> n \<le> 90 then char_of (n + 32) else c)"

definition toUpperC :: "char \<Rightarrow> char" where
  "toUpperC c = (let n = (of_char c :: nat) in if 97 \<le> n \<and> n \<le> 122 then char_of (n - 32) else c)"

definition toLower :: "string \<Rightarrow> string" where "toLower s = map toLowerC s"

definition toUpper :: "string \<Rightarrow> string" where "toUpper s = map toUpperC s"

definition isSpaceC :: "char \<Rightarrow> bool" where
  "isSpaceC c = (let n = (of_char c :: nat) in n = 32 \<or> (9 \<le> n \<and> n \<le> 13))"

definition trimSpace :: "string \<Rightarrow> string" where
  "trimSpace s = rev (dropWhile isSpaceC (rev (dropWhile isSpaceC s)))"

text \<open>strings.ReplaceAll of one byte by another.\<close>

definition replaceAllC :: "char \<Rightarrow> char \<Rightarrow> string \<Rightarrow> string" where
  "replaceAllC a b s = map (\<lambda>c. if c = a then b else c) s"

text \<open>strings.Compare and the order of Go strings: bytewise, shorter first.\<close>

fun strCompare :: "string \<Rightarrow> string \<Rightarrow> int" where
  "strCompare [] [] = 0"
| "strCompare [] (y # ys) = -1"
| "strCompare (x # xs) [] = 1"
| "strCompare (x # xs) (y # ys) =
     (if (of_char x :: nat) < of_char y then -1
      else if (of_char y :: nat) < of_char x then 1 else strCompare xs ys)"

section \<open>Package strconv\<close>

definition is_digit :: "char \<Rightarrow> bool" where
  "is_digit c = (let n = (of_char c :: nat) in 48 \<le> n \<and> n \<le> 57)"

definition digit_val :: "char \<Rightarrow> int" where
  "digit_val c = of_char c - 48"

fun digits_val :: "int \<Rightarrow> string \<Rightarrow> int" where
  "digits_val acc [] = acc"
| "digits_val acc (c # cs) = digits_val (10 * acc + digit_val c) cs"

text \<open>
  strconv.Atoi: the returned value and whether the error is nil. A syntax error returns 0, a
  range error the nearest representable value.
\<close>

definition atoi_sign :: "string \<Rightarrow> bool \<times> string" where
  "atoi_sign s = (case s of [] \<Rightarrow> (False, [])
     | c # cs \<Rightarrow> if c = CHR ''-'' then (True, cs) else if c = CHR ''+'' then (False, cs) else (False, s))"

definition atoi :: "string \<Rightarrow> int \<times> bool" where
  "atoi s = (case atoi_sign s of (neg, ds) \<Rightarrow>
     if ds = [] \<or> \<not> list_all is_digit ds then (0, False)
     else let n = digits_val 0 ds; v = (if neg then - n else n)
          in if max_int64 < v then (max_int64, False)
             else if v < min_int64 then (min_int64, False) else (v, True))"

definition atoi_opt :: "string \<Rightarrow> int option" where
  "atoi_opt s = (case atoi s of (v, ok) \<Rightarrow> if ok then Some v else None)"

fun show_nat :: "nat \<Rightarrow> string" where
  "show_nat n = (if n < 10 then [char_of (48 + n)] else show_nat (n div 10) @ [char_of (48 + n mod 10)])"

declare show_nat.simps [simp del]

text \<open>strconv.Itoa, and the verb for decimal integers of package fmt.\<close>

definition itoa :: "int \<Rightarrow> string" where
  "itoa i = (if i < 0 then CHR ''-'' # show_nat (nat (- i)) else show_nat (nat i))"

text \<open>The quoted form of a string without quotes and control characters (the q verb of package fmt).\<close>

definition goQuote :: "string \<Rightarrow> string" where
  "goQuote s = [CHR 0x22] @ s @ [CHR 0x22]"

section \<open>Package net/url\<close>

text \<open>
  A parsed URL: the parts dewy reads. Parsing itself is a parameter wherever it is used;
  pu_Host is the field Host, which may carry a port, and the methods Hostname and Port
  split it.
\<close>

record purl =
  pu_Scheme :: string
  pu_Host :: string
  pu_Path :: string
  pu_Query :: "(string \<times> string) list"

definition validOptionalPort :: "string \<Rightarrow> bool" where
  "validOptionalPort p = (case p of [] \<Rightarrow> True | c # cs \<Rightarrow> c = CHR '':'' \<and> list_all is_digit cs)"

definition splitHostPort :: "string \<Rightarrow> string \<times> string" where
  "splitHostPort hp =
     (let (host, port) = (case lastIndexC (CHR '':'') hp of
            Some i \<Rightarrow> if validOptionalPort (drop i hp) then (take i hp, drop (i + 1) hp) else (hp, [])
          | None \<Rightarrow> (hp, []))
      in (if hasPrefix host ''['' \<and> hasSuffix host '']'' then butlast (tl host) else host, port))"

definition url_Hostname :: "purl \<Rightarrow> string" where "url_Hostname u = fst (splitHostPort (pu_Host u))"

definition url_Port :: "purl \<Rightarrow> string" where "url_Port u = snd (splitHostPort (pu_Host u))"

section \<open>Package time\<close>

text \<open>
  An instant is its distance in nanoseconds from the zero time, a duration a 64-bit number
  of nanoseconds; differences of instants saturate.
\<close>

type_synonym instant = int
type_synonym duration = int

definition zeroTime :: instant where "zeroTime = 0"

definition time_Sub :: "instant \<Rightarrow> instant \<Rightarrow> duration" where
  "time_Sub t u = max min_int64 (min max_int64 (t - u))"

definition seconds :: "int \<Rightarrow> duration" where "seconds n = n * 1000000000"

section \<open>Lemmas on the string functions\<close>

lemma hasPrefix_iff [go_str]: "hasPrefix s p \<longleftrightarrow> (\<exists>t. s = p @ t)"
  by (metis append_take_drop_id append_eq_conv_conj hasPrefix_def)

lemma hasPrefix_append [simp]: "hasPrefix (p @ t) p"
  by (auto simp: hasPrefix_iff)

lemma hasPrefix_Nil [simp]: "hasPrefix s []"
  by (simp add: hasPrefix_def)

lemma hasPrefix_Nil_left [simp]: "hasPrefix [] p \<longleftrightarrow> p = []"
  by (auto simp: hasPrefix_def)

lemma hasPrefix_Cons [simp]: "hasPrefix (c # s) (d # p) \<longleftrightarrow> c = d \<and> hasPrefix s p"
  by (auto simp: hasPrefix_def)

lemma hasSuffix_iff [go_str]: "hasSuffix s p \<longleftrightarrow> (\<exists>t. s = t @ p)"
proof
  assume "hasSuffix s p"
  then have "s = take (length s - length p) s @ p"
    by (metis append_take_drop_id hasSuffix_def)
  then show "\<exists>t. s = t @ p" by blast
qed (auto simp: hasSuffix_def)

lemma trimPrefix_append [simp]: "trimPrefix (p @ t) p = t"
  by (simp add: trimPrefix_def)

lemma trimSuffix_append [simp]: "trimSuffix (t @ p) p = t"
  by (auto simp: trimSuffix_def hasSuffix_def)

lemma splitC_not_Nil [simp]: "splitC c s \<noteq> []"
  by (induction s) (auto split: list.splits)

lemma joinS_splitC: "joinS [c] (splitC c s) = s"
proof (induction s)
  case (Cons x xs)
  obtain y ys where "splitC c xs = y # ys"
    using splitC_not_Nil by (metis list.exhaust)
  with Cons show ?case by (cases ys) auto
qed simp

lemma splitC_parts: "p \<in> set (splitC c s) \<Longrightarrow> c \<notin> set p"
  by (induction s arbitrary: p) (auto split: list.splits if_splits)

lemma splitC_single [simp]: "c \<notin> set s \<Longrightarrow> splitC c s = [s]"
  by (induction s) auto

lemma splitC_append: "c \<notin> set s \<Longrightarrow> splitC c (s @ c # t) = s # splitC c t"
  by (induction s) auto

lemma splitC_joinS:
  "ps \<noteq> [] \<Longrightarrow> (\<And>p. p \<in> set ps \<Longrightarrow> c \<notin> set p) \<Longrightarrow> splitC c (joinS [c] ps) = ps"
  by (induction "[c]" ps rule: joinS.induct) (auto simp: splitC_append)

lemma splitC_inj: "splitC c s = splitC c t \<Longrightarrow> s = t"
  by (metis joinS_splitC)

lemma splitC_set: "x \<in> set s \<Longrightarrow> x \<noteq> c \<Longrightarrow> \<exists>p\<in>set (splitC c s). x \<in> set p"
  by (induction s) (auto split: list.splits)

lemma splitC_chars: "p \<in> set (splitC c s) \<Longrightarrow> set p \<subseteq> set s"
  by (induction s arbitrary: p) (fastforce split: list.splits if_splits)+

lemma lastIndexC_None [simp]: "lastIndexC c s = None \<longleftrightarrow> c \<notin> set s"
  by (induction s) (auto split: option.splits)

lemma lastIndexC_Some:
  "lastIndexC c s = Some i \<Longrightarrow> i < length s \<and> s ! i = c \<and> c \<notin> set (drop (Suc i) s)"
  by (induction s arbitrary: i) (auto split: option.splits if_splits)

lemma lastIndexC_append [simp]: "c \<notin> set t \<Longrightarrow> lastIndexC c (s @ c # t) = Some (length s)"
  by (induction s) (auto simp flip: lastIndexC_None)

lemma lastIndexC_append_notin: "c \<notin> set t \<Longrightarrow> lastIndexC c (s @ t) = lastIndexC c s"
  by (induction s) auto

lemma strIndex_Some:
  "strIndex s sub = Some i \<Longrightarrow> i + length sub \<le> length s \<and> s = take i s @ sub @ drop (i + length sub) s"
proof (induction s arbitrary: i)
  case (Cons c cs)
  show ?case
  proof (cases "hasPrefix (c # cs) sub")
    case True
    then obtain t where t: "c # cs = sub @ t" by (auto simp: hasPrefix_iff)
    from True Cons.prems have "i = 0" by simp
    with t show ?thesis by simp
  next
    case False
    with Cons obtain j where "strIndex cs sub = Some j" "i = Suc j" by auto
    with Cons.IH show ?thesis by auto
  qed
qed (auto split: if_splits)

lemma strIndex_charI: "c \<notin> set s \<Longrightarrow> strIndex (s @ c # t) (c # u) = (if hasPrefix t u then Some (length s) else map_option (\<lambda>i. Suc (length s + i)) (strIndex t (c # u)))"
  by (induction s) (auto simp: option.map_comp comp_def)

lemma strIndex_char_None [simp]: "strIndex s [c] = None \<longleftrightarrow> c \<notin> set s"
  by (induction s) auto

lemma strContains_char [simp]: "strContains s [c] \<longleftrightarrow> c \<in> set s"
  by (simp add: strContains_def)

lemma strIndex_prefix: "hasPrefix s sub \<Longrightarrow> strIndex s sub = Some 0"
  by (cases s) auto

lemma strContains_iff: "strContains s sub \<longleftrightarrow> (\<exists>a b. s = a @ sub @ b)"
proof
  assume "strContains s sub"
  then obtain i where "strIndex s sub = Some i" by (auto simp: strContains_def)
  then show "\<exists>a b. s = a @ sub @ b" using strIndex_Some by blast
next
  have "strIndex (a @ sub @ b) sub \<noteq> None" for a b
    by (induction a) (simp_all add: strIndex_prefix)
  then show "\<exists>a b. s = a @ sub @ b \<Longrightarrow> strContains s sub" by (auto simp: strContains_def)
qed

lemma strCompare_refl [simp]: "strCompare x x = 0"
  by (induction x) auto

lemma strCompare_values: "strCompare x y \<in> {-1, 0, 1}"
  by (induction x y rule: strCompare.induct) auto

lemma strCompare_eq_iff [simp]: "strCompare x y = 0 \<longleftrightarrow> x = y"
proof (induction x y rule: strCompare.induct)
  case (4 x xs y ys)
  have "x = y \<longleftrightarrow> (of_char x :: nat) = of_char y" by simp
  with 4 show ?case by (auto simp del: of_char_eq_iff)
qed auto

lemma strCompare_swap: "strCompare y x = - strCompare x y"
  by (induction x y rule: strCompare.induct) auto

lemma strCompare_Cons_less:
  "strCompare (x # xs) (y # ys) < 0 \<longleftrightarrow>
     (of_char x :: nat) < of_char y \<or> x = y \<and> strCompare xs ys < 0"
proof -
  have "\<not> (of_char x :: nat) < of_char y \<Longrightarrow> \<not> (of_char y :: nat) < of_char x \<Longrightarrow> x = y"
    by (metis linorder_neqE_nat of_char_eq_iff)
  then show ?thesis by auto
qed

lemma strCompare_trans: "strCompare x y < 0 \<Longrightarrow> strCompare y z < 0 \<Longrightarrow> strCompare x z < 0"
proof (induction x y arbitrary: z rule: strCompare.induct)
  case (2 y ys)
  then show ?case by (cases z) auto
next
  case (4 x xs y ys)
  show ?case
  proof (cases z)
    case Nil
    with 4 show ?thesis by simp
  next
    case (Cons w ws)
    have "(of_char x :: nat) < of_char y \<or> x = y \<and> strCompare xs ys < 0"
      using "4.prems"(1) by (simp only: strCompare_Cons_less)
    moreover have "(of_char y :: nat) < of_char w \<or> y = w \<and> strCompare ys ws < 0"
      using "4.prems"(2) by (simp only: strCompare_Cons_less Cons)
    moreover have "x = y \<Longrightarrow> strCompare xs ys < 0 \<Longrightarrow> strCompare ys ws < 0 \<Longrightarrow> strCompare xs ws < 0"
      using "4.IH" by simp
    ultimately show ?thesis
      unfolding strCompare_Cons_less Cons by (elim disjE conjE) (simp_all add: less_trans)
  qed
qed auto

section \<open>Lemmas on the integer functions\<close>

lemma wrap64_id [simp]: "in_int64 x \<Longrightarrow> wrap64 x = x"
  by (simp add: int64_defs)

lemma wrap64_range: "in_int64 (wrap64 x)"
  using pos_mod_bound [of 18446744073709551616 "x + 9223372036854775808"]
    pos_mod_sign [of 18446744073709551616 "x + 9223372036854775808"]
  unfolding int64_defs by linarith

lemma is_digit_char_of: "n < 10 \<Longrightarrow> is_digit (char_of (48 + n :: nat))"
  by (simp add: is_digit_def of_char_of)

lemma digit_val_char_of: "n < 10 \<Longrightarrow> digit_val (char_of (48 + n :: nat)) = int n"
proof -
  assume "n < 10"
  have "(of_char (char_of (48 + n)) :: int) = int (of_char (char_of (48 + n)))"
    by (simp only: of_nat_of_char)
  also have "\<dots> = int (48 + n)" using \<open>n < 10\<close> by (simp add: of_char_of)
  finally show ?thesis by (simp add: digit_val_def)
qed

lemma digits_val_append: "digits_val acc (xs @ ys) = digits_val (digits_val acc xs) ys"
  by (induction xs arbitrary: acc) auto

lemma show_nat_not_Nil [simp]: "show_nat n \<noteq> []"
  by (subst show_nat.simps) simp

lemma show_nat_digits: "list_all is_digit (show_nat n)"
proof (induction n rule: show_nat.induct)
  case (1 n)
  then show ?case
    by (subst show_nat.simps) (simp add: is_digit_char_of)
qed

lemma digits_val_show_nat: "digits_val 0 (show_nat n) = int n"
proof (induction n rule: show_nat.induct)
  case (1 n)
  show ?case
  proof (cases "n < 10")
    case True
    then show ?thesis by (subst show_nat.simps) (simp add: digit_val_char_of)
  next
    case False
    have "10 * int (n div 10) + int (n mod 10) = int n" by presburger
    with False 1 show ?thesis
      by (subst show_nat.simps) (simp add: digits_val_append digit_val_char_of)
  qed
qed

lemma is_digit_not_sign: "is_digit c \<Longrightarrow> c \<noteq> CHR ''-'' \<and> c \<noteq> CHR ''+''"
  by (auto simp: is_digit_def)

lemma atoi_sign_digits: "ds \<noteq> [] \<Longrightarrow> list_all is_digit ds \<Longrightarrow> atoi_sign ds = (False, ds)"
  by (cases ds) (auto simp: atoi_sign_def dest: is_digit_not_sign)

lemma digit_val_nonneg: "is_digit c \<Longrightarrow> 0 \<le> digit_val c"
proof -
  assume "is_digit c"
  then have "48 \<le> (of_char c :: nat)" by (simp add: is_digit_def Let_def)
  then have "48 \<le> int (of_char c)" by linarith
  then show ?thesis by (simp only: digit_val_def of_nat_of_char)
qed

lemma digits_val_nonneg: "list_all is_digit ds \<Longrightarrow> 0 \<le> acc \<Longrightarrow> 0 \<le> digits_val acc ds"
  by (induction ds arbitrary: acc) (auto simp: digit_val_nonneg)

lemma atoi_digits:
  "ds \<noteq> [] \<Longrightarrow> list_all is_digit ds \<Longrightarrow>
   atoi ds = (if max_int64 < digits_val 0 ds then (max_int64, False) else (digits_val 0 ds, True))"
  using digits_val_nonneg [of ds 0]
  by (simp add: atoi_def atoi_sign_digits Let_def int64_defs)

lemma atoi_itoa: "in_int64 i \<Longrightarrow> atoi (itoa i) = (i, True)"
proof (cases "i < 0")
  case True
  assume "in_int64 i"
  with True show ?thesis
    by (simp add: itoa_def atoi_def atoi_sign_def show_nat_digits digits_val_show_nat int64_defs)
next
  case False
  assume "in_int64 i"
  with False show ?thesis
    by (simp add: itoa_def atoi_digits show_nat_digits digits_val_show_nat int64_defs)
qed

lemma atoi_range: "in_int64 (fst (atoi s))"
  by (auto simp: atoi_def Let_def int64_defs split: prod.splits)

lemma atoi_opt_range: "atoi_opt s = Some v \<Longrightarrow> in_int64 v"
  using atoi_range [of s] by (auto simp: atoi_opt_def split: prod.splits if_splits)

lemma atoi_opt_itoa [simp]: "in_int64 i \<Longrightarrow> atoi_opt (itoa i) = Some i"
  by (simp add: atoi_opt_def atoi_itoa)

end
