(* ===== verification/Go_Regex.thy ===== *)
theory Go_Regex
  imports Dewy_Prelude
begin

text \<open>
  The fragment of Go's package regexp that the version parsers compile: literals, repeated
  character classes, sequence, alternatives, optional parts and capture groups, always
  anchored at both ends. A match is the one a backtracking search finds first (Go's
  leftmost-first rule): \<open>rmatch\<close> lists all ways to match a prefix in that order, each with
  the captured groups and the rest of the input; \<open>findSubmatch\<close> takes the first that
  consumes the whole input. A group that takes no part in the match captures the empty
  string, as in FindStringSubmatch.
\<close>

named_theorems rx \<open>matching rules of the regular-expression constructors\<close>

datatype re =
    RStr string
  | RRep nat "nat option" "char \<Rightarrow> bool"
  | RSeq re re
  | RAlt re re
  | ROpt re
  | RGroup re

primrec ngroups :: "re \<Rightarrow> nat" where
  "ngroups (RStr w) = 0"
| "ngroups (RRep lo hi c) = 0"
| "ngroups (RSeq a b) = ngroups a + ngroups b"
| "ngroups (RAlt a b) = ngroups a + ngroups b"
| "ngroups (ROpt a) = ngroups a"
| "ngroups (RGroup a) = Suc (ngroups a)"

text \<open>How many characters a greedy repetition may take, longest first.\<close>

definition rep_counts :: "nat \<Rightarrow> nat option \<Rightarrow> nat \<Rightarrow> nat list" where
  "rep_counts lo hi n = rev [lo ..< Suc (case hi of None \<Rightarrow> n | Some h \<Rightarrow> min h n)]"

type_synonym rx_result = "string list \<times> string"

primrec rmatch :: "re \<Rightarrow> string \<Rightarrow> rx_result list" where
  "rmatch (RStr w) s = (if hasPrefix s w then [([], drop (length w) s)] else [])"
| "rmatch (RRep lo hi c) s =
     map (\<lambda>k. ([], drop k s)) (rep_counts lo hi (length (takeWhile c s)))"
| "rmatch (RSeq a b) s =
     concat (map (\<lambda>(g1, s1). map (\<lambda>(g2, s2). (g1 @ g2, s2)) (rmatch b s1)) (rmatch a s))"
| "rmatch (RAlt a b) s =
     map (\<lambda>(g, t). (g @ replicate (ngroups b) [], t)) (rmatch a s)
     @ map (\<lambda>(g, t). (replicate (ngroups a) [] @ g, t)) (rmatch b s)"
| "rmatch (ROpt a) s = rmatch a s @ [(replicate (ngroups a) [], s)]"
| "rmatch (RGroup a) s = map (\<lambda>(g, t). (take (length s - length t) s # g, t)) (rmatch a s)"

definition findSubmatch :: "re \<Rightarrow> string \<Rightarrow> string list option" where
  "findSubmatch r s = map_option fst (find (\<lambda>(g, t). t = []) (rmatch r s))"

definition matchString :: "re \<Rightarrow> string \<Rightarrow> bool" where
  "matchString r s = (findSubmatch r s \<noteq> None)"

section \<open>What a match can be\<close>

lemma rep_counts_set: "k \<in> set (rep_counts lo hi n) \<longleftrightarrow>
    lo \<le> k \<and> k \<le> n \<and> (\<forall>h. hi = Some h \<longrightarrow> k \<le> h)"
  by (auto simp: rep_counts_def split: option.splits)

lemma rep_counts_unbounded: "lo \<le> n \<Longrightarrow> rep_counts lo None n = n # rev [lo ..< n]"
  by (simp add: rep_counts_def)

lemma rmatch_RStr [rx]: "(g, t) \<in> set (rmatch (RStr w) s) \<longleftrightarrow> g = [] \<and> s = w @ t"
  by (auto simp: hasPrefix_iff)

lemma take_takeWhile_all: "k \<le> length (takeWhile c s) \<Longrightarrow> list_all c (take k s)"
  by (metis (no_types, lifting) list_all_iff set_takeWhileD takeWhile_eq_take take_take min.absorb1 in_set_takeD)

lemma takeWhile_length_ge: "list_all c u \<Longrightarrow> length u \<le> length (takeWhile c (u @ t))"
  by (induction u) auto

lemma rmatch_RRep [rx]: "(g, t) \<in> set (rmatch (RRep lo hi c) s) \<longleftrightarrow>
    g = [] \<and> (\<exists>u. s = u @ t \<and> list_all c u \<and> lo \<le> length u \<and> (\<forall>h. hi = Some h \<longrightarrow> length u \<le> h))"
proof
  assume "(g, t) \<in> set (rmatch (RRep lo hi c) s)"
  then obtain k where k: "g = []" "t = drop k s" "lo \<le> k" "k \<le> length (takeWhile c s)"
      "\<forall>h. hi = Some h \<longrightarrow> k \<le> h"
    by (auto simp: rep_counts_set)
  then have "k \<le> length s" using length_takeWhile_le le_trans by blast
  with k have "s = take k s @ t" "list_all c (take k s)" "length (take k s) = k"
    by (auto simp: take_takeWhile_all)
  with k show "g = [] \<and> (\<exists>u. s = u @ t \<and> list_all c u \<and> lo \<le> length u \<and> (\<forall>h. hi = Some h \<longrightarrow> length u \<le> h))"
    by metis
next
  assume "g = [] \<and> (\<exists>u. s = u @ t \<and> list_all c u \<and> lo \<le> length u \<and> (\<forall>h. hi = Some h \<longrightarrow> length u \<le> h))"
  then obtain u where u: "g = []" "s = u @ t" "list_all c u" "lo \<le> length u"
      "\<forall>h. hi = Some h \<longrightarrow> length u \<le> h"
    by blast
  then have "length u \<in> set (rep_counts lo hi (length (takeWhile c s)))"
    by (simp add: rep_counts_set takeWhile_length_ge)
  moreover have "drop (length u) s = t" using u by simp
  ultimately show "(g, t) \<in> set (rmatch (RRep lo hi c) s)"
    using u(1) by (force simp: image_iff)
qed

lemma rmatch_RSeq [rx]: "(g, t) \<in> set (rmatch (RSeq a b) s) \<longleftrightarrow>
    (\<exists>g1 g2 s1. g = g1 @ g2 \<and> (g1, s1) \<in> set (rmatch a s) \<and> (g2, t) \<in> set (rmatch b s1))"
proof
  assume "(g, t) \<in> set (rmatch (RSeq a b) s)"
  then obtain p q where "p \<in> set (rmatch a s)" "q \<in> set (rmatch b (snd p))" "(g, t) = (fst p @ fst q, snd q)"
    by (auto simp: split_beta)
  then show "\<exists>g1 g2 s1. g = g1 @ g2 \<and> (g1, s1) \<in> set (rmatch a s) \<and> (g2, t) \<in> set (rmatch b s1)"
    by (metis prod.inject prod.collapse)
next
  assume "\<exists>g1 g2 s1. g = g1 @ g2 \<and> (g1, s1) \<in> set (rmatch a s) \<and> (g2, t) \<in> set (rmatch b s1)"
  then show "(g, t) \<in> set (rmatch (RSeq a b) s)" by force
qed

lemma rmatch_RAlt [rx]: "(g, t) \<in> set (rmatch (RAlt a b) s) \<longleftrightarrow>
    (\<exists>h. g = h @ replicate (ngroups b) [] \<and> (h, t) \<in> set (rmatch a s)) \<or>
    (\<exists>h. g = replicate (ngroups a) [] @ h \<and> (h, t) \<in> set (rmatch b s))"
  by (simp add: image_iff split_beta Bex_def) (metis prod.collapse fst_conv snd_conv)

lemma rmatch_ROpt [rx]: "(g, t) \<in> set (rmatch (ROpt a) s) \<longleftrightarrow>
    (g, t) \<in> set (rmatch a s) \<or> g = replicate (ngroups a) [] \<and> t = s"
  by auto

lemma rmatch_RGroup [rx]: "(g, t) \<in> set (rmatch (RGroup a) s) \<longleftrightarrow>
    (\<exists>h. g = take (length s - length t) s # h \<and> (h, t) \<in> set (rmatch a s))"
  by (force simp: image_iff split_beta)

text \<open>Every result splits the input, and captures one string per group.\<close>

lemma rmatch_suffix: "(g, t) \<in> set (rmatch r s) \<Longrightarrow> \<exists>u. s = u @ t"
proof (induction r arbitrary: g t s)
  case (RSeq a b)
  then show ?case by (metis rmatch_RSeq append.assoc)
next
  case (RAlt a b)
  then show ?case by (metis rmatch_RAlt)
next
  case (ROpt a)
  then show ?case by (metis rmatch_ROpt append_Nil)
next
  case (RGroup a)
  then show ?case by (metis rmatch_RGroup)
qed (auto simp only: rx)

lemma rmatch_groups: "(g, t) \<in> set (rmatch r s) \<Longrightarrow> length g = ngroups r"
proof (induction r arbitrary: g t s)
  case (RSeq a b)
  then show ?case by (auto simp only: rx ngroups.simps length_append)
next
  case (RAlt a b)
  then show ?case by (auto simp only: rx ngroups.simps length_append length_replicate)
next
  case (ROpt a)
  then show ?case by (auto simp only: rx ngroups.simps length_replicate)
next
  case (RGroup a)
  then show ?case by (auto simp only: rx ngroups.simps list.size add_Suc_right add_0_right)
qed (auto simp only: rx ngroups.simps list.size)

lemma rmatch_RGroup_append [rx]: "(g, t) \<in> set (rmatch (RGroup a) s) \<longleftrightarrow>
    (\<exists>u h. s = u @ t \<and> g = u # h \<and> (h, t) \<in> set (rmatch a s))"
proof -
  have "take (length s - length t) s = u" if "s = u @ t" for u using that by simp
  then show ?thesis
    unfolding rmatch_RGroup using rmatch_suffix by metis
qed

lemma find_SomeD: "find P xs = Some x \<Longrightarrow> x \<in> set xs \<and> P x"
  by (induction xs) (auto split: if_splits)

lemma findSubmatch_Some: "findSubmatch r s = Some g \<Longrightarrow> (g, []) \<in> set (rmatch r s)"
proof -
  assume "findSubmatch r s = Some g"
  then obtain t where "find (\<lambda>(g, t). t = []) (rmatch r s) = Some (g, t)"
    by (auto simp: findSubmatch_def)
  then have "(g, t) \<in> set (rmatch r s)" "t = []"
    using find_SomeD [of "\<lambda>(g, t). t = []" "rmatch r s" "(g, t)"] by auto
  then show ?thesis by simp
qed

lemma findSubmatch_length: "findSubmatch r s = Some g \<Longrightarrow> length g = ngroups r"
  using findSubmatch_Some rmatch_groups by blast

lemma findSubmatch_None_iff: "findSubmatch r s = None \<longleftrightarrow> (\<forall>g. (g, []) \<notin> set (rmatch r s))"
  by (auto simp: findSubmatch_def find_None_iff split_beta)

lemma matchString_iff: "matchString r s \<longleftrightarrow> (\<exists>g. (g, []) \<in> set (rmatch r s))"
  by (simp add: matchString_def findSubmatch_None_iff)

section \<open>Which match is found: the greedy one, when it goes through\<close>

lemma find_append: "find P (xs @ ys) = (case find P xs of None \<Rightarrow> find P ys | Some x \<Rightarrow> Some x)"
  by (induction xs) auto

lemma find_map_captures:
  "find (\<lambda>(g, t). t = []) xs = Some (g2, t) \<Longrightarrow>
   find (\<lambda>(g, t). t = []) (map (\<lambda>(g2, s2). (g1 @ g2, s2)) xs) = Some (g1 @ g2, t)"
  by (induction xs) (auto split: if_splits)

text \<open>If the first way to match the first part lets the rest match, it is the one found.\<close>

lemma findSubmatch_RSeq:
  assumes "rmatch a s = (g1, s1) # rs" and "findSubmatch b s1 = Some g2"
  shows "findSubmatch (RSeq a b) s = Some (g1 @ g2)"
proof -
  obtain t where "find (\<lambda>(g, t). t = []) (rmatch b s1) = Some (g2, t)"
    using assms(2) by (auto simp: findSubmatch_def)
  then have "find (\<lambda>(g, t). t = []) (map (\<lambda>(g2, s2). (g1 @ g2, s2)) (rmatch b s1)) = Some (g1 @ g2, t)"
    by (rule find_map_captures)
  with assms(1) show ?thesis by (simp add: findSubmatch_def find_append)
qed

lemma rmatch_RRep_greedy:
  assumes "list_all c u" and "lo \<le> length u" and "t = [] \<or> \<not> c (hd t)"
  shows "\<exists>rs. rmatch (RRep lo None c) (u @ t) = ([], t) # rs"
proof -
  have "takeWhile c (u @ t) = u"
    using assms(1,3) by (cases t) (auto simp: list_all_iff takeWhile_append)
  with assms(2) show ?thesis by (simp add: rep_counts_unbounded)
qed

lemma rmatch_RGroup_Cons:
  "rmatch a (u @ t) = (g, t) # rs \<Longrightarrow> \<exists>rs'. rmatch (RGroup a) (u @ t) = (u # g, t) # rs'"
  by simp

lemma rmatch_ROpt_Cons: "rmatch a s = x # rs \<Longrightarrow> \<exists>rs'. rmatch (ROpt a) s = x # rs'"
  by simp

lemma rmatch_ROpt_Nil: "rmatch a s = [] \<Longrightarrow> rmatch (ROpt a) s = [(replicate (ngroups a) [], s)]"
  by simp

lemma rmatch_RSeq_Cons:
  "rmatch a s = (g1, s1) # rs \<Longrightarrow> rmatch b s1 = (g2, s2) # rs2 \<Longrightarrow>
   \<exists>rs'. rmatch (RSeq a b) s = (g1 @ g2, s2) # rs'"
  by simp

lemma findSubmatch_last: "rmatch a s = (g, []) # rs \<Longrightarrow> findSubmatch a s = Some g"
  by (simp add: findSubmatch_def)

end
