(* ===== verification/Registry_Version.thy ===== *)
theory Registry_Version
  imports Go_Regex "HOL-Library.List_Lexorder" "HOL-Library.Product_Lexorder"
begin

text \<open>
  Versions of the registry package: registry/version.go (pre-release precedence),
  registry/semver.go, registry/calver.go, registry/slot.go and the slot extraction of
  registry/registry.go. The comparison functions are specified by keys in a linear order
  (\<open>semver_key\<close>, \<open>calver_key\<close>); the locale \<open>version_order\<close> is the
  contract that the search for the latest version relies on, and both version types
  interpret it.
\<close>

section \<open>Pre-release precedence (version.go)\<close>

fun cmpParts :: "string list \<Rightarrow> string list \<Rightarrow> int" where
  "cmpParts [] [] = 0"
| "cmpParts [] (b # bs) = -1"
| "cmpParts (a # as) [] = 1"
| "cmpParts (a # as) (b # bs) =
     (case (atoi_opt a, atoi_opt b) of
        (Some numA, Some numB) \<Rightarrow> if numA \<noteq> numB then wrap64 (numA - numB) else cmpParts as bs
      | (Some _, None) \<Rightarrow> -1
      | (None, Some _) \<Rightarrow> 1
      | (None, None) \<Rightarrow> (let cmp = strCompare a b in if cmp \<noteq> 0 then cmp else cmpParts as bs))"

definition comparePreRelease :: "string \<Rightarrow> string \<Rightarrow> int" where
  "comparePreRelease a b =
     (if a = b then 0 else cmpParts (splitC (CHR ''.'') a) (splitC (CHR ''.'') b))"

section \<open>Semantic versions (semver.go)\<close>

definition isIdentC :: "char \<Rightarrow> bool" where
  "isIdentC c = (is_digit c \<or> (let n = (of_char c :: nat) in (65 \<le> n \<and> n \<le> 90) \<or> (97 \<le> n \<and> n \<le> 122))
     \<or> c = CHR ''.'' \<or> c = CHR ''-'')"

definition v_re :: re where "v_re = ROpt (RGroup (RStr ''v''))"

definition num_re :: re where "num_re = RGroup (RRep 1 None is_digit)"

definition pre_re :: re where
  "pre_re = ROpt (RSeq (RStr ''-'') (RGroup (RRep 1 None isIdentC)))"

definition build_re :: re where
  "build_re = ROpt (RSeq (RStr ''+'') (RGroup (RRep 1 None isIdentC)))"

definition SemVerRegexWithoutPreRelease :: re where
  "SemVerRegexWithoutPreRelease =
     RSeq (ROpt (RStr ''v'')) (RSeq num_re (RSeq (RStr ''.'') (RSeq num_re (RSeq (RStr ''.'')
       (RSeq num_re build_re)))))"

definition SemVerRegex :: re where
  "SemVerRegex =
     RSeq v_re (RSeq num_re (RSeq (RStr ''.'') (RSeq num_re (RSeq (RStr ''.'')
       (RSeq num_re (RSeq pre_re build_re))))))"

record SemVer =
  sv_V :: string
  sv_Major :: goint
  sv_Minor :: goint
  sv_Patch :: goint
  sv_PreRelease :: string
  sv_BuildMetadata :: string

definition ParseSemVer :: "string \<Rightarrow> SemVer option" where
  "ParseSemVer version = (case findSubmatch SemVerRegex version of
     Some [v, major, minor, patch, preRelease, buildMetadata] \<Rightarrow>
       Some \<lparr>sv_V = v, sv_Major = fst (atoi major), sv_Minor = fst (atoi minor),
             sv_Patch = fst (atoi patch), sv_PreRelease = preRelease,
             sv_BuildMetadata = buildMetadata\<rparr>
   | _ \<Rightarrow> None)"

definition SemVer_Compare :: "SemVer \<Rightarrow> SemVer \<Rightarrow> int" where
  "SemVer_Compare v other =
     (if sv_Major v \<noteq> sv_Major other then wrap64 (sv_Major v - sv_Major other)
      else if sv_Minor v \<noteq> sv_Minor other then wrap64 (sv_Minor v - sv_Minor other)
      else if sv_Patch v \<noteq> sv_Patch other then wrap64 (sv_Patch v - sv_Patch other)
      else if sv_PreRelease v = [] \<and> sv_PreRelease other \<noteq> [] then 1
      else if sv_PreRelease v \<noteq> [] \<and> sv_PreRelease other = [] then -1
      else comparePreRelease (sv_PreRelease v) (sv_PreRelease other))"

definition SemVer_String :: "SemVer \<Rightarrow> string" where
  "SemVer_String v =
     (let pre = (if sv_PreRelease v \<noteq> [] then ''-'' @ sv_PreRelease v else []);
          build = (if sv_BuildMetadata v \<noteq> [] then ''+'' @ sv_BuildMetadata v else [])
      in sv_V v @ itoa (sv_Major v) @ ''.'' @ itoa (sv_Minor v) @ ''.'' @ itoa (sv_Patch v) @ pre @ build)"

definition matchSemVerPattern :: "string \<Rightarrow> bool \<Rightarrow> bool" where
  "matchSemVerPattern str allowPreRelease =
     (if allowPreRelease then matchString SemVerRegex str
      else matchString SemVerRegexWithoutPreRelease str)"

text \<open>
  The loop shared by the two searches: keep the first candidate, replace it only by a
  strictly greater one.
\<close>

fun latest_of :: "(string \<Rightarrow> 'v option) \<Rightarrow> ('v \<Rightarrow> 'v \<Rightarrow> int) \<Rightarrow> string list \<Rightarrow>
    ('v \<times> string) option \<Rightarrow> ('v \<times> string) option" where
  "latest_of cand cmp [] acc = acc"
| "latest_of cand cmp (name # names) acc = latest_of cand cmp names
     (case cand name of
        None \<Rightarrow> acc
      | Some ver \<Rightarrow> (case acc of
          None \<Rightarrow> Some (ver, name)
        | Some (latestVersion, latestName) \<Rightarrow>
            if 0 < cmp ver latestVersion then Some (ver, name) else acc))"

definition semver_candidate :: "string \<Rightarrow> bool \<Rightarrow> string \<Rightarrow> SemVer option" where
  "semver_candidate slot allowPreRelease name =
     (if matchSemVerPattern name allowPreRelease
      then (case ParseSemVer name of
              None \<Rightarrow> None
            | Some ver \<Rightarrow> if slot \<noteq> [] \<and> sv_BuildMetadata ver \<noteq> slot then None else Some ver)
      else None)"

datatype find_error = NoValidVersion | CalVerFormatEmpty | CalVerNoSpecifiers string

definition FindLatestSemVerWithSlot ::
    "string list \<Rightarrow> string \<Rightarrow> bool \<Rightarrow> find_error + (SemVer \<times> string)" where
  "FindLatestSemVerWithSlot versionNames slot allowPreRelease =
     (case latest_of (semver_candidate slot allowPreRelease) SemVer_Compare versionNames None of
        None \<Rightarrow> Inl NoValidVersion | Some r \<Rightarrow> Inr r)"

definition FindLatestSemVer :: "string list \<Rightarrow> bool \<Rightarrow> find_error + (SemVer \<times> string)" where
  "FindLatestSemVer versionNames allowPreRelease =
     FindLatestSemVerWithSlot versionNames [] allowPreRelease"

section \<open>Calendar versions (calver.go)\<close>

record CalVerFormat =
  cf_Format :: string
  cf_Regex :: re
  cf_segments :: "string list"

record CalVer =
  cv_V :: string
  cv_Segments :: "goint list"
  cv_PreRelease :: string
  cv_BuildMetadata :: string
  cv_Original :: string

definition clsRange :: "nat \<Rightarrow> nat \<Rightarrow> re" where
  "clsRange lo hi = RRep 1 (Some 1) (\<lambda>c. let n = (of_char c :: nat) in lo \<le> n \<and> n \<le> hi)"

definition calverSpecifiers :: "string \<Rightarrow> re option" where
  "calverSpecifiers = map_of [
     (''YYYY'', RGroup (RRep 4 (Some 4) is_digit)),
     (''YY'', RGroup (RRep 1 (Some 3) is_digit)),
     (''0Y'', RGroup (RRep 2 (Some 3) is_digit)),
     (''MM'', RGroup (RAlt (clsRange 49 57) (RSeq (RStr ''1'') (clsRange 48 50)))),
     (''0M'', RGroup (RAlt (RSeq (RStr ''0'') (clsRange 49 57)) (RSeq (RStr ''1'') (clsRange 48 50)))),
     (''WW'', RGroup (RAlt (clsRange 49 57)
        (RAlt (RSeq (clsRange 49 52) (clsRange 48 57)) (RSeq (RStr ''5'') (clsRange 48 51))))),
     (''0W'', RGroup (RAlt (RSeq (RStr ''0'') (clsRange 49 57))
        (RAlt (RSeq (clsRange 49 52) (clsRange 48 57)) (RSeq (RStr ''5'') (clsRange 48 51))))),
     (''DD'', RGroup (RAlt (clsRange 49 57)
        (RAlt (RSeq (clsRange 49 50) (clsRange 48 57)) (RSeq (RStr ''3'') (clsRange 48 49))))),
     (''0D'', RGroup (RAlt (RSeq (RStr ''0'') (clsRange 49 57))
        (RAlt (RSeq (clsRange 49 50) (clsRange 48 57)) (RSeq (RStr ''3'') (clsRange 48 49))))),
     (''MICRO'', RGroup (RRep 1 None is_digit))]"

definition calverSpecifierOrder :: "string list" where
  "calverSpecifierOrder = [''YYYY'', ''0Y'', ''YY'', ''0M'', ''MM'', ''0W'', ''WW'', ''0D'', ''DD'', ''MICRO'']"

text \<open>
  A literal character of the format: Go's string(remaining[0]) is the UTF-8 encoding of the
  code point with the number of that byte, which is two bytes from 128 on.
\<close>

definition rune_bytes :: "char \<Rightarrow> string" where
  "rune_bytes c = (let n = (of_char c :: nat) in
     if n < 128 then [c] else [char_of (192 + n div 64), char_of (128 + n mod 64)])"

lemma calverSpecifierOrder_nonempty: "find (hasPrefix s) calverSpecifierOrder = Some spec \<Longrightarrow> 0 < length spec"
  by (auto simp: calverSpecifierOrder_def split: if_splits)

function calver_scan :: "string \<Rightarrow> re list \<times> string list" where
  "calver_scan [] = ([], [])"
| "calver_scan (c # cs) =
     (case find (hasPrefix (c # cs)) calverSpecifierOrder of
        Some spec \<Rightarrow>
          (case calver_scan (drop (length spec) (c # cs)) of (regexParts, segments) \<Rightarrow>
             ((case calverSpecifiers spec of Some r \<Rightarrow> r | None \<Rightarrow> RStr []) # regexParts, spec # segments))
      | None \<Rightarrow>
          (case calver_scan cs of (regexParts, segments) \<Rightarrow> (RStr (rune_bytes c) # regexParts, segments)))"
  by pat_completeness auto
termination
  by (relation "measure length") (auto dest: calverSpecifierOrder_nonempty)

definition NewCalVerFormat :: "string \<Rightarrow> find_error + CalVerFormat" where
  "NewCalVerFormat format =
     (if format = [] then Inl CalVerFormatEmpty
      else (case calver_scan format of (regexParts, segments) \<Rightarrow>
        if segments = [] then Inl (CalVerNoSpecifiers format)
        else Inr \<lparr>cf_Format = format,
                  cf_Regex = RSeq v_re (foldr RSeq regexParts (RSeq pre_re build_re)),
                  cf_segments = segments\<rparr>))"

text \<open>The segment loop of Parse: the groups after the prefix group, stopping at an Atoi error.\<close>

fun parse_segments :: "string list \<Rightarrow> goint list option" where
  "parse_segments [] = Some []"
| "parse_segments (g # gs) =
     (case atoi_opt g of None \<Rightarrow> None | Some val \<Rightarrow> map_option ((#) val) (parse_segments gs))"

definition CalVer_Parse :: "CalVerFormat \<Rightarrow> string \<Rightarrow> CalVer option" where
  "CalVer_Parse f version = (case findSubmatch (cf_Regex f) version of
     None \<Rightarrow> None
   | Some groups \<Rightarrow>
       (case parse_segments (take (length (cf_segments f)) (drop 1 groups)) of
          None \<Rightarrow> None
        | Some segs \<Rightarrow>
            Some \<lparr>cv_V = groups ! 0, cv_Segments = segs,
                  cv_PreRelease = groups ! (length groups - 2),
                  cv_BuildMetadata = groups ! (length groups - 1), cv_Original = version\<rparr>))"

fun cmpSegments :: "goint list \<Rightarrow> goint list \<Rightarrow> int" where
  "cmpSegments [] [] = 0"
| "cmpSegments (a # as) [] = (if a \<noteq> 0 then wrap64 (a - 0) else cmpSegments as [])"
| "cmpSegments [] (b # bs) = (if 0 \<noteq> b then wrap64 (0 - b) else cmpSegments [] bs)"
| "cmpSegments (a # as) (b # bs) = (if a \<noteq> b then wrap64 (a - b) else cmpSegments as bs)"

definition CalVer_Compare :: "CalVer \<Rightarrow> CalVer \<Rightarrow> int" where
  "CalVer_Compare v other =
     (let c = cmpSegments (cv_Segments v) (cv_Segments other)
      in if c \<noteq> 0 then c
         else if cv_PreRelease v = [] \<and> cv_PreRelease other \<noteq> [] then 1
         else if cv_PreRelease v \<noteq> [] \<and> cv_PreRelease other = [] then -1
         else comparePreRelease (cv_PreRelease v) (cv_PreRelease other))"

definition CalVer_String :: "CalVer \<Rightarrow> string" where "CalVer_String v = cv_Original v"

definition calver_candidate :: "CalVerFormat \<Rightarrow> string \<Rightarrow> bool \<Rightarrow> string \<Rightarrow> CalVer option" where
  "calver_candidate f slot allowPreRelease name =
     (case CalVer_Parse f name of
        None \<Rightarrow> None
      | Some ver \<Rightarrow>
          if \<not> allowPreRelease \<and> cv_PreRelease ver \<noteq> [] then None
          else if slot \<noteq> [] \<and> cv_BuildMetadata ver \<noteq> slot then None
          else Some ver)"

definition FindLatestCalVerWithSlot ::
    "string list \<Rightarrow> string \<Rightarrow> string \<Rightarrow> bool \<Rightarrow> find_error + (CalVer \<times> string)" where
  "FindLatestCalVerWithSlot versionNames format slot allowPreRelease =
     (case NewCalVerFormat format of
        Inl e \<Rightarrow> Inl e
      | Inr f \<Rightarrow>
          (case latest_of (calver_candidate f slot allowPreRelease) CalVer_Compare versionNames None of
             None \<Rightarrow> Inl NoValidVersion | Some r \<Rightarrow> Inr r))"

definition FindLatestCalVer :: "string list \<Rightarrow> string \<Rightarrow> bool \<Rightarrow> find_error + (CalVer \<times> string)" where
  "FindLatestCalVer versionNames format allowPreRelease =
     FindLatestCalVerWithSlot versionNames format [] allowPreRelease"

section \<open>Slots (slot.go, registry.go)\<close>

definition SlotMatcher_Matches :: "string \<Rightarrow> string \<Rightarrow> bool" where
  "SlotMatcher_Matches expected actual = (expected = [] \<or> expected = actual)"

definition extractSlot :: "string \<Rightarrow> string \<Rightarrow> string" where
  "extractSlot tag calverFormat =
     (let bySemVer = (case ParseSemVer tag of Some sv \<Rightarrow> sv_BuildMetadata sv | None \<Rightarrow> [])
      in if calverFormat \<noteq> [] then
           (case NewCalVerFormat calverFormat of
              Inr f \<Rightarrow> (case CalVer_Parse f tag of Some cv \<Rightarrow> cv_BuildMetadata cv | None \<Rightarrow> bySemVer)
            | Inl _ \<Rightarrow> bySemVer)
         else bySemVer)"

definition addTrailingSlash :: "string \<Rightarrow> string" where
  "addTrailingSlash path = (if hasSuffix path ''/'' then path else path @ ''/'')"

definition removeTrailingSlash :: "string \<Rightarrow> string" where
  "removeTrailingSlash path = trimSuffix path ''/''"

section \<open>Precedence keys\<close>

text \<open>An identifier of a pre-release as a point of a linear order: numbers below words.\<close>

datatype idkey = NumKey int | StrKey "nat list"

instantiation idkey :: linorder
begin

fun less_eq_idkey :: "idkey \<Rightarrow> idkey \<Rightarrow> bool" where
  "less_eq_idkey (NumKey a) (NumKey b) = (a \<le> b)"
| "less_eq_idkey (NumKey a) (StrKey s) = True"
| "less_eq_idkey (StrKey s) (NumKey b) = False"
| "less_eq_idkey (StrKey s) (StrKey t) = (s \<le> t)"

definition less_idkey :: "idkey \<Rightarrow> idkey \<Rightarrow> bool" where
  "less_idkey a b = (a \<le> b \<and> \<not> b \<le> a)"

instance
proof
  fix x y z :: idkey
  show "x < y \<longleftrightarrow> x \<le> y \<and> \<not> y \<le> x" by (rule less_idkey_def)
  show "x \<le> x" by (cases x) auto
  show "x \<le> y \<Longrightarrow> y \<le> z \<Longrightarrow> x \<le> z" by (cases x; cases y; cases z) auto
  show "x \<le> y \<Longrightarrow> y \<le> x \<Longrightarrow> x = y" by (cases x; cases y) auto
  show "x \<le> y \<or> y \<le> x" by (cases x; cases y) auto
qed

end

lemma less_idkey_simps [simp]:
  "NumKey a < NumKey b \<longleftrightarrow> a < b" "NumKey a < StrKey s" "\<not> StrKey s < NumKey a"
  "StrKey s < StrKey t \<longleftrightarrow> s < t"
  by (auto simp: less_idkey_def)

definition id_key :: "string \<Rightarrow> idkey" where
  "id_key i = (case atoi_opt i of Some n \<Rightarrow> NumKey n | None \<Rightarrow> StrKey (map of_char i))"

definition pre_ids :: "string \<Rightarrow> string list" where
  "pre_ids pre = splitC (CHR ''.'') pre"

text \<open>
  Pre-release strings whose numeric identifiers are not negative: those where no identifier
  is a hyphen followed by digits only.
\<close>

definition plain_pre :: "string \<Rightarrow> bool" where
  "plain_pre pre = list_all (\<lambda>i. case atoi_opt i of Some n \<Rightarrow> 0 \<le> n | None \<Rightarrow> True) (pre_ids pre)"

definition pre_key :: "string \<Rightarrow> bool \<times> idkey list" where
  "pre_key pre = (if pre = [] then (True, []) else (False, map id_key (pre_ids pre)))"

definition semver_key :: "SemVer \<Rightarrow> int \<times> int \<times> int \<times> bool \<times> idkey list" where
  "semver_key v = (sv_Major v, sv_Minor v, sv_Patch v, pre_key (sv_PreRelease v))"

definition nat64 :: "int \<Rightarrow> bool" where "nat64 n = (0 \<le> n \<and> n \<le> max_int64)"

definition semver_ok :: "SemVer \<Rightarrow> bool" where
  "semver_ok v = (nat64 (sv_Major v) \<and> nat64 (sv_Minor v) \<and> nat64 (sv_Patch v) \<and> plain_pre (sv_PreRelease v))"

definition calver_key :: "CalVer \<Rightarrow> int list \<times> bool \<times> idkey list" where
  "calver_key v = (cv_Segments v, pre_key (cv_PreRelease v))"

definition calver_ok :: "nat \<Rightarrow> CalVer \<Rightarrow> bool" where
  "calver_ok n v = (length (cv_Segments v) = n \<and> list_all nat64 (cv_Segments v) \<and> plain_pre (cv_PreRelease v))"

section \<open>The comparison functions realise the key order\<close>

text \<open>
  The contract of a version type towards the search for the latest version: on admissible
  versions the sign of the comparison is the order of the keys.
\<close>

locale version_order =
  fixes ok :: "'v \<Rightarrow> bool"
    and cmp :: "'v \<Rightarrow> 'v \<Rightarrow> int"
    and key :: "'v \<Rightarrow> 'k::linorder"
  assumes cmp_neg: "ok x \<Longrightarrow> ok y \<Longrightarrow> cmp x y < 0 \<longleftrightarrow> key x < key y"
    and cmp_zero: "ok x \<Longrightarrow> ok y \<Longrightarrow> cmp x y = 0 \<longleftrightarrow> key x = key y"
begin

lemma cmp_pos: "ok x \<Longrightarrow> ok y \<Longrightarrow> 0 < cmp x y \<longleftrightarrow> key y < key x"
  using cmp_neg [of x y] cmp_zero [of x y] by (metis linorder_less_linear not_less_iff_gr_or_eq)

lemma cmp_swap: "ok x \<Longrightarrow> ok y \<Longrightarrow> 0 < cmp y x \<longleftrightarrow> cmp x y < 0"
  by (simp add: cmp_pos cmp_neg)

lemma cmp_trans: "ok x \<Longrightarrow> ok y \<Longrightarrow> ok z \<Longrightarrow> cmp x y \<le> 0 \<Longrightarrow> cmp y z \<le> 0 \<Longrightarrow> cmp x z \<le> 0"
  by (metis cmp_pos order.trans not_le)

lemma latest_of_acc:
  assumes "\<forall>n\<in>set names. \<forall>w. cand n = Some w \<longrightarrow> ok w" and "ok v0"
  shows "\<exists>v n. latest_of cand cmp names (Some (v0, n0)) = Some (v, n) \<and> ok v \<and> key v0 \<le> key v \<and>
    (\<forall>m\<in>set names. \<forall>w. cand m = Some w \<longrightarrow> key w \<le> key v) \<and>
    (v = v0 \<and> n = n0 \<or> n \<in> set names \<and> cand n = Some v \<and> key v0 < key v)"
  using assms
proof (induction names arbitrary: v0 n0)
  case (Cons m names)
  show ?case
  proof (cases "cand m")
    case None
    with Cons.prems Cons.IH [of v0 n0] show ?thesis by auto
  next
    case (Some w)
    with Cons.prems have okw: "ok w" by auto
    show ?thesis
    proof (cases "0 < cmp w v0")
      case True
      with okw Cons.prems have less: "key v0 < key w" by (simp add: cmp_pos)
      obtain v n where "latest_of cand cmp names (Some (w, m)) = Some (v, n)" "ok v" "key w \<le> key v"
          "\<forall>m\<in>set names. \<forall>w. cand m = Some w \<longrightarrow> key w \<le> key v"
          "v = w \<and> n = m \<or> n \<in> set names \<and> cand n = Some v \<and> key w < key v"
        using Cons.IH [of w m] Cons.prems(1) okw by auto
      with Some True less show ?thesis by (auto simp: order.strict_trans2 less_imp_le)
    next
      case False
      with okw Cons.prems have le: "key w \<le> key v0" by (simp add: cmp_pos)
      obtain v n where "latest_of cand cmp names (Some (v0, n0)) = Some (v, n)" "ok v" "key v0 \<le> key v"
          "\<forall>m\<in>set names. \<forall>w. cand m = Some w \<longrightarrow> key w \<le> key v"
          "v = v0 \<and> n = n0 \<or> n \<in> set names \<and> cand n = Some v \<and> key v0 < key v"
        using Cons.IH [of v0 n0] Cons.prems by auto
      with Some False le show ?thesis by (auto intro: order.trans)
    qed
  qed
qed auto

lemma latest_of_max:
  assumes "\<forall>n\<in>set names. \<forall>w. cand n = Some w \<longrightarrow> ok w"
    and "latest_of cand cmp names None = Some (v, n)"
  shows "n \<in> set names \<and> cand n = Some v \<and> (\<forall>m\<in>set names. \<forall>w. cand m = Some w \<longrightarrow> cmp w v \<le> 0)"
  using assms
proof (induction names)
  case (Cons m names)
  show ?case
  proof (cases "cand m")
    case None
    with Cons.prems Cons.IH show ?thesis by auto
  next
    case (Some w)
    with Cons.prems have okw: "ok w" by auto
    from latest_of_acc [of names cand w m] Cons.prems okw Some
    have v: "ok v" "key w \<le> key v" "\<forall>m\<in>set names. \<forall>w. cand m = Some w \<longrightarrow> key w \<le> key v"
        "v = w \<and> n = m \<or> n \<in> set names \<and> cand n = Some v"
      by auto
    have "cmp u v \<le> 0" if "k \<in> set (m # names)" "cand k = Some u" for k u
      using that v Some Cons.prems(1) okw by (auto simp: cmp_pos not_less [symmetric])
    with v Some show ?thesis by auto
  qed
qed simp

end

lemma latest_of_Some_acc: "latest_of cand cmp names (Some a) \<noteq> None"
  by (induction names arbitrary: a) (auto split: option.splits prod.splits)

lemma latest_of_None: "latest_of cand cmp names None = None \<longleftrightarrow> (\<forall>n\<in>set names. cand n = None)"
proof (induction names)
  case (Cons a names)
  then show ?case by (cases "cand a") (auto simp: latest_of_Some_acc)
qed simp

lemma wrap64_diff [simp]: "nat64 a \<Longrightarrow> nat64 b \<Longrightarrow> wrap64 (a - b) = a - b"
  by (simp add: nat64_def int64_defs)

lemma strCompare_key: "strCompare a b < 0 \<longleftrightarrow> map (of_char :: char \<Rightarrow> nat) a < map of_char b"
proof (induction a b rule: strCompare.induct)
  case (4 x xs y ys)
  then show ?case by (simp add: strCompare_Cons_less del: strCompare.simps) auto
qed auto

lemma map_of_char_eq: "map (of_char :: char \<Rightarrow> nat) a = map of_char b \<longleftrightarrow> a = b"
  by (rule inj_map_eq_map) (auto intro: injI)

lemma cmpParts_key:
  assumes "list_all (\<lambda>i. case atoi_opt i of Some n \<Rightarrow> 0 \<le> n | None \<Rightarrow> True) as"
    and "list_all (\<lambda>i. case atoi_opt i of Some n \<Rightarrow> 0 \<le> n | None \<Rightarrow> True) bs"
  shows "(cmpParts as bs < 0 \<longleftrightarrow> map id_key as < map id_key bs) \<and>
         (cmpParts as bs = 0 \<longleftrightarrow> map id_key as = map id_key bs)"
  using assms
proof (induction as bs rule: cmpParts.induct)
  case (4 a as b bs)
  have n: "nat64 n" if "atoi_opt i = Some n" "0 \<le> n" for i n
    using atoi_opt_range [OF that(1)] that(2) by (simp add: nat64_def in_int64_def)
  show ?case
    using 4 n [of a] n [of b]
    by (auto simp: id_key_def Let_def strCompare_key map_of_char_eq split: option.splits)
qed auto

lemma comparePreRelease_key:
  assumes "plain_pre a" and "plain_pre b" and "a \<noteq> []" and "b \<noteq> []"
  shows "comparePreRelease a b < 0 \<longleftrightarrow> pre_key a < pre_key b"
    and "comparePreRelease a b = 0 \<longleftrightarrow> pre_key a = pre_key b"
  using cmpParts_key [of "pre_ids a" "pre_ids b"] assms
  by (auto simp: comparePreRelease_def plain_pre_def pre_key_def pre_ids_def)

lemma pre_key_Nil: "b \<noteq> [] \<Longrightarrow> pre_key b < pre_key []"
  by (simp add: pre_key_def)

lemma SemVer_Compare_key:
  assumes "semver_ok v" and "semver_ok w"
  shows "SemVer_Compare v w < 0 \<longleftrightarrow> semver_key v < semver_key w"
    and "SemVer_Compare v w = 0 \<longleftrightarrow> semver_key v = semver_key w"
  using assms comparePreRelease_key [of "sv_PreRelease v" "sv_PreRelease w"]
  by (auto simp: SemVer_Compare_def semver_key_def semver_ok_def pre_key_Nil less_prod_simp
      comparePreRelease_def pre_key_def split: if_splits)

interpretation semver: version_order semver_ok SemVer_Compare semver_key
  by unfold_locales (simp_all add: SemVer_Compare_key)

lemma cmpSegments_key:
  assumes "length as = length bs" and "list_all nat64 as" and "list_all nat64 bs"
  shows "(cmpSegments as bs < 0 \<longleftrightarrow> as < bs) \<and> (cmpSegments as bs = 0 \<longleftrightarrow> as = bs)"
  using assms by (induction as bs rule: list_induct2) auto

lemma CalVer_Compare_key:
  assumes "calver_ok n v" and "calver_ok n w"
  shows "CalVer_Compare v w < 0 \<longleftrightarrow> calver_key v < calver_key w"
    and "CalVer_Compare v w = 0 \<longleftrightarrow> calver_key v = calver_key w"
  using assms comparePreRelease_key [of "cv_PreRelease v" "cv_PreRelease w"]
    cmpSegments_key [of "cv_Segments v" "cv_Segments w"]
  by (auto simp: CalVer_Compare_def calver_key_def calver_ok_def pre_key_Nil less_prod_simp
      comparePreRelease_def pre_key_def Let_def split: if_splits)

interpretation calver: version_order "calver_ok n" CalVer_Compare calver_key for n
  by unfold_locales (simp_all add: CalVer_Compare_key)

section \<open>Parsing and printing semantic versions\<close>

text \<open>The strings a field of a parsed semantic version can hold.\<close>

definition ident :: "string \<Rightarrow> bool" where "ident s = list_all isIdentC s"

definition semver_wf :: "SemVer \<Rightarrow> bool" where
  "semver_wf v = ((sv_V v = [] \<or> sv_V v = ''v'') \<and> nat64 (sv_Major v) \<and> nat64 (sv_Minor v) \<and>
     nat64 (sv_Patch v) \<and> ident (sv_PreRelease v) \<and> ident (sv_BuildMetadata v))"

definition num_text :: "string \<Rightarrow> bool" where "num_text d = (d \<noteq> [] \<and> list_all is_digit d)"

text \<open>The shape of a string that parses, given its six capture groups.\<close>

definition semver_text :: "string \<Rightarrow> string \<Rightarrow> string \<Rightarrow> string \<Rightarrow> string \<Rightarrow> string \<Rightarrow> string" where
  "semver_text v ma mi pa pre build = v @ ma @ ''.'' @ mi @ ''.'' @ pa @
     (if pre = [] then [] else CHR ''-'' # pre) @ (if build = [] then [] else CHR ''+'' # build)"

lemma nat64_atoi_digits: "num_text d \<Longrightarrow> nat64 (fst (atoi d))"
  using digits_val_nonneg [of d 0] by (auto simp: num_text_def atoi_digits nat64_def max_int64_def)

lemma num_re_match [rx]: "(g, t) \<in> set (rmatch num_re s) \<longleftrightarrow> (\<exists>d. g = [d] \<and> s = d @ t \<and> num_text d)"
  unfolding num_re_def rmatch_RGroup_append rmatch_RRep num_text_def
  by (auto simp: Suc_le_eq)

lemma v_re_match [rx]: "(g, t) \<in> set (rmatch v_re s) \<longleftrightarrow> (\<exists>v. g = [v] \<and> s = v @ t \<and> (v = [] \<or> v = ''v''))"
  unfolding v_re_def rmatch_ROpt rmatch_RGroup_append rmatch_RStr by auto

lemma opt_v_match: "(g, t) \<in> set (rmatch (ROpt (RStr ''v'')) s) \<longleftrightarrow>
    g = [] \<and> (\<exists>v. s = v @ t \<and> (v = [] \<or> v = ''v''))"
  unfolding rmatch_ROpt rmatch_RStr by auto

lemma opt_ident_match:
  "(g, t) \<in> set (rmatch (ROpt (RSeq (RStr [c]) (RGroup (RRep 1 None isIdentC)))) s) \<longleftrightarrow>
    (\<exists>p. g = [p] \<and> ident p \<and> s = (if p = [] then [] else c # p) @ t)"
  unfolding rmatch_ROpt rmatch_RSeq rmatch_RGroup_append rmatch_RRep rmatch_RStr ident_def
  by (auto simp: Suc_le_eq split: if_splits)

lemma pre_re_match [rx]: "(g, t) \<in> set (rmatch pre_re s) \<longleftrightarrow>
    (\<exists>p. g = [p] \<and> ident p \<and> s = (if p = [] then [] else CHR ''-'' # p) @ t)"
  unfolding pre_re_def by (rule opt_ident_match)

lemma build_re_match [rx]: "(g, t) \<in> set (rmatch build_re s) \<longleftrightarrow>
    (\<exists>p. g = [p] \<and> ident p \<and> s = (if p = [] then [] else CHR ''+'' # p) @ t)"
  unfolding build_re_def by (rule opt_ident_match)

lemma SemVerRegex_match:
  assumes "(g, []) \<in> set (rmatch SemVerRegex s)"
  shows "\<exists>v ma mi pa pre build. g = [v, ma, mi, pa, pre, build] \<and> (v = [] \<or> v = ''v'') \<and>
      num_text ma \<and> num_text mi \<and> num_text pa \<and> ident pre \<and> ident build \<and>
      s = semver_text v ma mi pa pre build"
  using assms
  unfolding SemVerRegex_def rmatch_RSeq rmatch_RStr num_re_match v_re_match pre_re_match build_re_match
  by (elim exE conjE) (simp add: semver_text_def)

lemma not_ident_chars: "\<not> isIdentC (CHR ''+'')" "\<not> is_digit (CHR ''.'')" "\<not> is_digit (CHR ''-'')" "\<not> is_digit (CHR ''+'')"
  by (simp_all add: isIdentC_def is_digit_def)

lemma num_re_greedy:
  assumes "num_text d" and "t = [] \<or> \<not> is_digit (hd t)"
  shows "\<exists>rs. rmatch num_re (d @ t) = ([d], t) # rs"
proof -
  obtain rs where "rmatch (RRep 1 None is_digit) (d @ t) = ([], t) # rs"
    using rmatch_RRep_greedy [of is_digit d 1 t] assms by (auto simp: num_text_def Suc_le_eq)
  then show ?thesis unfolding num_re_def by (rule rmatch_RGroup_Cons)
qed

lemma opt_ident_greedy:
  assumes "ident p" and "t = [] \<or> \<not> isIdentC (hd t)" and "p = [] \<Longrightarrow> t = [] \<or> hd t \<noteq> c"
  shows "\<exists>rs. rmatch (ROpt (RSeq (RStr [c]) (RGroup (RRep 1 None isIdentC)))) ((if p = [] then [] else c # p) @ t) = ([p], t) # rs"
proof (cases "p = []")
  case True
  then have "rmatch (RSeq (RStr [c]) (RGroup (RRep 1 None isIdentC))) t = []"
    using assms(3) by (cases t) auto
  with True show ?thesis by simp
next
  case False
  obtain rs where "rmatch (RRep 1 None isIdentC) (p @ t) = ([], t) # rs"
    using rmatch_RRep_greedy [of isIdentC p 1 t] assms False by (auto simp: ident_def Suc_le_eq)
  then obtain rs' where "rmatch (RGroup (RRep 1 None isIdentC)) (p @ t) = ([p], t) # rs'"
    using rmatch_RGroup_Cons by blast
  moreover have "rmatch (RStr [c]) (c # p @ t) = ([], p @ t) # []" by simp
  ultimately have "\<exists>rs. rmatch (RSeq (RStr [c]) (RGroup (RRep 1 None isIdentC))) (c # p @ t) = ([] @ [p], t) # rs"
    by (intro rmatch_RSeq_Cons)
  then obtain rs'' where "rmatch (RSeq (RStr [c]) (RGroup (RRep 1 None isIdentC))) (c # p @ t) = ([p], t) # rs''"
    by (simp only: append_Nil) blast
  from rmatch_ROpt_Cons [OF this] False show ?thesis by (simp only: if_False append_Cons)
qed

lemma findSubmatch_RStr_dot: "findSubmatch r s = Some g \<Longrightarrow> findSubmatch (RSeq (RStr ''.'') r) (''.'' @ s) = Some g"
  using findSubmatch_RSeq [of "RStr ''.''" "''.'' @ s" "[]" s "[]" r g] by simp

lemma findSubmatch_num:
  assumes "num_text d" and "t = [] \<or> \<not> is_digit (hd t)" and "findSubmatch r t = Some g"
  shows "findSubmatch (RSeq num_re r) (d @ t) = Some (d # g)"
  using num_re_greedy [OF assms(1,2)] findSubmatch_RSeq [of num_re "d @ t" "[d]" t _ r g] assms(3) by auto

lemma findSubmatch_build:
  "ident build \<Longrightarrow> findSubmatch build_re (if build = [] then [] else CHR ''+'' # build) = Some [build]"
  using opt_ident_greedy [of build "[]" "CHR ''+''"]
  by (auto simp only: build_re_def append_Nil2 intro: findSubmatch_last)

lemma num_text_not_v: "num_text d \<Longrightarrow> \<not> hasPrefix (d @ t) ''v''"
  by (cases d) (auto simp: num_text_def is_digit_def)

lemma SemVerRegexWithoutPreRelease_match:
  "matchString SemVerRegexWithoutPreRelease s \<longleftrightarrow>
    (\<exists>v ma mi pa build. (v = [] \<or> v = ''v'') \<and>
      num_text ma \<and> num_text mi \<and> num_text pa \<and> ident build \<and> s = semver_text v ma mi pa [] build)"
proof
  assume "matchString SemVerRegexWithoutPreRelease s"
  then obtain g where "(g, []) \<in> set (rmatch SemVerRegexWithoutPreRelease s)"
    unfolding matchString_iff by blast
  then obtain v ma mi pa build s1 s2 s3 s4 s5 s6 where
      h: "v = [] \<or> v = ''v''" "num_text ma" "num_text mi" "num_text pa" "ident build"
      and eqs: "s = v @ s1" "s1 = ma @ s2" "s2 = ''.'' @ s3" "s3 = mi @ s4" "s4 = ''.'' @ s5" "s5 = pa @ s6"
        "s6 = (if build = [] then [] else CHR ''+'' # build) @ []"
    unfolding SemVerRegexWithoutPreRelease_def rmatch_RSeq rmatch_RStr opt_v_match num_re_match build_re_match
    by blast
  from eqs have "s = semver_text v ma mi pa [] build" by (simp add: semver_text_def)
  with h show "\<exists>v ma mi pa build. (v = [] \<or> v = ''v'') \<and>
      num_text ma \<and> num_text mi \<and> num_text pa \<and> ident build \<and> s = semver_text v ma mi pa [] build"
    by blast
next
  assume "\<exists>v ma mi pa build. (v = [] \<or> v = ''v'') \<and>
      num_text ma \<and> num_text mi \<and> num_text pa \<and> ident build \<and> s = semver_text v ma mi pa [] build"
  then obtain v ma mi pa build where h: "v = [] \<or> v = ''v''" "num_text ma" "num_text mi" "num_text pa"
      "ident build" "s = semver_text v ma mi pa [] build" by blast
  let ?b = "if build = [] then [] else CHR ''+'' # build"
  let ?r = "ma @ ''.'' @ mi @ ''.'' @ pa @ ?b"
  have b: "findSubmatch build_re ?b = Some [build]" using h(5) by (rule findSubmatch_build)
  have b_hd: "?b = [] \<or> \<not> is_digit (hd ?b)" by (simp add: not_ident_chars)
  have dot_hd: "''.'' @ s = [] \<or> \<not> is_digit (hd (''.'' @ s))" for s by (simp add: not_ident_chars)
  have rest: "findSubmatch (RSeq num_re (RSeq (RStr ''.'') (RSeq num_re (RSeq (RStr ''.'')
       (RSeq num_re build_re))))) ?r = Some [ma, mi, pa, build]"
    by (intro findSubmatch_num findSubmatch_RStr_dot h b b_hd dot_hd)
  have "\<exists>rs. rmatch (ROpt (RStr ''v'')) (v @ ?r) = ([], ?r) # rs"
    using h(1) num_text_not_v [OF h(2)] by (auto split: if_splits)
  then obtain rs where "rmatch (ROpt (RStr ''v'')) (v @ ?r) = ([], ?r) # rs" by blast
  from findSubmatch_RSeq [OF this rest]
  have "findSubmatch SemVerRegexWithoutPreRelease s = Some [ma, mi, pa, build]"
    unfolding SemVerRegexWithoutPreRelease_def h(6) semver_text_def by simp
  then show "matchString SemVerRegexWithoutPreRelease s" by (simp add: matchString_def)
qed

text \<open>What the matcher captures from such a string is its parts.\<close>

lemma findSubmatch_semver_text:
  assumes "v = [] \<or> v = ''v''" and "num_text ma" "num_text mi" "num_text pa" "ident pre" "ident build"
  shows "findSubmatch SemVerRegex (semver_text v ma mi pa pre build) = Some [v, ma, mi, pa, pre, build]"
proof -
  let ?b = "if build = [] then [] else CHR ''+'' # build"
  let ?p = "(if pre = [] then [] else CHR ''-'' # pre) @ ?b"
  let ?r = "ma @ ''.'' @ mi @ ''.'' @ pa @ ?p"
  have b: "findSubmatch build_re ?b = Some [build]"
    using assms(6) by (rule findSubmatch_build)
  have b_hd: "?b = [] \<or> \<not> isIdentC (hd ?b)" "pre = [] \<Longrightarrow> ?b = [] \<or> hd ?b \<noteq> CHR ''-''"
    by (simp_all add: not_ident_chars)
  obtain rs where "rmatch pre_re ?p = ([pre], ?b) # rs"
    unfolding pre_re_def using opt_ident_greedy [OF assms(5) b_hd] by blast
  from findSubmatch_RSeq [OF this b]
  have p: "findSubmatch (RSeq pre_re build_re) ?p = Some [pre, build]" by simp
  have p_hd: "?p = [] \<or> \<not> is_digit (hd ?p)" by (simp add: not_ident_chars)
  have dot_hd: "''.'' @ s = [] \<or> \<not> is_digit (hd (''.'' @ s))" for s by (simp add: not_ident_chars)
  have rest: "findSubmatch (RSeq num_re (RSeq (RStr ''.'') (RSeq num_re (RSeq (RStr ''.'')
       (RSeq num_re (RSeq pre_re build_re)))))) ?r = Some [ma, mi, pa, pre, build]"
    by (intro findSubmatch_num findSubmatch_RStr_dot assms p p_hd dot_hd)
  have "\<exists>rs. rmatch v_re (v @ ?r) = ([v], ?r) # rs"
    using assms(1) num_text_not_v [OF assms(2)] by (auto simp: v_re_def split: if_splits)
  then obtain rs where "rmatch v_re (v @ ?r) = ([v], ?r) # rs" by blast
  from findSubmatch_RSeq [OF this rest] show ?thesis
    unfolding SemVerRegex_def semver_text_def by simp
qed

lemma ParseSemVer_text:
  assumes "v = [] \<or> v = ''v''" and "num_text ma" "num_text mi" "num_text pa" "ident pre" "ident build"
  shows "ParseSemVer (semver_text v ma mi pa pre build) =
    Some \<lparr>sv_V = v, sv_Major = fst (atoi ma), sv_Minor = fst (atoi mi), sv_Patch = fst (atoi pa),
          sv_PreRelease = pre, sv_BuildMetadata = build\<rparr>"
  by (simp add: ParseSemVer_def findSubmatch_semver_text [OF assms])

lemma ParseSemVer_Some:
  assumes "ParseSemVer s = Some sv"
  obtains ma mi pa where "s = semver_text (sv_V sv) ma mi pa (sv_PreRelease sv) (sv_BuildMetadata sv)"
    "num_text ma" "num_text mi" "num_text pa" "sv_V sv = [] \<or> sv_V sv = ''v''"
    "ident (sv_PreRelease sv)" "ident (sv_BuildMetadata sv)"
    "sv_Major sv = fst (atoi ma)" "sv_Minor sv = fst (atoi mi)" "sv_Patch sv = fst (atoi pa)"
proof -
  obtain g where "findSubmatch SemVerRegex s = Some g"
    using assms by (auto simp: ParseSemVer_def split: option.splits)
  then have "(g, []) \<in> set (rmatch SemVerRegex s)" by (rule findSubmatch_Some)
  from SemVerRegex_match [OF this]
  obtain v ma mi pa pre build where "g = [v, ma, mi, pa, pre, build]" and
      *: "v = [] \<or> v = ''v''" "num_text ma" "num_text mi" "num_text pa"
      "ident pre" "ident build" "s = semver_text v ma mi pa pre build"
    by (elim exE conjE) (rule that)
  then have "sv = \<lparr>sv_V = v, sv_Major = fst (atoi ma), sv_Minor = fst (atoi mi), sv_Patch = fst (atoi pa),
          sv_PreRelease = pre, sv_BuildMetadata = build\<rparr>"
    using ParseSemVer_text assms by simp
  with * show thesis by (intro that [of ma mi pa]) simp_all
qed

lemma ParseSemVer_wf: "ParseSemVer s = Some sv \<Longrightarrow> semver_wf sv"
  by (erule ParseSemVer_Some) (auto simp: semver_wf_def nat64_atoi_digits)

lemma ParseSemVer_matches: "matchString SemVerRegex s \<longleftrightarrow> ParseSemVer s \<noteq> None"
proof
  assume "matchString SemVerRegex s"
  then show "ParseSemVer s \<noteq> None"
    unfolding matchString_iff using SemVerRegex_match ParseSemVer_text by (metis option.distinct(1))
next
  assume "ParseSemVer s \<noteq> None"
  then show "matchString SemVerRegex s"
    by (auto simp: matchString_def ParseSemVer_def split: option.splits)
qed

lemma itoa_num_text: "nat64 n \<Longrightarrow> num_text (itoa n)"
  by (simp add: num_text_def itoa_def nat64_def show_nat_digits)

lemma atoi_itoa_nat64: "nat64 n \<Longrightarrow> fst (atoi (itoa n)) = n"
  by (simp add: atoi_itoa nat64_def in_int64_def min_int64_def)

lemma SemVer_String_text: "SemVer_String v = semver_text (sv_V v) (itoa (sv_Major v)) (itoa (sv_Minor v))
    (itoa (sv_Patch v)) (sv_PreRelease v) (sv_BuildMetadata v)"
  by (simp add: SemVer_String_def semver_text_def Let_def)

lemma ParseSemVer_String: "semver_wf v \<Longrightarrow> ParseSemVer (SemVer_String v) = Some v"
  unfolding SemVer_String_text semver_wf_def by (subst ParseSemVer_text) (auto simp: itoa_num_text atoi_itoa_nat64)

lemma matchSemVerPattern_iff:
  "matchSemVerPattern s pre \<longleftrightarrow> (\<exists>v. ParseSemVer s = Some v \<and> (pre \<or> sv_PreRelease v = []))"
proof (cases pre)
  case True
  then show ?thesis by (auto simp: matchSemVerPattern_def ParseSemVer_matches)
next
  case False
  have "matchString SemVerRegexWithoutPreRelease s \<longleftrightarrow> (\<exists>v. ParseSemVer s = Some v \<and> sv_PreRelease v = [])"
  proof
    assume "matchString SemVerRegexWithoutPreRelease s"
    then obtain v ma mi pa build where "v = [] \<or> v = ''v''" "num_text ma" "num_text mi" "num_text pa"
        "ident build" "s = semver_text v ma mi pa [] build"
      unfolding SemVerRegexWithoutPreRelease_match by blast
    then show "\<exists>v. ParseSemVer s = Some v \<and> sv_PreRelease v = []"
      using ParseSemVer_text [of v ma mi pa "[]" build] by (simp add: ident_def)
  next
    assume "\<exists>v. ParseSemVer s = Some v \<and> sv_PreRelease v = []"
    then obtain v where v: "ParseSemVer s = Some v" "sv_PreRelease v = []" by blast
    from v(1) show "matchString SemVerRegexWithoutPreRelease s"
      unfolding SemVerRegexWithoutPreRelease_match by (rule ParseSemVer_Some) (metis v(2))
  qed
  with False show ?thesis by (simp add: matchSemVerPattern_def)
qed

lemma semver_candidate_Some: "semver_candidate slot pre n = Some v \<longleftrightarrow>
    ParseSemVer n = Some v \<and> (pre \<or> sv_PreRelease v = []) \<and> (slot = [] \<or> sv_BuildMetadata v = slot)"
  by (auto simp: semver_candidate_def matchSemVerPattern_iff split: option.splits if_splits)

lemma semver_candidate_ok:
  "semver_candidate slot pre n = Some v \<Longrightarrow> plain_pre (sv_PreRelease v) \<Longrightarrow> semver_ok v"
  using ParseSemVer_wf [of n v] by (auto simp: semver_candidate_Some semver_ok_def semver_wf_def)

section \<open>Parsing calendar versions\<close>

text \<open>The values a segment can take, by its specifier.\<close>

definition seg_range :: "string \<Rightarrow> int \<Rightarrow> bool" where
  "seg_range spec n =
     (if spec = ''YYYY'' then 0 \<le> n \<and> n \<le> 9999
      else if spec = ''YY'' \<or> spec = ''0Y'' then 0 \<le> n \<and> n \<le> 999
      else if spec = ''MM'' \<or> spec = ''0M'' then 1 \<le> n \<and> n \<le> 12
      else if spec = ''WW'' \<or> spec = ''0W'' then 1 \<le> n \<and> n \<le> 53
      else if spec = ''DD'' \<or> spec = ''0D'' then 1 \<le> n \<and> n \<le> 31
      else nat64 n)"

lemma digit_val_of_char: "digit_val c = int (of_char c) - 48"
  by (simp only: digit_val_def of_nat_of_char)

lemma digits_val_bound: "list_all is_digit ds \<Longrightarrow> digits_val acc ds < (acc + 1) * 10 ^ length ds"
proof (induction ds arbitrary: acc)
  case (Cons c ds)
  then have "digit_val c \<le> 9" by (simp add: digit_val_of_char is_digit_def Let_def)
  then have le: "(10 * acc + digit_val c + 1) * 10 ^ length ds \<le> ((acc + 1) * 10) * 10 ^ length ds"
    by (intro mult_right_mono) auto
  have "digits_val acc (c # ds) < (10 * acc + digit_val c + 1) * 10 ^ length ds"
    using Cons by simp
  also note le
  also have "((acc + 1) * 10) * 10 ^ length ds = (acc + 1) * 10 ^ length (c # ds)" by simp
  finally show ?case .
qed simp

lemma clsRange_match [rx]: "(g, t) \<in> set (rmatch (clsRange lo hi) s) \<longleftrightarrow>
    g = [] \<and> (\<exists>c. s = c # t \<and> lo \<le> (of_char c :: nat) \<and> of_char c \<le> hi)"
  unfolding clsRange_def rmatch_RRep by (auto simp: Let_def le_Suc_eq length_Suc_conv)

lemma atoi_opt_digits: "num_text d \<Longrightarrow> atoi_opt d = Some n \<Longrightarrow> n = digits_val 0 d \<and> nat64 n"
  using digits_val_nonneg [of d 0]
  by (auto simp: num_text_def atoi_opt_def atoi_digits nat64_def split: if_splits)

lemma RRep_digits_match:
  assumes "(g, t) \<in> set (rmatch (RGroup (RRep lo hi is_digit)) s)" and "0 < lo"
  shows "\<exists>d. g = [d] \<and> s = d @ t \<and> num_text d \<and> lo \<le> length d \<and> (\<forall>h. hi = Some h \<longrightarrow> length d \<le> h)"
  using assms unfolding rmatch_RGroup_append rmatch_RRep num_text_def by auto

lemma RRep_digits_range:
  assumes "(g, t) \<in> set (rmatch (RGroup (RRep lo (Some h) is_digit)) s)" and "0 < lo"
  shows "\<exists>d. g = [d] \<and> s = d @ t \<and> num_text d \<and> (\<forall>n. atoi_opt d = Some n \<longrightarrow> 0 \<le> n \<and> n < 10 ^ h)"
proof -
  obtain d where d: "g = [d]" "s = d @ t" "num_text d" "length d \<le> h"
    using RRep_digits_match [OF assms] by blast
  then have "digits_val 0 d < 10 ^ length d" "0 \<le> digits_val 0 d"
    using digits_val_bound [of d 0] digits_val_nonneg [of d 0] by (auto simp: num_text_def)
  moreover have "(10::int) ^ length d \<le> 10 ^ h" using d(4) by (intro power_increasing) auto
  ultimately have "atoi_opt d = Some n \<Longrightarrow> 0 \<le> n \<and> n < 10 ^ h" for n
    using atoi_opt_digits [OF d(3), of n] by linarith
  with d show ?thesis by blast
qed

text \<open>One and two digit alternatives of the month, week and day patterns.\<close>

definition two_digits :: "string \<Rightarrow> int \<Rightarrow> int \<Rightarrow> bool" where
  "two_digits d lo hi = (num_text d \<and> lo \<le> digits_val 0 d \<and> digits_val 0 d \<le> hi)"

lemma two_digits_one: "49 \<le> (of_char c :: nat) \<Longrightarrow> of_char c \<le> (57 :: nat) \<Longrightarrow> 9 \<le> hi \<Longrightarrow> two_digits [c] 1 hi"
  by (simp add: two_digits_def num_text_def is_digit_def digit_val_of_char Let_def)

lemma two_digits_two:
  assumes "of_char a = (i :: nat)" and "of_char b = (j :: nat)" and "48 \<le> i" and "i \<le> 57" and "48 \<le> j" and "j \<le> 57"
    and "lo \<le> 10 * (int i - 48) + (int j - 48)" and "10 * (int i - 48) + (int j - 48) \<le> hi"
  shows "two_digits [a, b] lo hi"
proof -
  have "digits_val 0 [a, b] = 10 * (int i - 48) + (int j - 48)"
    using assms(1,2) by (simp only: digits_val.simps digit_val_of_char) simp
  with assms show ?thesis by (simp add: two_digits_def num_text_def is_digit_def Let_def)
qed

text \<open>A pattern without groups that matches exactly such numbers.\<close>

definition yields :: "re \<Rightarrow> int \<Rightarrow> int \<Rightarrow> bool" where
  "yields r lo hi = (ngroups r = 0 \<and>
     (\<forall>g t s. (g, t) \<in> set (rmatch r s) \<longrightarrow> (\<exists>d. g = [] \<and> s = d @ t \<and> two_digits d lo hi)))"

lemma yieldsI:
  "ngroups r = 0 \<Longrightarrow> (\<And>g t s. (g, t) \<in> set (rmatch r s) \<Longrightarrow> \<exists>d. g = [] \<and> s = d @ t \<and> two_digits d lo hi) \<Longrightarrow>
   yields r lo hi"
  by (auto simp: yields_def)

lemma yields_alt: "yields a lo hi \<Longrightarrow> yields b lo hi \<Longrightarrow> yields (RAlt a b) lo hi"
  unfolding yields_def rmatch_RAlt by auto

lemma ngroups_clsRange [simp]: "ngroups (clsRange a b) = 0"
  by (simp add: clsRange_def)

lemma yields_cls:
  assumes "48 \<le> a" and "b \<le> 57" and "48 \<le> c" and "d \<le> 57"
    and "lo \<le> 10 * (int a - 48) + (int c - 48)" and "10 * (int b - 48) + (int d - 48) \<le> hi"
  shows "yields (RSeq (clsRange a b) (clsRange c d)) lo hi"
proof (rule yieldsI)
  fix g t s
  assume "(g, t) \<in> set (rmatch (RSeq (clsRange a b) (clsRange c d)) s)"
  then obtain x y where xy: "g = []" "s = x # y # t" "a \<le> of_char x" "of_char x \<le> b" "c \<le> of_char y" "of_char y \<le> d"
    unfolding rmatch_RSeq clsRange_match by auto
  obtain i j where ij: "of_char x = (i :: nat)" "of_char y = (j :: nat)" by blast
  have "two_digits [x, y] lo hi"
    using assms xy(3-) unfolding ij by (intro two_digits_two [OF ij]) presburger+
  with xy show "\<exists>d. g = [] \<and> s = d @ t \<and> two_digits d lo hi" by (intro exI [of _ "[x, y]"]) simp
qed simp

lemma yields_str:
  assumes "of_char x = (i :: nat)" and "48 \<le> i" and "i \<le> 57"
    and "48 \<le> c" and "d \<le> 57" and "lo \<le> 10 * (int i - 48) + (int c - 48)"
    and "10 * (int i - 48) + (int d - 48) \<le> hi"
  shows "yields (RSeq (RStr [x]) (clsRange c d)) lo hi"
proof (rule yieldsI)
  fix g t s
  assume "(g, t) \<in> set (rmatch (RSeq (RStr [x]) (clsRange c d)) s)"
  then obtain y where xy: "g = []" "s = x # y # t" "c \<le> of_char y" "of_char y \<le> d"
    unfolding rmatch_RSeq clsRange_match rmatch_RStr by auto
  obtain j where j: "of_char y = (j :: nat)" by blast
  have "two_digits [x, y] lo hi"
    using assms xy(3-) unfolding j by (intro two_digits_two [OF assms(1) j]) linarith+
  with xy show "\<exists>d. g = [] \<and> s = d @ t \<and> two_digits d lo hi" by (intro exI [of _ "[x, y]"]) simp
qed simp

lemma yields_one: "9 \<le> hi \<Longrightarrow> yields (clsRange 49 57) 1 hi"
proof (rule yieldsI)
  fix g t s
  assume hi: "9 \<le> hi" and "(g, t) \<in> set (rmatch (clsRange 49 57) s)"
  then obtain x where x: "g = []" "s = x # t" "49 \<le> (of_char x :: nat)" "of_char x \<le> (57 :: nat)"
    unfolding clsRange_match by auto
  with two_digits_one [OF x(3,4) hi] show "\<exists>d. g = [] \<and> s = d @ t \<and> two_digits d 1 hi"
    by (intro exI [of _ "[x]"]) simp
qed simp

lemma yields_group:
  assumes "(g, t) \<in> set (rmatch (RGroup r) s)" and "yields r lo hi"
  shows "\<exists>d. g = [d] \<and> s = d @ t \<and> num_text d \<and> (\<forall>n. atoi_opt d = Some n \<longrightarrow> lo \<le> n \<and> n \<le> hi)"
proof -
  obtain u h where u: "s = u @ t" "g = u # h" "(h, t) \<in> set (rmatch r s)"
    using assms(1) unfolding rmatch_RGroup_append by blast
  then obtain d where "h = []" "s = d @ t" "two_digits d lo hi"
    using assms(2) unfolding yields_def by blast
  with u atoi_opt_digits show ?thesis by (auto simp: two_digits_def)
qed

text \<open>What each specifier matches: one group of digits whose value is in its range.\<close>

lemma spec_match:
  assumes "calverSpecifiers spec = Some r" and "(g, t) \<in> set (rmatch r s)"
  shows "\<exists>d. g = [d] \<and> s = d @ t \<and> num_text d \<and> (\<forall>n. atoi_opt d = Some n \<longrightarrow> seg_range spec n)"
proof -
  have lo: "yields (RSeq (RStr ''0'') (clsRange 49 57)) 1 hi" if "9 \<le> hi" for hi
    using that by (intro yields_str [OF refl]) simp_all
  have m: "yields (RSeq (RStr ''1'') (clsRange 48 50)) 1 12" by (intro yields_str [OF refl]) simp_all
  have w: "yields (RAlt (RSeq (clsRange 49 52) (clsRange 48 57)) (RSeq (RStr ''5'') (clsRange 48 51))) 1 53"
    by (intro yields_alt yields_cls yields_str [OF refl]) simp_all
  have d: "yields (RAlt (RSeq (clsRange 49 50) (clsRange 48 57)) (RSeq (RStr ''3'') (clsRange 48 49))) 1 31"
    by (intro yields_alt yields_cls yields_str [OF refl]) simp_all
  have "r = RGroup (RRep 4 (Some 4) is_digit) \<and> spec = ''YYYY'' \<or>
      r = RGroup (RRep 1 (Some 3) is_digit) \<and> spec = ''YY'' \<or> r = RGroup (RRep 2 (Some 3) is_digit) \<and> spec = ''0Y'' \<or>
      r = RGroup (RRep 1 None is_digit) \<and> spec = ''MICRO'' \<or>
      (\<exists>q. r = RGroup q \<and> (yields q 1 12 \<and> (spec = ''MM'' \<or> spec = ''0M'') \<or>
        yields q 1 53 \<and> (spec = ''WW'' \<or> spec = ''0W'') \<or> yields q 1 31 \<and> (spec = ''DD'' \<or> spec = ''0D'')))"
    using assms(1) lo m w d
    by (simp add: calverSpecifiers_def yields_alt yields_one split: if_splits) (auto simp: yields_alt yields_one)
  then consider (yyyy) "r = RGroup (RRep 4 (Some 4) is_digit)" "spec = ''YYYY''"
    | (yy) lo where "r = RGroup (RRep lo (Some 3) is_digit)" "0 < lo" "spec = ''YY'' \<or> spec = ''0Y''"
    | (micro) "r = RGroup (RRep 1 None is_digit)" "spec = ''MICRO''"
    | (two) q lo hi where "r = RGroup q" "yields q lo hi" "\<And>n. lo \<le> n \<Longrightarrow> n \<le> hi \<Longrightarrow> seg_range spec n"
    by (auto simp: seg_range_def)
  then show ?thesis
  proof cases
    case yyyy
    with RRep_digits_range [of g t 4 4 s] assms(2) show ?thesis by (auto simp: seg_range_def)
  next
    case yy
    with RRep_digits_range [of g t lo 3 s] assms(2) show ?thesis by (auto simp: seg_range_def)
  next
    case micro
    with RRep_digits_match [of g t 1 None s] assms(2) atoi_opt_digits show ?thesis by (auto simp: seg_range_def)
  next
    case two
    with yields_group [of g t q s lo hi] assms(2) show ?thesis by blast
  qed
qed

lemma calverSpecifierOrder_known: "find (hasPrefix s) calverSpecifierOrder = Some spec \<Longrightarrow> calverSpecifiers spec \<noteq> None"
  by (auto simp: calverSpecifierOrder_def calverSpecifiers_def split: if_splits)

lemma ngroups_calverSpecifiers: "calverSpecifiers spec = Some r \<Longrightarrow> ngroups r = 1"
  by (auto simp: calverSpecifiers_def split: if_splits)

text \<open>A matched format captures one text per specifier, in range, before the groups of the rest.\<close>

definition seg_text :: "string \<Rightarrow> string \<Rightarrow> bool" where
  "seg_text spec d = (num_text d \<and> (\<forall>n. atoi_opt d = Some n \<longrightarrow> seg_range spec n))"

lemma calver_scan_match:
  "calver_scan format = (parts, segs) \<Longrightarrow> (g, t) \<in> set (rmatch (foldr RSeq parts tail) s) \<Longrightarrow>
   \<exists>gs g' s'. g = gs @ g' \<and> list_all2 seg_text segs gs \<and> (g', t) \<in> set (rmatch tail s')"
proof (induction format arbitrary: parts segs g s rule: calver_scan.induct)
  case 1
  then show ?case by fastforce
next
  case (2 c cs)
  show ?case
  proof (cases "find (hasPrefix (c # cs)) calverSpecifierOrder")
    case None
    with "2.prems"(1) obtain parts' where p: "parts = RStr (rune_bytes c) # parts'" "calver_scan cs = (parts', segs)"
      by (auto split: prod.splits)
    with "2.prems"(2) obtain s1 where "(g, t) \<in> set (rmatch (foldr RSeq parts' tail) s1)"
      unfolding p foldr.simps comp_apply rmatch_RSeq rmatch_RStr by auto
    with "2.IH"(1) [OF None p(2)] show ?thesis by blast
  next
    case (Some spec)
    obtain r where r: "calverSpecifiers spec = Some r" using calverSpecifierOrder_known [OF Some] by auto
    with Some "2.prems"(1) obtain parts' segs' where p: "parts = r # parts'" "segs = spec # segs'"
        "calver_scan (drop (length spec) (c # cs)) = (parts', segs')"
      by (auto split: prod.splits simp del: drop_Cons')
    with "2.prems"(2) obtain g1 g2 s1 where g: "g = g1 @ g2" "(g1, s1) \<in> set (rmatch r s)"
        "(g2, t) \<in> set (rmatch (foldr RSeq parts' tail) s1)"
      unfolding p foldr.simps comp_apply rmatch_RSeq by blast
    from spec_match [OF r g(2)] obtain d where "g1 = [d]" "seg_text spec d" by (auto simp: seg_text_def)
    moreover from "2.IH"(2) [OF Some p(3) g(3)] obtain gs g' s' where
        "g2 = gs @ g'" "list_all2 seg_text segs' gs" "(g', t) \<in> set (rmatch tail s')" by blast
    ultimately show ?thesis
      using g(1) p(2) by (intro exI [of _ "d # gs"] exI [of _ g'] exI [of _ s']) simp
  qed
qed

lemma parse_segments_ok:
  "list_all2 seg_text segs gs \<Longrightarrow> parse_segments gs = Some ns \<Longrightarrow>
   list_all2 seg_range segs ns \<and> list_all nat64 ns"
proof (induction segs gs arbitrary: ns rule: list_all2_induct)
  case (Cons spec segs d gs)
  then obtain n ns' where "atoi_opt d = Some n" "parse_segments gs = Some ns'" "ns = n # ns'"
    by (auto split: option.splits)
  with Cons atoi_opt_digits [of d n] show ?case by (auto simp: seg_text_def)
qed simp

lemma CalVer_Parse_groups:
  assumes "NewCalVerFormat fmt = Inr f" and "findSubmatch (cf_Regex f) s = Some groups"
  shows "\<exists>v gs pre build. groups = v # gs @ [pre, build] \<and> list_all2 seg_text (cf_segments f) gs \<and>
    (v = [] \<or> v = ''v'') \<and> ident pre \<and> ident build"
proof -
  obtain parts where sc: "calver_scan fmt = (parts, cf_segments f)"
      "cf_Regex f = RSeq v_re (foldr RSeq parts (RSeq pre_re build_re))"
    using assms(1) by (auto simp: NewCalVerFormat_def split: if_splits prod.splits)
  from findSubmatch_Some [OF assms(2)] obtain v g2 s1 where g: "groups = [v] @ g2" "v = [] \<or> v = ''v''"
      "(g2, []) \<in> set (rmatch (foldr RSeq parts (RSeq pre_re build_re)) s1)"
    unfolding sc rmatch_RSeq v_re_match by blast
  from calver_scan_match [OF sc(1) g(3)] obtain gs g' s' where
      h: "g2 = gs @ g'" "list_all2 seg_text (cf_segments f) gs" "(g', []) \<in> set (rmatch (RSeq pre_re build_re) s')" by blast
  from h(3) obtain pre build where "g' = [pre] @ [build]" "ident pre" "ident build"
    unfolding rmatch_RSeq pre_re_match build_re_match by blast
  with g h show ?thesis by auto
qed

lemma CalVer_Parse_Some:
  assumes "NewCalVerFormat fmt = Inr f" and "CalVer_Parse f s = Some cv"
  shows "list_all2 seg_range (cf_segments f) (cv_Segments cv)" and "list_all nat64 (cv_Segments cv)"
    and "cv_Original cv = s" and "ident (cv_PreRelease cv)" and "ident (cv_BuildMetadata cv)"
    and "cv_V cv = [] \<or> cv_V cv = ''v''"
proof -
  obtain groups where fs: "findSubmatch (cf_Regex f) s = Some groups"
    using assms(2) by (auto simp: CalVer_Parse_def split: option.splits)
  from CalVer_Parse_groups [OF assms(1) this] obtain v gs pre build where
      g: "groups = v # gs @ [pre, build]" "list_all2 seg_text (cf_segments f) gs" "v = [] \<or> v = ''v''" "ident pre" "ident build"
    by blast
  have len: "length (cf_segments f) = length gs" using g(2) by (rule list_all2_lengthD)
  then have idx: "groups ! (length groups - 2) = pre" "groups ! (length groups - 1) = build"
    unfolding g(1) by (simp_all add: nth_append nth_Cons')
  from assms(2) fs g(1) len idx obtain segs where "parse_segments gs = Some segs" and
      cv: "cv = \<lparr>cv_V = v, cv_Segments = segs, cv_PreRelease = pre, cv_BuildMetadata = build, cv_Original = s\<rparr>"
    by (auto simp: CalVer_Parse_def split: option.splits)
  with parse_segments_ok [OF g(2)] g show "list_all2 seg_range (cf_segments f) (cv_Segments cv)"
      "list_all nat64 (cv_Segments cv)" "cv_Original cv = s" "ident (cv_PreRelease cv)"
      "ident (cv_BuildMetadata cv)" "cv_V cv = [] \<or> cv_V cv = ''v''"
    by simp_all
qed

lemma CalVer_Parse_ok:
  "NewCalVerFormat fmt = Inr f \<Longrightarrow> CalVer_Parse f s = Some cv \<Longrightarrow> plain_pre (cv_PreRelease cv) \<Longrightarrow>
   calver_ok (length (cf_segments f)) cv"
  using CalVer_Parse_Some(1,2) [of fmt f s cv] by (auto simp: calver_ok_def dest: list_all2_lengthD)

lemma calver_candidate_Some: "calver_candidate f slot pre n = Some v \<longleftrightarrow>
    CalVer_Parse f n = Some v \<and> (pre \<or> cv_PreRelease v = []) \<and> (slot = [] \<or> cv_BuildMetadata v = slot)"
  by (auto simp: calver_candidate_def split: option.splits if_splits)

end
