(* ===== verification/Cache_Store.thy ===== *)
theory Cache_Store
  imports Dewy_Prelude "HOL-Library.Sublist"
begin

text \<open>
  The cache package: cache.go, file.go, s3.go, gs.go. Paths are strings; \<open>cleanPath\<close> and
  \<open>joinPath\<close> are filepath.Clean and filepath.Join for Unix. The local file system is an
  explicit store (\<open>fs\<close>): files with their content, directories with their size, and the
  paths on which every operation is refused. The object stores behind the S3 and GCS backends
  are parameters: records of the client calls the code makes, over an opaque state.

  The locale \<open>atomic_cache\<close> is the contract of the interface AtomicCache that the shared
  registry cache relies on; the S3 and GCS backends meet it whenever their service honours its
  documented conditional writes (locales \<open>s3_service\<close> and \<open>gs_service\<close>).
\<close>

section \<open>Package path/filepath\<close>

fun clean_comps :: "bool \<Rightarrow> string list \<Rightarrow> string list \<Rightarrow> string list" where
  "clean_comps rooted st [] = rev st"
| "clean_comps rooted st (c # cs) =
     (if c = [] \<or> c = ''.'' then clean_comps rooted st cs
      else if c = ''..'' then
        (case st of
           [] \<Rightarrow> clean_comps rooted (if rooted then [] else [''..'']) cs
         | d # ds \<Rightarrow> if d = ''..'' then clean_comps rooted (''..'' # st) cs else clean_comps rooted ds cs)
      else clean_comps rooted (c # st) cs)"

definition rootedPath :: "string \<Rightarrow> bool" where "rootedPath p = hasPrefix p ''/''"

definition comps :: "string \<Rightarrow> string list" where
  "comps p = clean_comps (rootedPath p) [] (splitC (CHR ''/'') p)"

definition showPath :: "bool \<Rightarrow> string list \<Rightarrow> string" where
  "showPath rooted cs = (if rooted then ''/'' @ joinS ''/'' cs else if cs = [] then ''.'' else joinS ''/'' cs)"

definition cleanPath :: "string \<Rightarrow> string" where
  "cleanPath p = showPath (rootedPath p) (comps p)"

definition joinPath :: "string \<Rightarrow> string \<Rightarrow> string" where
  "joinPath a b = (if a \<noteq> [] then cleanPath (a @ ''/'' @ b) else if b \<noteq> [] then cleanPath b else [])"

text \<open>filepath.Dir and filepath.Base.\<close>

definition dirPath :: "string \<Rightarrow> string" where
  "dirPath p = (case lastIndexC (CHR ''/'') p of None \<Rightarrow> ''.'' | Some i \<Rightarrow> cleanPath (take (Suc i) p))"

definition basePath :: "string \<Rightarrow> string" where
  "basePath p =
     (if p = [] then ''.''
      else let q = rev (dropWhile (\<lambda>c. c = CHR ''/'') (rev p)) in
        if q = [] then ''/'' else last (splitC (CHR ''/'') q))"

section \<open>The file system\<close>

record fs =
  fs_files :: "(string \<times> string) list"
  fs_dirs :: "(string \<times> goint) list"
  fs_denied :: "string \<Rightarrow> bool"

definition os_exists :: "fs \<Rightarrow> string \<Rightarrow> bool" where
  "os_exists s p = (fs_denied s p \<or> map_of (fs_files s) p \<noteq> None \<or> map_of (fs_dirs s) p \<noteq> None)"

definition os_readFile :: "fs \<Rightarrow> string \<Rightarrow> string + string" where
  "os_readFile s p =
     (if fs_denied s p then Inl ''permission denied''
      else case map_of (fs_files s) p of Some d \<Rightarrow> Inr d
        | None \<Rightarrow> Inl (if map_of (fs_dirs s) p \<noteq> None then ''is a directory'' else ''no such file or directory''))"

definition os_writeFile :: "string \<Rightarrow> string \<Rightarrow> fs \<Rightarrow> fs \<times> string option" where
  "os_writeFile p d s =
     (if fs_denied s p then (s, Some ''permission denied'')
      else if map_of (fs_dirs s) p \<noteq> None then (s, Some ''is a directory'')
      else if map_of (fs_dirs s) (dirPath p) = None then (s, Some ''no such file or directory'')
      else (s\<lparr>fs_files := (p, d) # filter (\<lambda>x. fst x \<noteq> p) (fs_files s)\<rparr>, None))"

definition os_remove :: "string \<Rightarrow> fs \<Rightarrow> fs \<times> string option" where
  "os_remove p s =
     (if fs_denied s p then (s, Some ''permission denied'')
      else if map_of (fs_files s) p = None then (s, Some ''no such file or directory'')
      else (s\<lparr>fs_files := filter (\<lambda>x. fst x \<noteq> p) (fs_files s)\<rparr>, None))"

text \<open>Of a directory only its own existence is tracked, so its ancestors need no entry.\<close>

definition os_mkdirAll :: "string \<Rightarrow> fs \<Rightarrow> fs \<times> string option" where
  "os_mkdirAll p s =
     (if fs_denied s p then (s, Some ''permission denied'')
      else if map_of (fs_files s) p \<noteq> None then (s, Some ''not a directory'')
      else if map_of (fs_dirs s) p \<noteq> None then (s, None)
      else (s\<lparr>fs_dirs := (p, 0) # fs_dirs s\<rparr>, None))"

fun insertName :: "string \<Rightarrow> string list \<Rightarrow> string list" where
  "insertName x [] = [x]"
| "insertName x (y # ys) = (if strCompare x y \<le> 0 then x # y # ys else y # insertName x ys)"

definition os_readDir :: "fs \<Rightarrow> string \<Rightarrow> string + string list" where
  "os_readDir s d =
     (if fs_denied s d then Inl ''permission denied''
      else if map_of (fs_dirs s) d = None then Inl ''no such file or directory''
      else Inr (fold insertName (map basePath (filter (\<lambda>p. dirPath p = cleanPath d \<and> p \<noteq> cleanPath d)
             (map fst (fs_files s) @ map fst (fs_dirs s)))) []))"

section \<open>The file backend (file.go)\<close>

datatype cache_error = NotFound string | Conflict string | CacheError string

definition IsNotFound :: "cache_error \<Rightarrow> bool" where
  "IsNotFound e = (case e of NotFound _ \<Rightarrow> True | _ \<Rightarrow> False)"

definition IsConflict :: "cache_error \<Rightarrow> bool" where
  "IsConflict e = (case e of Conflict _ \<Rightarrow> True | _ \<Rightarrow> False)"

record File =
  fl_dir :: string
  fl_MaxSize :: goint
  fl_registryTTL :: goint

definition validateKeyPath :: "string \<Rightarrow> string \<Rightarrow> string + string" where
  "validateKeyPath base key =
     (let p = joinPath base key; cleanBase = cleanPath base @ ''/'' in
      if \<not> hasPrefix (cleanPath p @ ''/'') cleanBase \<and> cleanPath p \<noteq> cleanPath base
      then Inl (''illegal key (path traversal detected): '' @ key) else Inr p)"

definition IsFileExist :: "fs \<Rightarrow> string \<Rightarrow> bool" where "IsFileExist s p = os_exists s p"

definition File_Read :: "File \<Rightarrow> string \<Rightarrow> fs \<Rightarrow> cache_error + string" where
  "File_Read f key s =
     (case validateKeyPath (fl_dir f) key of
        Inl e \<Rightarrow> Inl (CacheError e)
      | Inr p \<Rightarrow> if \<not> IsFileExist s p then Inl (CacheError (''File not found: '' @ p))
          else (case os_readFile s p of Inl e \<Rightarrow> Inl (CacheError e) | Inr d \<Rightarrow> Inr d))"

definition File_Write :: "File \<Rightarrow> string \<Rightarrow> string \<Rightarrow> fs \<Rightarrow> fs \<times> string option" where
  "File_Write f key d s =
     (if fs_denied s (fl_dir f) then (s, Some ''permission denied'')
      else case map_of (fs_dirs s) (fl_dir f) of
        None \<Rightarrow> (s, Some (if map_of (fs_files s) (fl_dir f) \<noteq> None then ''file.dir is not dir'' else ''no such file or directory''))
      | Some sz \<Rightarrow>
          if sz > fl_MaxSize f then (s, Some ''max size has been reached'')
          else (case validateKeyPath (fl_dir f) key of
              Inl e \<Rightarrow> (s, Some e)
            | Inr p \<Rightarrow> os_writeFile p d s))"

definition File_Delete :: "File \<Rightarrow> string \<Rightarrow> fs \<Rightarrow> fs \<times> string option" where
  "File_Delete f key s =
     (case validateKeyPath (fl_dir f) key of
        Inl e \<Rightarrow> (s, Some e)
      | Inr p \<Rightarrow> if \<not> IsFileExist s p then (s, Some (''File not found: '' @ p)) else os_remove p s)"

definition File_List :: "File \<Rightarrow> fs \<Rightarrow> string + string list" where
  "File_List f s = os_readDir s (fl_dir f)"

subsection \<open>Archives\<close>

datatype archive_format = TarGz | TarBz2 | TarXz | Tar | Zip

definition archiveFormat :: "string \<Rightarrow> archive_format option" where
  "archiveFormat src =
     (let l = toLower src in
      if hasSuffix l ''.tar.gz'' \<or> hasSuffix l ''.tgz'' then Some TarGz
      else if hasSuffix l ''.tar.bz2'' \<or> hasSuffix l ''.tbz2'' then Some TarBz2
      else if hasSuffix l ''.tar.xz'' \<or> hasSuffix l ''.txz'' then Some TarXz
      else if hasSuffix l ''.tar'' then Some Tar
      else if hasSuffix l ''.zip'' then Some Zip
      else None)"

record archive_entry =
  ae_Name :: string
  ae_Symlink :: bool
  ae_Dir :: bool
  ae_Mode :: nat
  ae_Content :: string

text \<open>What the extraction writes below dst, with the permission bits it passes on.\<close>

datatype extracted = ExtractedDir string nat | ExtractedFile string nat string

definition perm_bits :: "nat \<Rightarrow> nat" where "perm_bits mode = mode mod 512"

definition extractEntry :: "string \<Rightarrow> archive_entry \<Rightarrow> string + extracted" where
  "extractEntry dst f =
     (let destPath = joinPath dst (ae_Name f); cleanDst = cleanPath dst @ ''/''; mode = perm_bits (ae_Mode f) in
      if \<not> hasPrefix (cleanPath destPath @ ''/'') cleanDst \<and> cleanPath destPath \<noteq> cleanPath dst
      then Inl (''illegal file path in archive (path traversal detected): '' @ ae_Name f)
      else if ae_Symlink f then Inl (''symlinks are not allowed in archive: '' @ ae_Name f)
      else if ae_Dir f then Inr (ExtractedDir destPath mode)
      else Inr (ExtractedFile destPath mode (ae_Content f)))"

text \<open>The writes of the file system are applied by the caller: apply returns the error of one write.\<close>

fun extractAll :: "(extracted \<Rightarrow> 'w \<Rightarrow> 'w \<times> string option) \<Rightarrow> string \<Rightarrow> archive_entry list \<Rightarrow> extracted list \<Rightarrow> 'w \<Rightarrow> 'w \<times> extracted list \<times> string option" where
  "extractAll app dst [] done w = (w, done, None)"
| "extractAll app dst (f # fs) done w =
     (case extractEntry dst f of
        Inl e \<Rightarrow> (w, done, Some e)
      | Inr x \<Rightarrow> (case app x w of
          (w, Some e) \<Rightarrow> (w, done @ [x], Some e)
        | (w, None) \<Rightarrow> extractAll app dst fs (done @ [x]) w))"

text \<open>entries decodes the archive: the library that reads it is a parameter.\<close>

definition ExtractArchive :: "(archive_format \<Rightarrow> string \<Rightarrow> string + archive_entry list) \<Rightarrow> (extracted \<Rightarrow> 'w \<Rightarrow> 'w \<times> string option) \<Rightarrow>
    bool \<Rightarrow> string \<Rightarrow> string \<Rightarrow> 'w \<Rightarrow> 'w \<times> extracted list \<times> string option" where
  "ExtractArchive entries app srcExists src dst w =
     (if \<not> srcExists then (w, [], Some (''File not found: '' @ src))
      else case archiveFormat src of
        None \<Rightarrow> (w, [], Some (''unsupported archive format: '' @ src))
      | Some format \<Rightarrow> (case entries format src of
          Inl e \<Rightarrow> (w, [], Some e)
        | Inr fs \<Rightarrow> extractAll app dst fs [] w))"

section \<open>The S3 backend (s3.go)\<close>

datatype s3_error = NoSuchKey | S3NotFound | ApiError string string | S3Error string

datatype s3_cond = NoCond | IfNoneMatchAny | IfMatch string

record s3_page =
  pg_Keys :: "string option list"
  pg_IsTruncated :: "bool option"
  pg_Next :: "string option"

record 'o S3Client =
  sc_GetObject :: "string \<Rightarrow> string \<Rightarrow> 'o \<Rightarrow> 'o \<times> (s3_error + string \<times> string)"
  sc_PutObject :: "string \<Rightarrow> string \<Rightarrow> string \<Rightarrow> s3_cond \<Rightarrow> 'o \<Rightarrow> 'o \<times> (s3_error + string)"
  sc_DeleteObject :: "string \<Rightarrow> string \<Rightarrow> 'o \<Rightarrow> 'o \<times> s3_error option"
  sc_ListObjectsV2 :: "string \<Rightarrow> string \<Rightarrow> string option \<Rightarrow> 'o \<Rightarrow> 'o \<times> (s3_error + s3_page)"

record S3 =
  s3_Bucket :: string
  s3_Prefix :: string
  s3_Region :: string
  s3_Endpoint :: string
  s3_dir :: string
  s3_MaxSize :: goint
  s3_registryTTL :: goint

fun s3_error_text :: "s3_error \<Rightarrow> string" where
  "s3_error_text NoSuchKey = ''NoSuchKey''"
| "s3_error_text S3NotFound = ''NotFound''"
| "s3_error_text (ApiError code msg) = code @ '': '' @ msg"
| "s3_error_text (S3Error msg) = msg"

definition normalizePrefix :: "string \<Rightarrow> string" where
  "normalizePrefix p = (let p = trimPrefix p ''/'' in if p = [] then [] else if \<not> hasSuffix p ''/'' then p @ ''/'' else p)"

definition S3_objectKey :: "S3 \<Rightarrow> string \<Rightarrow> string" where "S3_objectKey c key = s3_Prefix c @ key"

definition stageLocal :: "string \<Rightarrow> string \<Rightarrow> fs \<Rightarrow> fs \<times> string option" where
  "stageLocal p d s = (case os_mkdirAll (dirPath p) s of (s, Some e) \<Rightarrow> (s, Some e) | (s, None) \<Rightarrow> os_writeFile p d s)"

definition s3_get_error :: "string \<Rightarrow> s3_error \<Rightarrow> cache_error" where
  "s3_get_error key e = (if e = NoSuchKey \<or> e = S3NotFound then NotFound key
     else CacheError (''failed to get object: '' @ s3_error_text e))"

definition S3_Read :: "'o S3Client \<Rightarrow> S3 \<Rightarrow> string \<Rightarrow> fs \<times> 'o \<Rightarrow> (fs \<times> 'o) \<times> (cache_error + string)" where
  "S3_Read cl c key w =
     (case validateKeyPath (s3_dir c) key of
        Inl e \<Rightarrow> (w, Inl (CacheError e))
      | Inr localPath \<Rightarrow> (case os_readFile (fst w) localPath of
          Inr d \<Rightarrow> (w, Inr d)
        | Inl _ \<Rightarrow> (case sc_GetObject cl (s3_Bucket c) (S3_objectKey c key) (snd w) of
            (ob, Inl e) \<Rightarrow> ((fst w, ob), Inl (s3_get_error key e))
          | (ob, Inr (d, etag)) \<Rightarrow> ((fst (stageLocal localPath d (fst w)), ob), Inr d))))"

definition S3_Write :: "'o S3Client \<Rightarrow> S3 \<Rightarrow> string \<Rightarrow> string \<Rightarrow> fs \<times> 'o \<Rightarrow> (fs \<times> 'o) \<times> string option" where
  "S3_Write cl c key d w =
     (case validateKeyPath (s3_dir c) key of
        Inl e \<Rightarrow> (w, Some e)
      | Inr localPath \<Rightarrow> (case stageLocal localPath d (fst w) of
          (s, Some e) \<Rightarrow> ((s, snd w), Some e)
        | (s, None) \<Rightarrow> (case sc_PutObject cl (s3_Bucket c) (S3_objectKey c key) d NoCond (snd w) of
            (ob, Inl e) \<Rightarrow> ((s, ob), Some (''failed to put object: '' @ s3_error_text e))
          | (ob, Inr _) \<Rightarrow> ((s, ob), None))))"

definition S3_Delete :: "'o S3Client \<Rightarrow> S3 \<Rightarrow> string \<Rightarrow> fs \<times> 'o \<Rightarrow> (fs \<times> 'o) \<times> string option" where
  "S3_Delete cl c key w =
     (case validateKeyPath (s3_dir c) key of
        Inl e \<Rightarrow> (w, Some e)
      | Inr localPath \<Rightarrow>
          (case (if IsFileExist (fst w) localPath then os_remove localPath (fst w) else (fst w, None)) of
             (s, Some e) \<Rightarrow> ((s, snd w), Some e)
           | (s, None) \<Rightarrow> (case sc_DeleteObject cl (s3_Bucket c) (S3_objectKey c key) (snd w) of
               (ob, Some e) \<Rightarrow> ((s, ob), Some (''failed to delete object: '' @ s3_error_text e))
             | (ob, None) \<Rightarrow> ((s, ob), None))))"

definition S3_ReadWithVersion :: "'o S3Client \<Rightarrow> S3 \<Rightarrow> string \<Rightarrow> 'o \<Rightarrow> 'o \<times> (cache_error + string \<times> string)" where
  "S3_ReadWithVersion cl c key ob =
     (case sc_GetObject cl (s3_Bucket c) (S3_objectKey c key) ob of
        (ob, Inl e) \<Rightarrow> (ob, Inl (s3_get_error key e))
      | (ob, Inr (d, etag)) \<Rightarrow> (ob, Inr (d, etag)))"

definition isS3PreconditionFailure :: "s3_error \<Rightarrow> bool" where
  "isS3PreconditionFailure e = (case e of ApiError code _ \<Rightarrow> code = ''PreconditionFailed'' | _ \<Rightarrow> False)"

definition S3_WriteIfMatch :: "'o S3Client \<Rightarrow> S3 \<Rightarrow> string \<Rightarrow> string \<Rightarrow> string \<Rightarrow> 'o \<Rightarrow> 'o \<times> (cache_error + string)" where
  "S3_WriteIfMatch cl c key version d ob =
     (case sc_PutObject cl (s3_Bucket c) (S3_objectKey c key) d (if version = [] then IfNoneMatchAny else IfMatch version) ob of
        (ob, Inl e) \<Rightarrow> (ob, Inl (if isS3PreconditionFailure e then Conflict key
            else CacheError (''failed to put object: '' @ s3_error_text e)))
      | (ob, Inr etag) \<Rightarrow> (ob, Inr etag))"

definition pageKeys :: "string \<Rightarrow> string option list \<Rightarrow> string list" where
  "pageKeys pfx ks = filter (\<lambda>k. k \<noteq> []) (List.map_filter (map_option (\<lambda>k. trimPrefix k pfx)) ks)"

partial_function (option) S3_listFrom :: "'o S3Client \<Rightarrow> S3 \<Rightarrow> string option \<Rightarrow> string list \<Rightarrow> 'o \<Rightarrow> ('o \<times> (string + string list)) option" where
  "S3_listFrom cl c token keys ob =
     (case sc_ListObjectsV2 cl (s3_Bucket c) (s3_Prefix c) token ob of
        (ob, Inl e) \<Rightarrow> Some (ob, Inl (''failed to list objects: '' @ s3_error_text e))
      | (ob, Inr page) \<Rightarrow>
          let keys = keys @ pageKeys (s3_Prefix c) (pg_Keys page) in
          if pg_IsTruncated page \<noteq> Some True then Some (ob, Inr keys)
          else S3_listFrom cl c (pg_Next page) keys ob)"

definition S3_List :: "'o S3Client \<Rightarrow> S3 \<Rightarrow> 'o \<Rightarrow> ('o \<times> (string + string list)) option" where
  "S3_List cl c ob = S3_listFrom cl c None [] ob"

section \<open>The GCS backend (gs.go)\<close>

datatype gs_error = ObjectNotExist | GoogleError goint string | GSError string

fun gs_error_text :: "gs_error \<Rightarrow> string" where
  "gs_error_text ObjectNotExist = ''storage: object does not exist''"
| "gs_error_text (GoogleError code msg) = ''googleapi: Error '' @ itoa code @ '': '' @ msg"
| "gs_error_text (GSError msg) = msg"

record 'o GSClient =
  gc_GetObject :: "string \<Rightarrow> string \<Rightarrow> 'o \<Rightarrow> 'o \<times> (gs_error + string)"
  gc_PutObject :: "string \<Rightarrow> string \<Rightarrow> string \<Rightarrow> 'o \<Rightarrow> 'o \<times> gs_error option"
  gc_DeleteObject :: "string \<Rightarrow> string \<Rightarrow> 'o \<Rightarrow> 'o \<times> gs_error option"
  gc_ListObjects :: "string \<Rightarrow> string \<Rightarrow> 'o \<Rightarrow> 'o \<times> (gs_error + string list)"
  gc_ReadWithGeneration :: "string \<Rightarrow> string \<Rightarrow> 'o \<Rightarrow> 'o \<times> (gs_error + string \<times> goint)"
  gc_WriteIfGeneration :: "string \<Rightarrow> string \<Rightarrow> string \<Rightarrow> goint \<Rightarrow> 'o \<Rightarrow> 'o \<times> (gs_error + goint)"

record GS =
  gs_Bucket :: string
  gs_Prefix :: string
  gs_dir :: string
  gs_MaxSize :: goint
  gs_registryTTL :: goint

definition GS_objectName :: "GS \<Rightarrow> string \<Rightarrow> string" where "GS_objectName g key = gs_Prefix g @ key"

definition gs_get_error :: "string \<Rightarrow> gs_error \<Rightarrow> cache_error" where
  "gs_get_error key e = (if e = ObjectNotExist then NotFound key else CacheError (''failed to get object: '' @ gs_error_text e))"

definition GS_Read :: "'o GSClient \<Rightarrow> GS \<Rightarrow> string \<Rightarrow> fs \<times> 'o \<Rightarrow> (fs \<times> 'o) \<times> (cache_error + string)" where
  "GS_Read cl g key w =
     (case validateKeyPath (gs_dir g) key of
        Inl e \<Rightarrow> (w, Inl (CacheError e))
      | Inr localPath \<Rightarrow> (case os_readFile (fst w) localPath of
          Inr d \<Rightarrow> (w, Inr d)
        | Inl _ \<Rightarrow> (case gc_GetObject cl (gs_Bucket g) (GS_objectName g key) (snd w) of
            (ob, Inl e) \<Rightarrow> ((fst w, ob), Inl (gs_get_error key e))
          | (ob, Inr d) \<Rightarrow> ((fst (stageLocal localPath d (fst w)), ob), Inr d))))"

definition GS_Write :: "'o GSClient \<Rightarrow> GS \<Rightarrow> string \<Rightarrow> string \<Rightarrow> fs \<times> 'o \<Rightarrow> (fs \<times> 'o) \<times> string option" where
  "GS_Write cl g key d w =
     (case validateKeyPath (gs_dir g) key of
        Inl e \<Rightarrow> (w, Some e)
      | Inr localPath \<Rightarrow> (case stageLocal localPath d (fst w) of
          (s, Some e) \<Rightarrow> ((s, snd w), Some e)
        | (s, None) \<Rightarrow> (case gc_PutObject cl (gs_Bucket g) (GS_objectName g key) d (snd w) of
            (ob, Some e) \<Rightarrow> ((s, ob), Some (''failed to put object: '' @ gs_error_text e))
          | (ob, None) \<Rightarrow> ((s, ob), None))))"

definition GS_Delete :: "'o GSClient \<Rightarrow> GS \<Rightarrow> string \<Rightarrow> fs \<times> 'o \<Rightarrow> (fs \<times> 'o) \<times> string option" where
  "GS_Delete cl g key w =
     (case validateKeyPath (gs_dir g) key of
        Inl e \<Rightarrow> (w, Some e)
      | Inr localPath \<Rightarrow>
          (case (if IsFileExist (fst w) localPath then os_remove localPath (fst w) else (fst w, None)) of
             (s, Some e) \<Rightarrow> ((s, snd w), Some e)
           | (s, None) \<Rightarrow> (case gc_DeleteObject cl (gs_Bucket g) (GS_objectName g key) (snd w) of
               (ob, Some e) \<Rightarrow> ((s, ob), if e = ObjectNotExist then None else Some (''failed to delete object: '' @ gs_error_text e))
             | (ob, None) \<Rightarrow> ((s, ob), None))))"

definition GS_List :: "'o GSClient \<Rightarrow> GS \<Rightarrow> 'o \<Rightarrow> 'o \<times> (string + string list)" where
  "GS_List cl g ob =
     (case gc_ListObjects cl (gs_Bucket g) (gs_Prefix g) ob of
        (ob, Inl e) \<Rightarrow> (ob, Inl (''failed to list objects: '' @ gs_error_text e))
      | (ob, Inr names) \<Rightarrow> (ob, Inr (filter (\<lambda>k. k \<noteq> []) (map (\<lambda>n. trimPrefix n (gs_Prefix g)) names))))"

definition GS_ReadWithVersion :: "'o GSClient \<Rightarrow> GS \<Rightarrow> string \<Rightarrow> 'o \<Rightarrow> 'o \<times> (cache_error + string \<times> string)" where
  "GS_ReadWithVersion cl g key ob =
     (case gc_ReadWithGeneration cl (gs_Bucket g) (GS_objectName g key) ob of
        (ob, Inl e) \<Rightarrow> (ob, Inl (gs_get_error key e))
      | (ob, Inr (d, gen)) \<Rightarrow> (ob, Inr (d, itoa gen)))"

definition isGSPreconditionFailure :: "gs_error \<Rightarrow> bool" where
  "isGSPreconditionFailure e = (case e of GoogleError code _ \<Rightarrow> code = 412 | _ \<Rightarrow> False)"

definition GS_WriteIfMatch :: "'o GSClient \<Rightarrow> GS \<Rightarrow> string \<Rightarrow> string \<Rightarrow> string \<Rightarrow> 'o \<Rightarrow> 'o \<times> (cache_error + string)" where
  "GS_WriteIfMatch cl g key version d ob =
     (case (if version = [] then Some 0 else atoi_opt version) of
        None \<Rightarrow> (ob, Inl (CacheError (''invalid version '' @ version)))
      | Some expected \<Rightarrow> (case gc_WriteIfGeneration cl (gs_Bucket g) (GS_objectName g key) d expected ob of
          (ob, Inl e) \<Rightarrow> (ob, Inl (if isGSPreconditionFailure e then Conflict key
              else CacheError (''failed to put object: '' @ gs_error_text e)))
        | (ob, Inr gen) \<Rightarrow> (ob, Inr (itoa gen))))"

section \<open>Registry TTL (cache.go)\<close>

section \<open>Lemmas on paths\<close>

definition good_comp :: "string \<Rightarrow> bool" where
  "good_comp c = (c \<noteq> [] \<and> c \<noteq> ''.'' \<and> c \<noteq> ''..'' \<and> CHR ''/'' \<notin> set c)"

lemma clean_comps_rooted_good:
  "list_all good_comp st \<Longrightarrow> \<forall>c\<in>set cs. CHR ''/'' \<notin> set c \<Longrightarrow> list_all good_comp (clean_comps True st cs)"
proof (induction cs arbitrary: st)
  case (Cons c cs)
  show ?case
  proof (cases "c = [] \<or> c = ''.'' \<or> c = ''..''")
    case True
    then show ?thesis using Cons by (cases st) (auto simp: good_comp_def)
  next
    case False
    then have "good_comp c" using Cons.prems by (simp add: good_comp_def)
    with False show ?thesis using Cons by simp
  qed
qed (simp add: list_all_iff)

lemma clean_comps_good: "list_all good_comp cs \<Longrightarrow> clean_comps r st cs = rev st @ cs"
  by (induction cs arbitrary: st) (auto simp: good_comp_def)

lemma comps_good: "rootedPath p \<Longrightarrow> list_all good_comp (comps p)"
  using clean_comps_rooted_good [of "[]" "splitC (CHR ''/'') p"] splitC_parts [of _ "CHR ''/''" p]
  by (simp add: comps_def)

lemma splitC_sep: "splitC c (s @ c # t) = splitC c s @ splitC c t"
proof (induction s)
  case (Cons x xs)
  obtain y ys where "splitC c xs = y # ys" by (cases "splitC c xs") auto
  with Cons show ?case by simp
qed simp

lemma good_comp_slash: "list_all good_comp cs \<Longrightarrow> c \<in> set cs \<Longrightarrow> CHR ''/'' \<notin> set c"
  by (auto simp: list_all_iff good_comp_def)

lemma splitC_join_good: "list_all good_comp cs \<Longrightarrow> cs \<noteq> [] \<Longrightarrow> splitC (CHR ''/'') (joinS ''/'' cs) = cs"
  by (rule splitC_joinS) (auto dest: good_comp_slash)

lemma rooted_showPath [simp]: "rootedPath (showPath True cs)"
  by (simp add: rootedPath_def showPath_def)

lemma comps_showPath:
  assumes "list_all good_comp cs"
  shows "comps (showPath True cs) = cs"
proof -
  have "splitC (CHR ''/'') (showPath True cs) = [] # (if cs = [] then [[]] else cs)"
    using splitC_join_good [OF assms] by (auto simp: showPath_def)
  then show ?thesis using clean_comps_good [OF assms, of True "[]"] by (auto simp: comps_def)
qed

lemma cleanPath_rooted: "rootedPath p \<Longrightarrow> cleanPath p = showPath True (comps p)"
  by (simp add: cleanPath_def)

lemma cleanPath_idem: "rootedPath p \<Longrightarrow> cleanPath (cleanPath p) = cleanPath p \<and> comps (cleanPath p) = comps p"
  by (simp add: cleanPath_rooted comps_showPath comps_good)

lemma hasPrefix_showPath:
  assumes "list_all good_comp bs" "list_all good_comp cs" "bs \<noteq> []"
  shows "hasPrefix (showPath True cs @ ''/'') (showPath True bs @ ''/'') \<longleftrightarrow> prefix bs cs"
proof
  assume "hasPrefix (showPath True cs @ ''/'') (showPath True bs @ ''/'')"
  then obtain t where t: "joinS ''/'' cs @ ''/'' = joinS ''/'' bs @ CHR ''/'' # t"
    by (auto simp: hasPrefix_iff showPath_def)
  have cs: "cs \<noteq> []"
  proof
    assume "cs = []"
    then have "joinS ''/'' bs = []" using arg_cong [OF t, of length] by simp
    then have "bs = [[]]" using splitC_join_good [OF assms(1,3)] by simp
    with assms(1) show False by (simp add: good_comp_def)
  qed
  have "splitC (CHR ''/'') (joinS ''/'' cs @ CHR ''/'' # []) = splitC (CHR ''/'') (joinS ''/'' bs @ CHR ''/'' # t)"
    using t by simp
  then have "cs @ [[]] = bs @ splitC (CHR ''/'') t"
    using splitC_join_good [OF assms(2) cs] splitC_join_good [OF assms(1,3)] by (simp only: splitC_sep) simp
  then have "prefix bs (cs @ [[]])" by (metis prefixI)
  moreover have "bs \<noteq> cs @ [[]]" using assms(1) by (auto simp: good_comp_def)
  ultimately show "prefix bs cs" by simp
next
  assume "prefix bs cs"
  then obtain ds where ds: "cs = bs @ ds" by (auto simp: prefix_def)
  have "joinS ''/'' (bs @ ds) = joinS ''/'' bs @ (if ds = [] then [] else ''/'' @ joinS ''/'' ds)" using assms(3)
    by (induction "''/''" bs rule: joinS.induct) (auto, cases ds, auto)
  then show "hasPrefix (showPath True cs @ ''/'') (showPath True bs @ ''/'')"
    using ds by (auto simp: showPath_def hasPrefix_iff)
qed

lemma rooted_join: "rootedPath base \<Longrightarrow> joinPath base key = cleanPath (base @ ''/'' @ key) \<and> rootedPath (base @ ''/'' @ key)"
  by (cases base) (auto simp: rootedPath_def joinPath_def hasPrefix_def)

text \<open>The test of validateKeyPath and of the extraction, for an absolute base directory.\<close>

lemma inside_iff:
  assumes "rootedPath base"
  shows "hasPrefix (cleanPath (joinPath base key) @ ''/'') (cleanPath base @ ''/'') \<or> cleanPath (joinPath base key) = cleanPath base
     \<Longrightarrow> prefix (comps base) (comps (joinPath base key)) \<and> rootedPath (joinPath base key) \<and> ''..'' \<notin> set (comps (joinPath base key))"
    and "comps base \<noteq> [] \<Longrightarrow> prefix (comps base) (comps (joinPath base key)) \<Longrightarrow>
      hasPrefix (cleanPath (joinPath base key) @ ''/'') (cleanPath base @ ''/'')"
proof -
  let ?q = "base @ ''/'' @ key"
  have q: "joinPath base key = cleanPath ?q" "rootedPath ?q" using rooted_join [OF assms, of key] by simp_all
  have c: "cleanPath (joinPath base key) = showPath True (comps ?q)" "comps (joinPath base key) = comps ?q"
    using cleanPath_idem [OF q(2)] q cleanPath_rooted [OF q(2)] by simp_all
  have good: "list_all good_comp (comps ?q)" "list_all good_comp (comps base)" using comps_good q(2) assms by blast+
  have r: "rootedPath (joinPath base key)" using q cleanPath_rooted [OF q(2)] by simp
  have dd: "''..'' \<notin> set (comps ?q)" using good(1) by (auto simp: list_all_iff good_comp_def)
  show "prefix (comps base) (comps (joinPath base key)) \<and> rootedPath (joinPath base key) \<and> ''..'' \<notin> set (comps (joinPath base key))"
    if "hasPrefix (cleanPath (joinPath base key) @ ''/'') (cleanPath base @ ''/'') \<or> cleanPath (joinPath base key) = cleanPath base"
  proof (cases "comps base = []")
    case False
    have "prefix (comps base) (comps ?q)"
      using that hasPrefix_showPath [OF good(2,1) False] c cleanPath_rooted [OF assms] comps_showPath good
      by (metis prefix_order.refl)
    with c r dd show ?thesis by simp
  qed (use c r dd in simp)
  show "hasPrefix (cleanPath (joinPath base key) @ ''/'') (cleanPath base @ ''/'')"
    if "comps base \<noteq> []" "prefix (comps base) (comps (joinPath base key))"
    using that hasPrefix_showPath [OF good(2,1)] c cleanPath_rooted [OF assms] by simp
qed

section \<open>Lemmas on the file system\<close>

lemma map_of_filter_key: "map_of (filter (\<lambda>x. fst x \<noteq> p) xs) q = (if q = p then None else map_of xs q)"
  by (induction xs) auto

lemma os_writeFile_read:
  assumes "os_writeFile p d s = (s', None)"
  shows "os_readFile s' p = Inr d" "q \<noteq> p \<Longrightarrow> os_readFile s' q = os_readFile s q \<and> os_exists s' q = os_exists s q" "os_exists s' p"
  using assms by (auto simp: os_writeFile_def os_readFile_def os_exists_def map_of_filter_key split: if_splits)

lemma os_remove_read:
  assumes "os_remove p s = (s', None)"
  shows "q \<noteq> p \<Longrightarrow> os_readFile s' q = os_readFile s q \<and> os_exists s' q = os_exists s q" "isl (os_readFile s' p)"
  using assms by (auto simp: os_remove_def os_readFile_def os_exists_def map_of_filter_key split: if_splits option.splits)

section \<open>The contract of AtomicCache (cache.go)\<close>

text \<open>
  For one key: cur is the entry with its version, valid the versions the backend hands out. A
  read reports the entry as it is; a conditional write succeeds only on the entry with the
  given version (or on no entry for the empty version) and installs the new entry; a reported
  conflict changes nothing. A version may come back only for unchanged content.
\<close>

locale atomic_cache =
  fixes readv :: "'c \<Rightarrow> 'c \<times> (cache_error + string \<times> string)"
    and writev :: "string \<Rightarrow> string \<Rightarrow> 'c \<Rightarrow> 'c \<times> (cache_error + string)"
    and cur :: "'c \<Rightarrow> (string \<times> string) option"
    and valid :: "string \<Rightarrow> bool"
  assumes read_ok: "readv w = (w', Inr (d, v)) \<Longrightarrow> cur w = Some (d, v) \<and> cur w' = cur w \<and> valid v \<and> v \<noteq> []"
    and read_error: "readv w = (w', Inl e) \<Longrightarrow> cur w' = cur w \<and> (IsNotFound e \<longrightarrow> cur w = None)"
    and write_new: "writev [] d w = (w', Inr v') \<Longrightarrow> cur w = None \<and> cur w' = Some (d, v') \<and> valid v' \<and> v' \<noteq> []"
    and write_match: "valid v \<Longrightarrow> v \<noteq> [] \<Longrightarrow> writev v d w = (w', Inr v') \<Longrightarrow>
      \<exists>d0. cur w = Some (d0, v) \<and> cur w' = Some (d, v') \<and> valid v' \<and> v' \<noteq> [] \<and> (v' = v \<longrightarrow> d = d0)"
    and write_conflict: "writev v d w = (w', Inl (Conflict k)) \<Longrightarrow> cur w' = cur w"
begin

text \<open>Two writers that start from the same version: the second cannot overwrite a change of the first.\<close>

lemma no_lost_update:
  assumes "valid v \<or> v = []" "writev v d1 w = (w1, Inr v1)" "cur w2 = cur w1" "writev v d2 w2 = (w3, Inr v2)"
  shows "v \<noteq> [] \<and> cur w = Some (d1, v)"
proof (cases "v = []")
  case True
  then show ?thesis using write_new [of d1 w w1 v1] write_new [of d2 w2 w3 v2] assms by simp
next
  case False
  then have v: "valid v" "v \<noteq> []" using assms(1) by auto
  obtain d0 where "cur w = Some (d0, v)" "cur w1 = Some (d1, v1)" "v1 = v \<longrightarrow> d1 = d0"
    using write_match [OF v assms(2)] by auto
  moreover obtain d0' where "cur w2 = Some (d0', v)" using write_match [OF v assms(4)] by auto
  ultimately show ?thesis using assms(3) False by simp
qed

lemma read_after_write:
  assumes "valid v \<or> v = []" "writev v d w = (w1, Inr v1)" "cur w2 = cur w1" "readv w2 = (w3, Inr (d', v'))"
  shows "d' = d \<and> v' = v1"
  using assms write_new [of d w w1 v1] write_match [of v d w w1 v1] read_ok [OF assms(4)] by (cases "v = []") auto

end

text \<open>
  Conditional requests as S3 documents them for one object: obj is the object with its entity
  tag, and the tag identifies the content.
\<close>

locale s3_service =
  fixes cl :: "'o S3Client" and c :: S3 and key :: string and obj :: "'o \<Rightarrow> (string \<times> string) option"
  assumes get_ok: "sc_GetObject cl (s3_Bucket c) (S3_objectKey c key) o1 = (o2, Inr (d, e)) \<Longrightarrow>
      obj o1 = Some (d, e) \<and> obj o2 = obj o1 \<and> e \<noteq> []"
    and get_error: "sc_GetObject cl (s3_Bucket c) (S3_objectKey c key) o1 = (o2, Inl err) \<Longrightarrow>
      obj o2 = obj o1 \<and> (err = NoSuchKey \<or> err = S3NotFound \<longrightarrow> obj o1 = None)"
    and put_new: "sc_PutObject cl (s3_Bucket c) (S3_objectKey c key) d IfNoneMatchAny o1 = (o2, Inr e) \<Longrightarrow>
      obj o1 = None \<and> obj o2 = Some (d, e) \<and> e \<noteq> []"
    and put_match: "sc_PutObject cl (s3_Bucket c) (S3_objectKey c key) d (IfMatch v) o1 = (o2, Inr e) \<Longrightarrow>
      \<exists>d0. obj o1 = Some (d0, v) \<and> obj o2 = Some (d, e) \<and> e \<noteq> [] \<and> (e = v \<longrightarrow> d = d0)"
    and put_failed: "sc_PutObject cl (s3_Bucket c) (S3_objectKey c key) d cond o1 = (o2, Inl (ApiError ''PreconditionFailed'' msg)) \<Longrightarrow>
      obj o2 = obj o1"

sublocale s3_service \<subseteq> s3: atomic_cache "S3_ReadWithVersion cl c key" "S3_WriteIfMatch cl c key" obj "\<lambda>_. True"
proof
  fix w w' d v e k v'
  show "S3_ReadWithVersion cl c key w = (w', Inr (d, v)) \<Longrightarrow> obj w = Some (d, v) \<and> obj w' = obj w \<and> True \<and> v \<noteq> []"
    using get_ok by (fastforce simp: S3_ReadWithVersion_def split: prod.splits sum.splits)
  show "S3_ReadWithVersion cl c key w = (w', Inl e) \<Longrightarrow> obj w' = obj w \<and> (IsNotFound e \<longrightarrow> obj w = None)"
    using get_error
    by (fastforce simp: S3_ReadWithVersion_def s3_get_error_def IsNotFound_def split: prod.splits sum.splits if_splits)
  show "S3_WriteIfMatch cl c key [] d w = (w', Inr v') \<Longrightarrow> obj w = None \<and> obj w' = Some (d, v') \<and> True \<and> v' \<noteq> []"
    using put_new by (fastforce simp: S3_WriteIfMatch_def split: prod.splits sum.splits)
  show "S3_WriteIfMatch cl c key v d w = (w', Inr v') \<Longrightarrow> v \<noteq> [] \<Longrightarrow> True \<Longrightarrow>
      \<exists>d0. obj w = Some (d0, v) \<and> obj w' = Some (d, v') \<and> True \<and> v' \<noteq> [] \<and> (v' = v \<longrightarrow> d = d0)"
    using put_match by (fastforce simp: S3_WriteIfMatch_def split: prod.splits sum.splits)
  show "S3_WriteIfMatch cl c key v d w = (w', Inl (Conflict k)) \<Longrightarrow> obj w' = obj w"
    using put_failed
    by (fastforce simp: S3_WriteIfMatch_def isS3PreconditionFailure_def split: prod.splits sum.splits if_splits s3_error.splits)
qed

context s3_service
begin

lemma two_writers:
  assumes "S3_WriteIfMatch cl c key version d1 w = (w1, Inr v1)" "obj w2 = obj w1"
    "S3_WriteIfMatch cl c key version d2 w2 = (w3, Inr v2)"
  shows "version \<noteq> [] \<and> obj w = Some (d1, version)"
  using s3.no_lost_update [OF _ assms] by simp

end

text \<open>Generation preconditions as GCS documents them: a write gives the object a new positive generation.\<close>

locale gs_service =
  fixes cl :: "'o GSClient" and g :: GS and key :: string and obj :: "'o \<Rightarrow> (string \<times> goint) option"
  assumes read_gen: "gc_ReadWithGeneration cl (gs_Bucket g) (GS_objectName g key) o1 = (o2, Inr (d, n)) \<Longrightarrow>
      obj o1 = Some (d, n) \<and> obj o2 = obj o1"
    and read_gen_error: "gc_ReadWithGeneration cl (gs_Bucket g) (GS_objectName g key) o1 = (o2, Inl err) \<Longrightarrow>
      obj o2 = obj o1 \<and> (err = ObjectNotExist \<longrightarrow> obj o1 = None)"
    and write_absent: "gc_WriteIfGeneration cl (gs_Bucket g) (GS_objectName g key) d 0 o1 = (o2, Inr n) \<Longrightarrow>
      obj o1 = None \<and> obj o2 = Some (d, n)"
    and write_gen: "m \<noteq> 0 \<Longrightarrow> gc_WriteIfGeneration cl (gs_Bucket g) (GS_objectName g key) d m o1 = (o2, Inr n) \<Longrightarrow>
      \<exists>d0. obj o1 = Some (d0, m) \<and> obj o2 = Some (d, n) \<and> n \<noteq> m"
    and write_gen_failed: "gc_WriteIfGeneration cl (gs_Bucket g) (GS_objectName g key) d m o1 = (o2, Inl (GoogleError 412 msg)) \<Longrightarrow>
      obj o2 = obj o1"
    and generations: "obj o1 = Some (d, n) \<Longrightarrow> 0 < n \<and> in_int64 n"

definition gs_version :: "string \<Rightarrow> bool" where
  "gs_version v = (\<exists>n. 0 < n \<and> in_int64 n \<and> v = itoa n)"

lemma itoa_not_Nil [simp]: "itoa n \<noteq> []"
  by (simp add: itoa_def)

lemma itoa_inj: "in_int64 m \<Longrightarrow> in_int64 n \<Longrightarrow> itoa m = itoa n \<Longrightarrow> m = n"
  by (metis atoi_opt_itoa option.inject)

sublocale gs_service \<subseteq> gs: atomic_cache "GS_ReadWithVersion cl g key" "GS_WriteIfMatch cl g key"
  "\<lambda>w. map_option (\<lambda>(d, n). (d, itoa n)) (obj w)" gs_version
proof
  fix w w' d v e k v'
  let ?cur = "\<lambda>w. map_option (\<lambda>(d, n). (d, itoa n)) (obj w)"
  show "GS_ReadWithVersion cl g key w = (w', Inr (d, v)) \<Longrightarrow> ?cur w = Some (d, v) \<and> ?cur w' = ?cur w \<and> gs_version v \<and> v \<noteq> []"
    using read_gen generations by (fastforce simp: GS_ReadWithVersion_def gs_version_def split: prod.splits sum.splits)
  show "GS_ReadWithVersion cl g key w = (w', Inl e) \<Longrightarrow> ?cur w' = ?cur w \<and> (IsNotFound e \<longrightarrow> ?cur w = None)"
    using read_gen_error
    by (fastforce simp: GS_ReadWithVersion_def gs_get_error_def IsNotFound_def split: prod.splits sum.splits if_splits)
  show "GS_WriteIfMatch cl g key [] d w = (w', Inr v') \<Longrightarrow> ?cur w = None \<and> ?cur w' = Some (d, v') \<and> gs_version v' \<and> v' \<noteq> []"
    using write_absent generations by (fastforce simp: GS_WriteIfMatch_def gs_version_def split: prod.splits sum.splits)
  show "\<exists>d0. ?cur w = Some (d0, v) \<and> ?cur w' = Some (d, v') \<and> gs_version v' \<and> v' \<noteq> [] \<and> (v' = v \<longrightarrow> d = d0)"
    if asm: "gs_version v" "v \<noteq> []" "GS_WriteIfMatch cl g key v d w = (w', Inr v')"
  proof -
    obtain m where m: "0 < m" "in_int64 m" "v = itoa m" using asm(1) by (auto simp: gs_version_def)
    then obtain n where n: "gc_WriteIfGeneration cl (gs_Bucket g) (GS_objectName g key) d m w = (w', Inr n)" "v' = itoa n"
      using asm(2,3) by (auto simp: GS_WriteIfMatch_def split: prod.splits sum.splits)
    with write_gen [of m d w w' n] m obtain d0 where d0: "obj w = Some (d0, m)" "obj w' = Some (d, n)" "n \<noteq> m" by auto
    then have "0 < n" "in_int64 n" using generations by blast+
    with d0 m n itoa_inj show ?thesis by (auto simp: gs_version_def)
  qed
  show "GS_WriteIfMatch cl g key v d w = (w', Inl (Conflict k)) \<Longrightarrow> ?cur w' = ?cur w"
    using write_gen_failed
    by (fastforce simp: GS_WriteIfMatch_def isGSPreconditionFailure_def split: prod.splits sum.splits if_splits gs_error.splits option.splits)
qed

subsection \<open>Reference services\<close>

text \<open>One object with its content as entity tag; one object with a counter of generations.\<close>

definition one_object :: "string option S3Client" where
  "one_object = \<lparr>sc_GetObject = (\<lambda>b k ob. (ob, case ob of None \<Rightarrow> Inl NoSuchKey | Some d \<Rightarrow> Inr (d, CHR ''E'' # d))),
     sc_PutObject = (\<lambda>b k d cond ob.
        if cond = NoCond \<or> (cond = IfNoneMatchAny \<and> ob = None) \<or> (\<exists>d0. ob = Some d0 \<and> cond = IfMatch (CHR ''E'' # d0))
        then (Some d, Inr (CHR ''E'' # d)) else (ob, Inl (ApiError ''PreconditionFailed'' []))),
     sc_DeleteObject = (\<lambda>b k ob. (None, None)),
     sc_ListObjectsV2 = (\<lambda>b p t ob. (ob, Inr \<lparr>pg_Keys = [], pg_IsTruncated = None, pg_Next = None\<rparr>))\<rparr>"

interpretation one_object: s3_service one_object c key "map_option (\<lambda>d. (d, CHR ''E'' # d))"
  by unfold_locales (auto simp: one_object_def split: option.splits if_splits)

definition gs_object :: "((string \<times> goint) option) GSClient" where
  "gs_object = \<lparr>gc_GetObject = (\<lambda>b k ob. (ob, case ob of None \<Rightarrow> Inl ObjectNotExist | Some (d, n) \<Rightarrow> Inr d)),
     gc_PutObject = (\<lambda>b k d ob. (Some (d, case ob of None \<Rightarrow> 1 | Some (d0, n) \<Rightarrow> n + 1), None)),
     gc_DeleteObject = (\<lambda>b k ob. (None, case ob of None \<Rightarrow> Some ObjectNotExist | Some _ \<Rightarrow> None)),
     gc_ListObjects = (\<lambda>b p ob. (ob, Inr [])),
     gc_ReadWithGeneration = (\<lambda>b k ob. (ob, case ob of None \<Rightarrow> Inl ObjectNotExist
        | Some (d, n) \<Rightarrow> if 0 < n \<and> in_int64 n then Inr (d, n) else Inl (GSError ''corrupt''))),
     gc_WriteIfGeneration = (\<lambda>b k d m ob. case ob of
          None \<Rightarrow> if m = 0 then (Some (d, 1), Inr 1) else (ob, Inl (GoogleError 412 []))
        | Some (d0, n) \<Rightarrow> if m = n \<and> 0 < n \<and> in_int64 (n + 1) then (Some (d, n + 1), Inr (n + 1)) else (ob, Inl (GoogleError 412 [])))\<rparr>"

definition gs_valid :: "(string \<times> goint) option \<Rightarrow> (string \<times> goint) option" where
  "gs_valid ob = (case ob of Some (d, n) \<Rightarrow> if 0 < n \<and> in_int64 n then ob else None | None \<Rightarrow> None)"

interpretation gs_object: gs_service gs_object g key gs_valid
  by unfold_locales (auto simp: gs_object_def gs_valid_def int64_defs split: option.splits if_splits prod.splits)

section \<open>Properties\<close>



text \<open>
  Claim C34. The file backend stores what it is given: after a successful write the key reads
  back as the data written and every key with another path reads as before; after a
  successful delete the key does not read back.
\<close>

theorem File_write_read:
  "(File_Write f key d s = (s', None) \<longrightarrow> File_Read f key s' = Inr d \<and>
      (\<forall>key'. joinPath (fl_dir f) key' \<noteq> joinPath (fl_dir f) key \<longrightarrow> File_Read f key' s' = File_Read f key' s)) \<and>
   (File_Delete f key s = (s', None) \<longrightarrow> isl (File_Read f key s') \<and>
      (\<forall>key'. joinPath (fl_dir f) key' \<noteq> joinPath (fl_dir f) key \<longrightarrow> File_Read f key' s' = File_Read f key' s))"
proof -
  have v: "validateKeyPath b k = Inr p \<Longrightarrow> p = joinPath b k" for b k p
    by (auto simp: validateKeyPath_def Let_def split: if_splits)
  have w: "File_Read f key' s' = File_Read f key' s"
    if "\<And>q. q \<noteq> joinPath (fl_dir f) key \<Longrightarrow> os_readFile s' q = os_readFile s q \<and> os_exists s' q = os_exists s q"
      "joinPath (fl_dir f) key' \<noteq> joinPath (fl_dir f) key" for key'
    using that v [of "fl_dir f" key'] by (auto simp: File_Read_def IsFileExist_def split: sum.splits)
  have "File_Read f key s' = Inr d \<and> (\<forall>key'. joinPath (fl_dir f) key' \<noteq> joinPath (fl_dir f) key \<longrightarrow> File_Read f key' s' = File_Read f key' s)"
    if "File_Write f key d s = (s', None)"
  proof -
    have p: "validateKeyPath (fl_dir f) key = Inr (joinPath (fl_dir f) key)" "os_writeFile (joinPath (fl_dir f) key) d s = (s', None)"
      using that v by (auto simp: File_Write_def split: if_splits option.splits sum.splits)
    with os_writeFile_read [OF p(2)] w show ?thesis by (simp add: File_Read_def IsFileExist_def)
  qed
  moreover have "isl (File_Read f key s') \<and> (\<forall>key'. joinPath (fl_dir f) key' \<noteq> joinPath (fl_dir f) key \<longrightarrow> File_Read f key' s' = File_Read f key' s)"
    if "File_Delete f key s = (s', None)"
  proof -
    have p: "validateKeyPath (fl_dir f) key = Inr (joinPath (fl_dir f) key)" "os_remove (joinPath (fl_dir f) key) s = (s', None)"
      using that v by (auto simp: File_Delete_def split: if_splits option.splits sum.splits)
    with os_remove_read [OF p(2)] w show ?thesis by (auto simp: File_Read_def split: sum.splits)
  qed
  ultimately show ?thesis by blast
qed

definition cache_dir :: File where
  "cache_dir = \<lparr>fl_dir = ''/c'', fl_MaxSize = 67108864, fl_registryTTL = 0\<rparr>"

definition empty_dir :: fs where
  "empty_dir = \<lparr>fs_files = [(''/c/old'', ''o'')], fs_dirs = [(''/c'', 64)], fs_denied = (\<lambda>_. False)\<rparr>"

theorem File_write_read_witness:
  "File_Read cache_dir ''current'' (fst (File_Write cache_dir ''current'' ''v1'' empty_dir)) = Inr ''v1'' \<and>
   File_Read cache_dir ''old'' (fst (File_Write cache_dir ''current'' ''v1'' empty_dir)) = Inr ''o''"
proof -
  have w: "snd (File_Write cache_dir ''current'' ''v1'' empty_dir) = None" by code_simp
  have o: "File_Read cache_dir ''old'' empty_dir = Inr ''o''" "joinPath (fl_dir cache_dir) ''old'' \<noteq> joinPath (fl_dir cache_dir) ''current''"
    by code_simp+
  from w have "File_Write cache_dir ''current'' ''v1'' empty_dir = (fst (File_Write cache_dir ''current'' ''v1'' empty_dir), None)"
    by (metis prod.collapse)
  note w' = mp [OF conjunct1 [OF File_write_read] this]
  have "File_Read cache_dir ''old'' (fst (File_Write cache_dir ''current'' ''v1'' empty_dir)) = File_Read cache_dir ''old'' empty_dir"
    using conjunct2 [OF w'] o(2) by blast
  with conjunct1 [OF w'] o(1) show ?thesis by simp
qed


definition plain_s3 :: S3 where
  "plain_s3 = \<lparr>s3_Bucket = ''b'', s3_Prefix = ''p/'', s3_Region = ''r'', s3_Endpoint = [], s3_dir = ''/c'', s3_MaxSize = 67108864, s3_registryTTL = 0\<rparr>"


fun serves :: "'o S3Client \<Rightarrow> S3 \<Rightarrow> 'o \<Rightarrow> string option \<Rightarrow> s3_page list \<Rightarrow> bool" where
  "serves cl c ob token [] = False"
| "serves cl c ob token (p # ps) =
     (sc_ListObjectsV2 cl (s3_Bucket c) (s3_Prefix c) token ob = (ob, Inr p) \<and>
      (if ps = [] then pg_IsTruncated p \<noteq> Some True else pg_IsTruncated p = Some True \<and> serves cl c ob (pg_Next p) ps))"

lemma S3_listFrom_pages:
  "serves cl c ob token pages \<Longrightarrow>
   S3_listFrom cl c token keys ob = Some (ob, Inr (keys @ concat (map (pageKeys (s3_Prefix c) \<circ> pg_Keys) pages)))"
proof (induction pages arbitrary: token keys)
  case (Cons p ps)
  then show ?case by (subst S3_listFrom.simps) (auto simp: Let_def comp_def split: if_splits)
qed simp

text \<open>
  Claim C37. Listing an S3 prefix ends and is complete: for every sequence of pages that the
  service returns along the continuation tokens, up to the first one that is not truncated,
  the result is the keys of all pages in order, without the prefix and without empty names.
\<close>

theorem S3_List_complete:
  assumes "serves cl c ob None pages"
  shows "S3_List cl c ob = Some (ob, Inr (concat (map (pageKeys (s3_Prefix c) \<circ> pg_Keys) pages)))"
  using S3_listFrom_pages [OF assms, of "[]"] by (simp add: S3_List_def)

definition two_pages :: "unit S3Client" where
  "two_pages = \<lparr>sc_GetObject = (\<lambda>b k ob. (ob, Inl NoSuchKey)), sc_PutObject = (\<lambda>b k d cond ob. (ob, Inl (S3Error []))),
     sc_DeleteObject = (\<lambda>b k ob. (ob, None)),
     sc_ListObjectsV2 = (\<lambda>b p t ob. (ob, Inr (if t = None
        then \<lparr>pg_Keys = [Some ''p/'', Some ''p/v1--a''], pg_IsTruncated = Some True, pg_Next = Some ''t''\<rparr>
        else \<lparr>pg_Keys = [None, Some ''p/current''], pg_IsTruncated = Some False, pg_Next = None\<rparr>)))\<rparr>"

theorem S3_List_complete_witness: "S3_List two_pages plain_s3 () = Some ((), Inr [''v1--a'', ''current''])"
proof -
  let ?pages = "[\<lparr>pg_Keys = [Some ''p/'', Some ''p/v1--a''], pg_IsTruncated = Some True, pg_Next = Some ''t''\<rparr>,
    \<lparr>pg_Keys = [None, Some ''p/current''], pg_IsTruncated = Some False, pg_Next = None\<rparr>]"
  have "serves two_pages plain_s3 () None ?pages" by (simp add: two_pages_def)
  from S3_List_complete [OF this] show ?thesis by (simp add: plain_s3_def pageKeys_def List.map_filter_def trimPrefix_def hasPrefix_def)
qed

fun extracted_path :: "extracted \<Rightarrow> string" where
  "extracted_path (ExtractedDir p m) = p" | "extracted_path (ExtractedFile p m d) = p"

fun extracted_mode :: "extracted \<Rightarrow> nat" where
  "extracted_mode (ExtractedDir p m) = m" | "extracted_mode (ExtractedFile p m d) = m"

definition safe_extraction :: "string \<Rightarrow> archive_entry list \<Rightarrow> extracted \<Rightarrow> bool" where
  "safe_extraction dst fs x = (prefix (comps dst) (comps (extracted_path x)) \<and> ''..'' \<notin> set (comps (extracted_path x)) \<and>
     extracted_mode x < 512 \<and> (\<exists>f\<in>set fs. \<not> ae_Symlink f \<and> extracted_path x = joinPath dst (ae_Name f)))"

lemma extractEntry_safe:
  assumes "rootedPath dst" "extractEntry dst f = Inr x" "f \<in> set fs"
  shows "safe_extraction dst fs x"
proof -
  have x: "x \<in> {ExtractedDir (joinPath dst (ae_Name f)) (perm_bits (ae_Mode f)),
      ExtractedFile (joinPath dst (ae_Name f)) (perm_bits (ae_Mode f)) (ae_Content f)}" "\<not> ae_Symlink f"
      "hasPrefix (cleanPath (joinPath dst (ae_Name f)) @ ''/'') (cleanPath dst @ ''/'') \<or> cleanPath (joinPath dst (ae_Name f)) = cleanPath dst"
    using assms(2) by (auto simp: extractEntry_def Let_def split: if_splits)
  then show ?thesis using inside_iff(1) [OF assms(1) x(3)] assms(3) by (auto simp: safe_extraction_def perm_bits_def)
qed

lemma extractAll_safe:
  assumes "rootedPath dst"
  shows "set fs \<subseteq> set all \<Longrightarrow> list_all (safe_extraction dst all) acc \<Longrightarrow> list_all (safe_extraction dst all) (fst (snd (extractAll app dst fs acc w)))"
proof (induction fs arbitrary: acc w)
  case (Cons f fs)
  then show ?case using extractEntry_safe [OF assms, of f _ all] by (auto split: sum.splits prod.splits option.splits)
qed simp

text \<open>
  Claim C15. Extracting an archive cannot write outside its destination: for an absolute
  destination every path that is written lies below it, no symbolic link is ever extracted,
  and the permission bits passed on are at most 0777.
\<close>

theorem ExtractArchive_within:
  assumes "rootedPath dst" and "archiveFormat src = Some format" and "entries format src = Inr fs"
  shows "\<forall>x\<in>set (fst (snd (ExtractArchive entries app srcExists src dst w))). safe_extraction dst fs x"
  using extractAll_safe [OF assms(1), of fs fs "[]" app w] assms(2,3) by (simp add: ExtractArchive_def list_all_iff)

definition slip_archive :: "archive_entry list" where
  "slip_archive = [\<lparr>ae_Name = ''bin/app'', ae_Symlink = False, ae_Dir = False, ae_Mode = 2541, ae_Content = ''x''\<rparr>,
     \<lparr>ae_Name = ''../../etc/cron'', ae_Symlink = False, ae_Dir = False, ae_Mode = 420, ae_Content = ''y''\<rparr>]"

theorem ExtractArchive_within_witness:
  "fst (snd (ExtractArchive (\<lambda>fmt src. Inr slip_archive) (\<lambda>x w. (w, None)) True ''app.tgz'' ''/srv/r'' ())) =
     [ExtractedFile ''/srv/r/bin/app'' 493 ''x''] \<and>
   safe_extraction ''/srv/r'' slip_archive (ExtractedFile ''/srv/r/bin/app'' 493 ''x'')"
proof -
  have "rootedPath ''/srv/r''" "archiveFormat ''app.tgz'' = Some TarGz" by code_simp+
  from ExtractArchive_within [OF this, of "\<lambda>fmt src. Inr slip_archive" slip_archive "\<lambda>x w. (w, None)" True "()"]
  have "\<forall>x\<in>set (fst (snd (ExtractArchive (\<lambda>fmt src. Inr slip_archive) (\<lambda>x w. (w, None)) True ''app.tgz'' ''/srv/r'' ()))).
      safe_extraction ''/srv/r'' slip_archive x" by simp
  moreover have "fst (snd (ExtractArchive (\<lambda>fmt src. Inr slip_archive) (\<lambda>x w. (w, None)) True ''app.tgz'' ''/srv/r'' ())) =
     [ExtractedFile ''/srv/r/bin/app'' 493 ''x'']" by code_simp
  ultimately show ?thesis by simp
qed

text \<open>A cache directory given as the root or as the current directory makes every key illegal.\<close>

theorem validateKeyPath_degenerate_base:
  "isl (validateKeyPath ''.'' ''current'') \<and> isl (validateKeyPath ''/'' ''current'')"
  by code_simp

end
