(* ===== verification/Registry_Sources.thy ===== *)
theory Registry_Sources
  imports Registry_Version Cache_Store
begin

text \<open>
  The registries that answer which release is current: the interface and its dispatch
  (registry/registry.go), the choice of an artifact for the platform (registry/platform.go),
  GitHub releases (registry/ghr.go), S3 and Cloud Storage directories (registry/s3.go,
  registry/gs.go) and the gRPC registry (registry/grpc.go).

  The clients of these services, url.Parse and the decoder of query parameters are
  parameters. A client is a function on the state of the service; a paged listing that the
  client library iterates is the list of its pages, an error ending it.
\<close>

section \<open>The interface (registry.go)\<close>

record CurrentResponse =
  cr_ID :: string
  cr_Tag :: string
  cr_ArtifactURL :: string
  cr_CreatedAt :: "instant option"
  cr_Slot :: string

record ReportRequest =
  rr_ID :: string
  rr_Tag :: string
  rr_Command :: string
  rr_Err :: "string option"

text \<open>Errors; a nil pointer that is followed is a panic.\<close>

datatype registry_error =
    ArtifactNotFoundError string "instant option" string
  | RegistryError string
  | RegistryPanic

fun IsWithinGracePeriod :: "instant \<Rightarrow> duration \<Rightarrow> registry_error \<Rightarrow> bool" where
  "IsWithinGracePeriod now grace (ArtifactNotFoundError name None msg) = False"
| "IsWithinGracePeriod now grace (ArtifactNotFoundError name (Some t) msg) = (grace \<noteq> 0 \<and> time_Sub now t < grace)"
| "IsWithinGracePeriod now grace _ = False"

fun find_error_text :: "find_error \<Rightarrow> string" where
  "find_error_text NoValidVersion = ''no valid versioned object found''"
| "find_error_text CalVerFormatEmpty = ''calver format is empty''"
| "find_error_text (CalVerNoSpecifiers f) = ''calver format '' @ goQuote f @
     '' contains no valid specifiers (expected YYYY, YY, 0Y, MM, 0M, WW, 0W, DD, 0D, or MICRO)''"

text \<open>The two kinds of versions behind the interface Version.\<close>

datatype version = SemVersion SemVer | CalVersion CalVer

fun version_String :: "version \<Rightarrow> string" where
  "version_String (SemVersion v) = SemVer_String v"
| "version_String (CalVersion v) = CalVer_String v"

fun GetBuildMetadata :: "version \<Rightarrow> string" where
  "GetBuildMetadata (SemVersion v) = sv_BuildMetadata v"
| "GetBuildMetadata (CalVersion v) = cv_BuildMetadata v"

text \<open>The choice between the two searches, which every registry makes in the same way.\<close>

definition findLatest :: "string \<Rightarrow> bool \<Rightarrow> string list \<Rightarrow> find_error + (version \<times> string)" where
  "findLatest calver pre names =
     (if calver \<noteq> [] then map_sum id (apfst CalVersion) (FindLatestCalVer names calver pre)
      else map_sum id (apfst SemVersion) (FindLatestSemVer names pre))"

section \<open>The platform (platform.go)\<close>

record platform =
  pl_TestArch :: string
  pl_TestOS :: string
  pl_GOARCH :: string
  pl_GOOS :: string

definition getArch :: "platform \<Rightarrow> string" where
  "getArch pl = (if pl_TestArch pl \<noteq> [] then pl_TestArch pl else pl_GOARCH pl)"

definition getOS :: "platform \<Rightarrow> string" where
  "getOS pl = (if pl_TestOS pl \<noteq> [] then pl_TestOS pl else pl_GOOS pl)"

definition matchesPlatform :: "string \<Rightarrow> string list \<Rightarrow> string list \<Rightarrow> bool" where
  "matchesPlatform artifactName archMatches osMatches =
     (let n = toLower artifactName
      in list_ex (strContains n) archMatches \<and> list_ex (strContains n) osMatches)"

definition isArchiveFile :: "string \<Rightarrow> bool" where
  "isArchiveFile filename =
     (let name = toLower filename
      in list_ex (hasSuffix name) [''.tar.gz'', ''.tgz'', ''.tar.bz2'', ''.tbz2'', ''.tar.xz'', ''.txz'', ''.tar'', ''.zip''])"

definition archMatches :: "platform \<Rightarrow> string list" where
  "archMatches pl = getArch pl # (if getArch pl = ''amd64'' then [''x86_64''] else [])"

definition osMatches :: "platform \<Rightarrow> string list" where
  "osMatches pl = getOS pl # (if getOS pl = ''darwin'' then [''macos''] else [])"

definition MatchArtifactByPlatform :: "platform \<Rightarrow> string list \<Rightarrow> string option" where
  "MatchArtifactByPlatform pl artifactNames =
     find (\<lambda>name. isArchiveFile name \<and> matchesPlatform name (archMatches pl) (osMatches pl)) artifactNames"

section \<open>GitHub releases (ghr.go)\<close>

record release =
  rl_ID :: goint
  rl_TagName :: string
  rl_Draft :: "bool option"
  rl_PublishedAt :: "instant option"
  rl_Assets :: "string list"

record GHR =
  gh_Owner :: string
  gh_Repo :: string
  gh_Artifact :: string
  gh_PreRelease :: bool
  gh_CalVer :: string

text \<open>
  ListReleases takes a page number and returns the releases of that page and the number of
  the next one, 0 on the last; Upload posts a text asset under a name to a release.
\<close>

record 'w GitHub =
  gi_ListReleases :: "string \<Rightarrow> string \<Rightarrow> goint \<Rightarrow> 'w \<Rightarrow> 'w \<times> (string + release list \<times> goint)"
  gi_Upload :: "string \<Rightarrow> string \<Rightarrow> goint \<Rightarrow> string \<Rightarrow> string \<Rightarrow> 'w \<Rightarrow> 'w \<times> string option"

text \<open>The name of the host in logs, from the host of the base URL of the client.\<close>

definition GHR_host :: "string \<Rightarrow> string" where
  "GHR_host h = (if h \<noteq> ''api.github.com'' then h else ''github.com'')"

definition NewGHR :: "(string \<Rightarrow> string) \<Rightarrow> (string \<Rightarrow> string + purl) \<Rightarrow> (GHR \<Rightarrow> (string \<times> string) list \<Rightarrow> string + GHR) \<Rightarrow>
    string option \<Rightarrow> string \<Rightarrow> string + GHR" where
  "NewGHR getenv urlParse decode clientErr u =
     (case urlParse u of
        Inl err \<Rightarrow> Inl err
      | Inr ur \<Rightarrow> (case decode \<lparr>gh_Owner = pu_Host ur, gh_Repo = trimPrefix (removeTrailingSlash (pu_Path ur)) ''/'',
              gh_Artifact = [], gh_PreRelease = False, gh_CalVer = []\<rparr> (pu_Query ur) of
          Inl err \<Rightarrow> Inl err
        | Inr g \<Rightarrow>
            let a = getenv ''GITHUB_ARTIFACT'';
                g = (if gh_Artifact g = [] \<and> a \<noteq> [] then g\<lparr>gh_Artifact := a\<rparr> else g)
            in (case clientErr of Some err \<Rightarrow> Inl err | None \<Rightarrow> Inr g)))"

text \<open>The releases of a page that are no drafts; following a missing draft flag panics.\<close>

fun nonDrafts :: "release list \<Rightarrow> release list option" where
  "nonDrafts [] = Some []"
| "nonDrafts (r # rs) = (case rl_Draft r of
     None \<Rightarrow> None
   | Some d \<Rightarrow> map_option (\<lambda>rs. if d then rs else r # rs) (nonDrafts rs))"

partial_function (option) ghr_pages ::
    "'w GitHub \<Rightarrow> GHR \<Rightarrow> goint \<Rightarrow> release list \<Rightarrow> 'w \<Rightarrow> ('w \<times> (registry_error + release list)) option" where
  "ghr_pages cl g page allReleases w =
     (case gi_ListReleases cl (gh_Owner g) (gh_Repo g) page w of
        (w, Inl err) \<Rightarrow> Some (w, Inl (RegistryError (''failed github.Repositories.ListReleases: '' @ err)))
      | (w, Inr (releases, nextPage)) \<Rightarrow> (case nonDrafts releases of
            None \<Rightarrow> Some (w, Inl RegistryPanic)
          | Some rs \<Rightarrow>
              if nextPage = 0 then Some (w, Inr (allReleases @ rs))
              else ghr_pages cl g nextPage (allReleases @ rs) w))"

definition releaseMap :: "release list \<Rightarrow> string \<Rightarrow> release option" where
  "releaseMap rs = map_of (rev (map (\<lambda>r. (rl_TagName r, r)) rs))"

definition ghr_choose :: "GHR \<Rightarrow> release list \<Rightarrow> registry_error + release option" where
  "ghr_choose g rs =
     (if rs = [] then Inl (RegistryError ''no non-draft releases found'')
      else case findLatest (gh_CalVer g) (gh_PreRelease g) (map rl_TagName rs) of
             Inl e \<Rightarrow> Inl (RegistryError (''failed to find latest version: '' @ find_error_text e))
           | Inr (_, tag) \<Rightarrow> Inr (releaseMap rs tag))"

definition latest :: "'w GitHub \<Rightarrow> GHR \<Rightarrow> 'w \<Rightarrow> ('w \<times> (registry_error + release option)) option" where
  "latest cl g w = map_option (\<lambda>(w, r). (w, case r of Inl e \<Rightarrow> Inl e | Inr rs \<Rightarrow> ghr_choose g rs)) (ghr_pages cl g 1 [] w)"

definition ghr_artifact :: "platform \<Rightarrow> GHR \<Rightarrow> release \<Rightarrow> registry_error + string" where
  "ghr_artifact pl g rel =
     (if gh_Artifact g \<noteq> [] then
        (if gh_Artifact g \<in> set (rl_Assets rel) then Inr (gh_Artifact g)
         else Inl (ArtifactNotFoundError (gh_Artifact g) (rl_PublishedAt rel) (''artifact not found: '' @ gh_Artifact g)))
      else case MatchArtifactByPlatform pl (rl_Assets rel) of
             Some name \<Rightarrow> Inr name
           | None \<Rightarrow> Inl (ArtifactNotFoundError [] (rl_PublishedAt rel) ''artifact not found: ''))"

text \<open>now is the formatted current time.\<close>

definition GHR_Current :: "'w GitHub \<Rightarrow> platform \<Rightarrow> string \<Rightarrow> GHR \<Rightarrow> 'w \<Rightarrow> ('w \<times> (registry_error + CurrentResponse)) option" where
  "GHR_Current cl pl now g w = map_option (\<lambda>(w, r). (w,
     case r of
       Inl e \<Rightarrow> Inl e
     | Inr None \<Rightarrow> Inl RegistryPanic
     | Inr (Some rel) \<Rightarrow> (case ghr_artifact pl g rel of
         Inl e \<Rightarrow> Inl e
       | Inr name \<Rightarrow> Inr \<lparr>cr_ID = now, cr_Tag = rl_TagName rel,
           cr_ArtifactURL = ''ghr://'' @ gh_Owner g @ ''/'' @ gh_Repo g @ ''/tag/'' @ rl_TagName rel @ ''/'' @ name,
           cr_CreatedAt = rl_PublishedAt rel, cr_Slot = extractSlot (rl_TagName rel) (gh_CalVer g)\<rparr>))) (latest cl g w)"

definition shippedInfo :: "string \<Rightarrow> string \<Rightarrow> string \<Rightarrow> string" where
  "shippedInfo hostname command now = ''shipped to '' @ toLower hostname @ '' '' @ command @ '' at '' @ now"

definition shippedFile :: "string \<Rightarrow> string" where
  "shippedFile info = replaceAllC (CHR '' '') (CHR ''_'') info @ ''.txt''"

partial_function (option) ghr_report_pages ::
    "'w GitHub \<Rightarrow> GHR \<Rightarrow> string \<Rightarrow> string \<Rightarrow> goint \<Rightarrow> 'w \<Rightarrow> ('w \<times> string option) option" where
  "ghr_report_pages cl g tag info page w =
     (case gi_ListReleases cl (gh_Owner g) (gh_Repo g) page w of
        (w, Inl err) \<Rightarrow> Some (w, Some err)
      | (w, Inr (releases, nextPage)) \<Rightarrow> (case find (\<lambda>r. rl_TagName r = tag) releases of
            Some r \<Rightarrow> Some (gi_Upload cl (gh_Owner g) (gh_Repo g) (rl_ID r) (shippedFile info) info w)
          | None \<Rightarrow>
              if nextPage = 0 then Some (w, Some (''release not found: '' @ tag))
              else ghr_report_pages cl g tag info nextPage w))"

definition GHR_Report :: "'w GitHub \<Rightarrow> string \<Rightarrow> string \<Rightarrow> GHR \<Rightarrow> ReportRequest \<Rightarrow> 'w \<Rightarrow> ('w \<times> string option) option" where
  "GHR_Report cl hostname now g req w =
     (case rr_Err req of
        Some err \<Rightarrow> Some (w, Some err)
      | None \<Rightarrow> ghr_report_pages cl g (rr_Tag req) (shippedInfo hostname (rr_Command req) now) 1 w)"

section \<open>S3 directories (s3.go)\<close>

record object_info =
  ob_Key :: string
  ob_LastModified :: "instant option"

record RegistryS3 =
  r3_Bucket :: string
  r3_Prefix :: string
  r3_Region :: string
  r3_Endpoint :: string
  r3_Artifact :: string
  r3_PreRelease :: bool
  r3_CalVer :: string

text \<open>
  The listings of the client library: the pages of the objects below a prefix and of the
  common prefixes below it, each page or the error that ends the iteration, and the first
  page of a listing limited to one key.
\<close>

record 'w S3Lister =
  ls_Objects :: "string \<Rightarrow> string \<Rightarrow> 'w \<Rightarrow> 'w \<times> (string + object_info list) list"
  ls_Directories :: "string \<Rightarrow> string \<Rightarrow> 'w \<Rightarrow> 'w \<times> (string + string list) list"
  ls_First :: "string \<Rightarrow> string \<Rightarrow> 'w \<Rightarrow> 'w \<times> (string + object_info list) option"
  ls_Put :: "string \<Rightarrow> string \<Rightarrow> string \<Rightarrow> 'w \<Rightarrow> 'w \<times> string option"

text \<open>The loop over the pages.\<close>

fun collectPages :: "(string + 'a list) list \<Rightarrow> string + 'a list" where
  "collectPages [] = Inr []"
| "collectPages (Inl err # ps) = Inl (''failed to list objects: '' @ err)"
| "collectPages (Inr p # ps) = map_sum id (append p) (collectPages ps)"

definition NewRegistryS3 :: "(string \<Rightarrow> string + purl) \<Rightarrow> (RegistryS3 \<Rightarrow> (string \<times> string) list \<Rightarrow> string + RegistryS3) \<Rightarrow>
    string option \<Rightarrow> string \<Rightarrow> string + RegistryS3" where
  "NewRegistryS3 urlParse decode configErr u =
     (case urlParse u of
        Inl err \<Rightarrow> Inl err
      | Inr ur \<Rightarrow>
          let splitted = splitN2 (trimPrefix (pu_Path ur) ''/'') ''/'';
              bucket = hd splitted;
              pre = (if length splitted > 1 then trimPrefix (addTrailingSlash (splitted ! 1)) ''/'' else [])
          in (case decode \<lparr>r3_Bucket = bucket, r3_Prefix = pre, r3_Region = pu_Host ur, r3_Endpoint = [],
                 r3_Artifact = [], r3_PreRelease = False, r3_CalVer = []\<rparr> (pu_Query ur) of
                Inl err \<Rightarrow> Inl err
              | Inr s \<Rightarrow>
                  if r3_Region s = [] then Inl ''region is required: s3://<region>/<bucket>/<prefix>''
                  else if r3_Bucket s = [] then Inl ''bucket is required: s3://<region>/<bucket>/<prefix>''
                  else (case configErr of Some err \<Rightarrow> Inl err | None \<Rightarrow> Inr s)))"

definition extractFilenameFromObjectKey :: "string \<Rightarrow> string \<Rightarrow> string" where
  "extractFilenameFromObjectKey key pre = trimPrefix (removeTrailingSlash key) pre"

definition chooseDirectory :: "string \<Rightarrow> bool \<Rightarrow> string \<Rightarrow> string list \<Rightarrow> registry_error + (string \<times> version)" where
  "chooseDirectory calver pre base dirs =
     (let named = map (\<lambda>d. (extractFilenameFromObjectKey d base, d)) dirs
      in case findLatest calver pre (map fst named) of
           Inl e \<Rightarrow> Inl (RegistryError (find_error_text e))
         | Inr (v, name) \<Rightarrow> (case map_of (rev named) name of Some d \<Rightarrow> Inr (d, v) | None \<Rightarrow> Inl RegistryPanic))"

definition S3_LatestVersion :: "'w S3Lister \<Rightarrow> RegistryS3 \<Rightarrow> 'w \<Rightarrow> 'w \<times> (registry_error + (string \<times> version))" where
  "S3_LatestVersion cl s w = (case ls_Directories cl (r3_Bucket s) (r3_Prefix s) w of
     (w, pages) \<Rightarrow> (w, case collectPages pages of
        Inl err \<Rightarrow> Inl (RegistryError err)
      | Inr dirs \<Rightarrow> chooseDirectory (r3_CalVer s) (r3_PreRelease s) (r3_Prefix s) dirs))"

definition S3_ListObjects :: "'w S3Lister \<Rightarrow> RegistryS3 \<Rightarrow> string \<Rightarrow> 'w \<Rightarrow> 'w \<times> (registry_error + object_info list)" where
  "S3_ListObjects cl s pre w = (case ls_Objects cl (r3_Bucket s) pre w of
     (w, pages) \<Rightarrow> (w, map_sum RegistryError id (collectPages pages)))"

text \<open>
  The artifact of a directory and its time: the configured name, else the first one for the
  platform; of two objects with one name the map keeps the last.
\<close>

definition selectObject :: "platform \<Rightarrow> string \<Rightarrow> string \<Rightarrow> object_info list \<Rightarrow> (string \<times> instant option) option" where
  "selectObject pl artifact pre objs =
     (let named = map (\<lambda>ob. (extractFilenameFromObjectKey (ob_Key ob) pre, ob_LastModified ob)) objs
      in if artifact \<noteq> [] then find (\<lambda>(name, t). name = artifact) named
         else map_option (\<lambda>name. (name, Option.bind (map_of (rev named) name) id))
                (MatchArtifactByPlatform pl (map fst named)))"

definition S3_getVersionDirectoryCreatedAt :: "'w S3Lister \<Rightarrow> RegistryS3 \<Rightarrow> string \<Rightarrow> 'w \<Rightarrow> 'w \<times> instant option" where
  "S3_getVersionDirectoryCreatedAt cl s pre w = (case ls_First cl (r3_Bucket s) pre w of
     (w, Some (Inr (ob # _))) \<Rightarrow> (w, ob_LastModified ob) | (w, _) \<Rightarrow> (w, None))"

definition S3_buildArtifactURL :: "RegistryS3 \<Rightarrow> string \<Rightarrow> string" where
  "S3_buildArtifactURL s key = ''s3://'' @ r3_Region s @ ''/'' @ r3_Bucket s @ ''/'' @ key @
     (if r3_Endpoint s \<noteq> [] then ''?endpoint='' @ r3_Endpoint s else [])"

definition S3_Current :: "'w S3Lister \<Rightarrow> platform \<Rightarrow> string \<Rightarrow> RegistryS3 \<Rightarrow> 'w \<Rightarrow> 'w \<times> (registry_error + CurrentResponse)" where
  "S3_Current cl pl now s w = (case S3_LatestVersion cl s w of
     (w, Inl e) \<Rightarrow> (w, Inl e)
   | (w, Inr (pre, v)) \<Rightarrow> (case S3_ListObjects cl s pre w of
       (w, Inl e) \<Rightarrow> (w, Inl e)
     | (w, Inr objs) \<Rightarrow> (case selectObject pl (r3_Artifact s) pre objs of
         None \<Rightarrow> (case S3_getVersionDirectoryCreatedAt cl s pre w of
           (w, t) \<Rightarrow> (w, Inl (ArtifactNotFoundError (pre @ r3_Artifact s) t (''artifact not found: '' @ pre @ r3_Artifact s))))
       | Some (name, t) \<Rightarrow> (w, Inr \<lparr>cr_ID = now, cr_Tag = version_String v,
           cr_ArtifactURL = S3_buildArtifactURL s (pre @ name), cr_CreatedAt = t, cr_Slot = GetBuildMetadata v\<rparr>))))"

definition S3_reportKey :: "RegistryS3 \<Rightarrow> string \<Rightarrow> string \<Rightarrow> string" where
  "S3_reportKey s tag info = r3_Prefix s @ tag @ ''/'' @ shippedFile info"

definition S3_PutTextObject :: "'w S3Lister \<Rightarrow> RegistryS3 \<Rightarrow> string \<Rightarrow> string \<Rightarrow> 'w \<Rightarrow> 'w \<times> string option" where
  "S3_PutTextObject cl s key content w = apsnd (map_option (append ''failed to upload text to S3: '')) (ls_Put cl (r3_Bucket s) key content w)"

definition S3_Report :: "'w S3Lister \<Rightarrow> string \<Rightarrow> string \<Rightarrow> RegistryS3 \<Rightarrow> ReportRequest \<Rightarrow> 'w \<Rightarrow> 'w \<times> string option" where
  "S3_Report cl hostname now s req w =
     (case rr_Err req of
        Some err \<Rightarrow> (w, Some err)
      | None \<Rightarrow> S3_PutTextObject cl s (S3_reportKey s (rr_Tag req) (shippedInfo hostname (rr_Command req) now)) [] w)"

section \<open>Cloud Storage directories (gs.go)\<close>

record RegistryGS =
  rg_Bucket :: string
  rg_Prefix :: string
  rg_Artifact :: string
  rg_PreRelease :: bool
  rg_CalVer :: string

text \<open>
  An entry of a listing is a directory, when Prefix is not empty, or an object. The iterator
  yields its entries one by one and may end with an error.
\<close>

record object_attrs =
  oa_Name :: string
  oa_Prefix :: string
  oa_Created :: instant

record 'w GSLister =
  gl_Objects :: "string \<Rightarrow> string \<Rightarrow> string \<Rightarrow> 'w \<Rightarrow> 'w \<times> (string + object_attrs) list"
  gl_Write :: "string \<Rightarrow> string \<Rightarrow> string \<Rightarrow> 'w \<Rightarrow> 'w \<times> string option"
  gl_Close :: "string \<Rightarrow> string \<Rightarrow> 'w \<Rightarrow> 'w \<times> string option"

definition NewRegistryGS :: "(string \<Rightarrow> string + purl) \<Rightarrow> (RegistryGS \<Rightarrow> (string \<times> string) list \<Rightarrow> string + RegistryGS) \<Rightarrow>
    string option \<Rightarrow> string \<Rightarrow> string + RegistryGS" where
  "NewRegistryGS urlParse decode clientErr u =
     (case urlParse u of
        Inl err \<Rightarrow> Inl err
      | Inr ur \<Rightarrow>
          let path = trimPrefix (pu_Path ur) ''/'';
              pre = (if path \<noteq> [] then addTrailingSlash path else [])
          in (case decode \<lparr>rg_Bucket = pu_Host ur, rg_Prefix = pre, rg_Artifact = [], rg_PreRelease = False, rg_CalVer = []\<rparr> (pu_Query ur) of
                Inl err \<Rightarrow> Inl err
              | Inr g \<Rightarrow>
                  if rg_Bucket g = [] then Inl ''bucket is required: gs://<bucket>/<prefix>''
                  else (case clientErr of Some err \<Rightarrow> Inl err | None \<Rightarrow> Inr g)))"

definition iterated :: "(string + object_attrs) list \<Rightarrow> string + object_attrs list" where
  "iterated xs = collectPages (map (map_sum id (\<lambda>a. [a])) xs)"

definition GS_LatestVersion :: "'w GSLister \<Rightarrow> RegistryGS \<Rightarrow> 'w \<Rightarrow> 'w \<times> (registry_error + (string \<times> version))" where
  "GS_LatestVersion cl g w = (case gl_Objects cl (rg_Bucket g) (rg_Prefix g) ''/'' w of
     (w, xs) \<Rightarrow> (w, case iterated xs of
        Inl err \<Rightarrow> Inl (RegistryError err)
      | Inr attrs \<Rightarrow> chooseDirectory (rg_CalVer g) (rg_PreRelease g) (rg_Prefix g)
          (filter (\<lambda>p. p \<noteq> []) (map oa_Prefix attrs))))"

definition GS_listObjects :: "'w GSLister \<Rightarrow> RegistryGS \<Rightarrow> string \<Rightarrow> 'w \<Rightarrow> 'w \<times> (registry_error + object_attrs list)" where
  "GS_listObjects cl g pre w = (case gl_Objects cl (rg_Bucket g) pre [] w of
     (w, xs) \<Rightarrow> (w, map_sum RegistryError id (iterated xs)))"

definition GS_getVersionDirectoryCreatedAt :: "'w GSLister \<Rightarrow> RegistryGS \<Rightarrow> string \<Rightarrow> 'w \<Rightarrow> 'w \<times> instant option" where
  "GS_getVersionDirectoryCreatedAt cl g pre w = (case gl_Objects cl (rg_Bucket g) pre [] w of
     (w, Inr a # _) \<Rightarrow> (w, Some (oa_Created a)) | (w, _) \<Rightarrow> (w, None))"

definition GS_buildArtifactURL :: "RegistryGS \<Rightarrow> string \<Rightarrow> string" where
  "GS_buildArtifactURL g name = ''gs://'' @ rg_Bucket g @ ''/'' @ name"

definition attrs_info :: "object_attrs \<Rightarrow> object_info" where
  "attrs_info a = \<lparr>ob_Key = oa_Name a, ob_LastModified = Some (oa_Created a)\<rparr>"

definition GS_Current :: "'w GSLister \<Rightarrow> platform \<Rightarrow> string \<Rightarrow> RegistryGS \<Rightarrow> 'w \<Rightarrow> 'w \<times> (registry_error + CurrentResponse)" where
  "GS_Current cl pl now g w = (case GS_LatestVersion cl g w of
     (w, Inl e) \<Rightarrow> (w, Inl e)
   | (w, Inr (pre, v)) \<Rightarrow> (case GS_listObjects cl g pre w of
       (w, Inl e) \<Rightarrow> (w, Inl e)
     | (w, Inr objs) \<Rightarrow> (case selectObject pl (rg_Artifact g) pre (map attrs_info objs) of
         None \<Rightarrow> (case GS_getVersionDirectoryCreatedAt cl g pre w of
           (w, t) \<Rightarrow> (w, Inl (ArtifactNotFoundError (pre @ rg_Artifact g) t (''artifact not found: '' @ pre @ rg_Artifact g))))
       | Some (name, t) \<Rightarrow> (w, Inr \<lparr>cr_ID = now, cr_Tag = version_String v,
           cr_ArtifactURL = GS_buildArtifactURL g (pre @ name), cr_CreatedAt = t, cr_Slot = GetBuildMetadata v\<rparr>))))"

text \<open>Close is deferred, so its error, with which an upload may fail, is dropped.\<close>

definition GS_putTextObject :: "'w GSLister \<Rightarrow> RegistryGS \<Rightarrow> string \<Rightarrow> string \<Rightarrow> 'w \<Rightarrow> 'w \<times> string option" where
  "GS_putTextObject cl g name content w =
     (case gl_Write cl (rg_Bucket g) name content w of
        (w, r) \<Rightarrow> (fst (gl_Close cl (rg_Bucket g) name w),
          map_option (append ''failed to write text to Google Cloud Storage: '') r))"

definition GS_Report :: "'w GSLister \<Rightarrow> string \<Rightarrow> string \<Rightarrow> RegistryGS \<Rightarrow> ReportRequest \<Rightarrow> 'w \<Rightarrow> 'w \<times> string option" where
  "GS_Report cl hostname now g req w =
     (case rr_Err req of
        Some err \<Rightarrow> (w, Some err)
      | None \<Rightarrow> GS_putTextObject cl g (rg_Prefix g @ rr_Tag req @ ''/'' @ shippedFile (shippedInfo hostname (rr_Command req) now)) [] w)"

section \<open>The gRPC registry (grpc.go)\<close>

record GRPC =
  gp_Target :: string
  gp_NoTLS :: bool
  gp_Artifact :: string
  gp_CalVer :: string

text \<open>grpc.NewClient takes the target and whether credentials are insecure; its outcome is an error, if any.\<close>

definition GRPC_Dial :: "(string \<Rightarrow> bool \<Rightarrow> string option) \<Rightarrow> string \<Rightarrow> GRPC \<Rightarrow> GRPC \<times> string option" where
  "GRPC_Dial newClient target g = (let g = g\<lparr>gp_Target := target\<rparr> in (g, newClient (gp_Target g) (gp_NoTLS g)))"

definition NewGRPC :: "(string \<Rightarrow> string + purl) \<Rightarrow> (GRPC \<Rightarrow> (string \<times> string) list \<Rightarrow> string + GRPC) \<Rightarrow>
    (string \<Rightarrow> bool \<Rightarrow> string option) \<Rightarrow> string \<Rightarrow> string + GRPC" where
  "NewGRPC urlParse decode newClient u =
     (case urlParse u of
        Inl err \<Rightarrow> Inl err
      | Inr ur \<Rightarrow> (case decode \<lparr>gp_Target = [], gp_NoTLS = False, gp_Artifact = [], gp_CalVer = []\<rparr> (pu_Query ur) of
          Inl err \<Rightarrow> Inl err
        | Inr gr \<Rightarrow> (case GRPC_Dial newClient (pu_Host ur) gr of (gr, Some err) \<Rightarrow> Inl err | (gr, None) \<Rightarrow> Inr gr)))"

record pb_CurrentResponse =
  pb_Id :: string
  pb_Tag :: string
  pb_ArtifactUrl :: string
  pb_CreatedAt :: "instant option"

record 'w RegistryService =
  rs_Current :: "string \<Rightarrow> string \<Rightarrow> string option \<Rightarrow> 'w \<Rightarrow> 'w \<times> (string + pb_CurrentResponse)"
  rs_Report :: "string \<Rightarrow> string \<Rightarrow> string \<Rightarrow> string option \<Rightarrow> 'w \<Rightarrow> 'w \<times> string option"

definition GRPC_Current :: "'w RegistryService \<Rightarrow> platform \<Rightarrow> GRPC \<Rightarrow> 'w \<Rightarrow> 'w \<times> (registry_error + CurrentResponse)" where
  "GRPC_Current cl pl c w =
     (case rs_Current cl (getArch pl) (getOS pl) (if gp_Artifact c \<noteq> [] then Some (gp_Artifact c) else None) w of
        (w, Inl err) \<Rightarrow> (w, Inl (RegistryError err))
      | (w, Inr r) \<Rightarrow> (w, Inr \<lparr>cr_ID = pb_Id r, cr_Tag = pb_Tag r, cr_ArtifactURL = pb_ArtifactUrl r,
          cr_CreatedAt = pb_CreatedAt r, cr_Slot = extractSlot (pb_Tag r) (gp_CalVer c)\<rparr>))"

definition GRPC_Report :: "'w RegistryService \<Rightarrow> GRPC \<Rightarrow> ReportRequest \<Rightarrow> 'w \<Rightarrow> 'w \<times> string option" where
  "GRPC_Report cl c req w = rs_Report cl (rr_ID req) (rr_Tag req) (rr_Command req) (rr_Err req) w"

section \<open>The dispatch on the scheme (registry.go)\<close>

datatype registry_kind = KindGHR | KindS3 | KindGS | KindGRPC | KindOCI

definition factories :: "string \<Rightarrow> registry_kind option" where
  "factories = map_of [(''ghr'', KindGHR), (''s3'', KindS3), (''gs'', KindGS), (''grpc'', KindGRPC), (''img'', KindOCI)]"

definition registry_New :: "(registry_kind \<Rightarrow> string \<Rightarrow> string + 'r) \<Rightarrow> string \<Rightarrow> string + 'r" where
  "registry_New construct url = (case factories (hd (splitN2 url ''://'')) of
     Some k \<Rightarrow> construct k url | None \<Rightarrow> Inl (''unsupported registry: '' @ url))"

section \<open>Lemmas\<close>

lemma isArchiveFile_iff: "isArchiveFile n \<longleftrightarrow> archiveFormat n \<noteq> None"
  by (auto simp: isArchiveFile_def archiveFormat_def Let_def)

lemma find_first: "find P xs = Some x \<longleftrightarrow> (\<exists>i<length xs. xs ! i = x \<and> P x \<and> (\<forall>j<i. \<not> P (xs ! j)))"
  by (auto simp: find_Some_iff)

lemma findLatest_semver:
  assumes "\<forall>n\<in>set names. \<forall>w. semver_candidate [] pre n = Some w \<longrightarrow> plain_pre (sv_PreRelease w)"
  shows "case findLatest [] pre names of
      Inl e \<Rightarrow> e = NoValidVersion \<and> (\<forall>n\<in>set names. semver_candidate [] pre n = None)
    | Inr (v, n) \<Rightarrow> n \<in> set names \<and> (\<exists>sv. v = SemVersion sv \<and> semver_candidate [] pre n = Some sv \<and>
        (\<forall>m\<in>set names. \<forall>w. semver_candidate [] pre m = Some w \<longrightarrow> SemVer_Compare w sv \<le> 0))"
proof (cases "latest_of (semver_candidate [] pre) SemVer_Compare names None")
  case None
  then have "\<forall>n\<in>set names. semver_candidate [] pre n = None" by (simp add: latest_of_None)
  with None show ?thesis
    by (simp add: findLatest_def FindLatestSemVer_def FindLatestSemVerWithSlot_def)
next
  case (Some r)
  obtain v n where r: "r = (v, n)" by (rule prod.exhaust)
  have "\<forall>n\<in>set names. \<forall>w. semver_candidate [] pre n = Some w \<longrightarrow> semver_ok w"
    using assms semver_candidate_ok by blast
  from semver.latest_of_max [OF this] Some r show ?thesis
    by (simp add: findLatest_def FindLatestSemVer_def FindLatestSemVerWithSlot_def)
qed

lemma releaseMap_Some:
  assumes "tag \<in> set (map rl_TagName rs)"
  shows "\<exists>r\<in>set rs. releaseMap rs tag = Some r \<and> rl_TagName r = tag"
proof -
  have "tag \<in> fst ` set (rev (map (\<lambda>r. (rl_TagName r, r)) rs))" using assms by force
  then obtain r where "releaseMap rs tag = Some r" unfolding releaseMap_def
    by (metis (no_types, lifting) map_of_eq_None_iff option.exhaust)
  with map_of_SomeD [OF this [unfolded releaseMap_def]] show ?thesis by auto
qed

section \<open>The artifact of the platform\<close>

definition for_platform :: "platform \<Rightarrow> string \<Rightarrow> bool" where
  "for_platform pl name = (archiveFormat name \<noteq> None \<and>
     (\<exists>a\<in>set (archMatches pl). strContains (toLower name) a) \<and> (\<exists>s\<in>set (osMatches pl). strContains (toLower name) s))"

lemma MatchArtifactByPlatform_find: "MatchArtifactByPlatform pl names = find (for_platform pl) names"
  by (rule arg_cong [where f = "\<lambda>P. find P names"] trans [OF MatchArtifactByPlatform_def])+
    (auto simp: for_platform_def fun_eq_iff isArchiveFile_iff matchesPlatform_def list_ex_iff Let_def)

text \<open>
  The automatic choice of an artifact takes the first name, in the order of the
  release, that names the architecture and the operating system and that the extraction of
  archives can open, so that a chosen artifact never fails as an unsupported archive; it finds
  nothing exactly when no name qualifies.
\<close>

theorem MatchArtifactByPlatform_first:
  "case MatchArtifactByPlatform pl names of
     None \<Rightarrow> \<forall>n\<in>set names. \<not> for_platform pl n
   | Some n \<Rightarrow> \<exists>i<length names. names ! i = n \<and> archiveFormat n \<noteq> None \<and> for_platform pl n \<and> (\<forall>j<i. \<not> for_platform pl (names ! j))"
proof (cases "find (for_platform pl) names")
  case None
  then have "\<forall>n\<in>set names. \<not> for_platform pl n" by (auto simp: find_None_iff)
  with None show ?thesis by (simp add: MatchArtifactByPlatform_find)
next
  case (Some n)
  then obtain i where "i < length names" "names ! i = n" "for_platform pl n" "\<forall>j<i. \<not> for_platform pl (names ! j)"
    by (auto simp: find_first)
  moreover from this have "archiveFormat n \<noteq> None" by (simp add: for_platform_def)
  ultimately show ?thesis using Some by (auto simp only: MatchArtifactByPlatform_find option.case)
qed

definition linux_amd64 :: platform where
  "linux_amd64 = \<lparr>pl_TestArch = [], pl_TestOS = [], pl_GOARCH = ''amd64'', pl_GOOS = ''linux''\<rparr>"

theorem MatchArtifactByPlatform_first_witness:
  "MatchArtifactByPlatform linux_amd64 [''sums.txt'', ''app_Linux_x86_64.tar.gz'', ''app_linux_amd64.zip''] = Some ''app_Linux_x86_64.tar.gz'' \<and>
   for_platform linux_amd64 ''app_Linux_x86_64.tar.gz'' \<and> \<not> for_platform linux_amd64 ''sums.txt''"
proof -
  let ?names = "[''sums.txt'', ''app_Linux_x86_64.tar.gz'', ''app_linux_amd64.zip'']"
  have m: "MatchArtifactByPlatform linux_amd64 ?names = Some ''app_Linux_x86_64.tar.gz''" by code_simp
  from MatchArtifactByPlatform_first [where pl = linux_amd64 and names = ?names] obtain i where
      i: "i < length ?names" "?names ! i = ''app_Linux_x86_64.tar.gz''" "for_platform linux_amd64 ''app_Linux_x86_64.tar.gz''"
         "\<forall>j<i. \<not> for_platform linux_amd64 (?names ! j)"
    unfolding m option.case by blast
  have "i = 1" using i(1,2) by (auto simp: less_Suc_eq)
  with i m show ?thesis by auto
qed

text \<open>A 32-bit ARM host takes the 64-bit archive when that comes first: the name contains the shorter one.\<close>

theorem MatchArtifactByPlatform_arm:
  "MatchArtifactByPlatform \<lparr>pl_TestArch = [], pl_TestOS = [], pl_GOARCH = ''arm'', pl_GOOS = ''linux''\<rparr>
     [''app_linux_arm64.tar.gz'', ''app_linux_arm.tar.gz''] = Some ''app_linux_arm64.tar.gz''"
  by code_simp

section \<open>The newest release\<close>

fun ghr_serves :: "'w GitHub \<Rightarrow> GHR \<Rightarrow> 'w \<Rightarrow> goint \<Rightarrow> release list list \<Rightarrow> bool" where
  "ghr_serves cl g w page [] = False"
| "ghr_serves cl g w page (rs # pages) = (list_all (\<lambda>r. rl_Draft r \<noteq> None) rs \<and>
     (\<exists>next. gi_ListReleases cl (gh_Owner g) (gh_Repo g) page w = (w, Inr (rs, next)) \<and>
        (if pages = [] then next = 0 else next \<noteq> 0 \<and> ghr_serves cl g w next pages)))"

definition published :: "release list list \<Rightarrow> release list" where
  "published pages = filter (\<lambda>r. rl_Draft r = Some False) (concat pages)"

definition newest_release :: "bool \<Rightarrow> release list \<Rightarrow> release \<Rightarrow> bool" where
  "newest_release pre rs r = (r \<in> set rs \<and> (\<exists>v. semver_candidate [] pre (rl_TagName r) = Some v \<and>
     (\<forall>m\<in>set rs. \<forall>w. semver_candidate [] pre (rl_TagName m) = Some w \<longrightarrow> SemVer_Compare w v \<le> 0)))"

lemma nonDrafts_filter: "list_all (\<lambda>r. rl_Draft r \<noteq> None) rs \<Longrightarrow> nonDrafts rs = Some (filter (\<lambda>r. rl_Draft r = Some False) rs)"
  by (induction rs) auto

lemma ghr_pages_serves:
  "ghr_serves cl g w page pages \<Longrightarrow> ghr_pages cl g page acc w = Some (w, Inr (acc @ published pages))"
proof (induction pages arbitrary: page acc)
  case (Cons rs pages)
  then show ?case
    by (subst ghr_pages.simps) (auto simp: nonDrafts_filter published_def split: if_splits)
qed simp

lemma ghr_choose_newest:
  assumes "gh_CalVer g = []"
    and "\<forall>r\<in>set rs. \<forall>v. semver_candidate [] (gh_PreRelease g) (rl_TagName r) = Some v \<longrightarrow> plain_pre (sv_PreRelease v)"
  shows "case ghr_choose g rs of
      Inl e \<Rightarrow> \<forall>r\<in>set rs. semver_candidate [] (gh_PreRelease g) (rl_TagName r) = None
    | Inr rel \<Rightarrow> \<exists>r. rel = Some r \<and> newest_release (gh_PreRelease g) rs r"
proof (cases "rs = []")
  case True
  then show ?thesis by (simp add: ghr_choose_def)
next
  case False
  have "\<forall>n\<in>set (map rl_TagName rs). \<forall>w. semver_candidate [] (gh_PreRelease g) n = Some w \<longrightarrow> plain_pre (sv_PreRelease w)"
    using assms(2) by simp
  note f = findLatest_semver [OF this]
  show ?thesis
  proof (cases "findLatest [] (gh_PreRelease g) (map rl_TagName rs)")
    case (Inl e)
    with f False assms(1) show ?thesis by (simp add: ghr_choose_def)
  next
    case (Inr vn)
    obtain v n where vn: "vn = (v, n)" by (rule prod.exhaust)
    with f Inr have n: "n \<in> set (map rl_TagName rs)"
        and m: "\<exists>sv. semver_candidate [] (gh_PreRelease g) n = Some sv \<and>
          (\<forall>m\<in>set rs. \<forall>w. semver_candidate [] (gh_PreRelease g) (rl_TagName m) = Some w \<longrightarrow> SemVer_Compare w sv \<le> 0)"
      by auto
    from releaseMap_Some [OF n] m show ?thesis
      using False Inr vn assms(1) by (auto simp: ghr_choose_def newest_release_def)
  qed
qed

text \<open>What a response offers of a release: one of its assets, the configured one or one for the platform.\<close>

definition offers :: "platform \<Rightarrow> GHR \<Rightarrow> release \<Rightarrow> string \<Rightarrow> bool" where
  "offers pl g rel url = (\<exists>a\<in>set (rl_Assets rel).
     (if gh_Artifact g \<noteq> [] then a = gh_Artifact g else for_platform pl a) \<and>
     url = ''ghr://'' @ gh_Owner g @ ''/'' @ gh_Repo g @ ''/tag/'' @ rl_TagName rel @ ''/'' @ a)"

lemma ghr_artifact_offered:
  "ghr_artifact pl g rel = Inr a \<Longrightarrow> a \<in> set (rl_Assets rel) \<and> (if gh_Artifact g \<noteq> [] then a = gh_Artifact g else for_platform pl a)"
  by (auto simp: ghr_artifact_def MatchArtifactByPlatform_find find_Some_iff split: if_splits option.splits)

lemma ghr_artifact_missing:
  "ghr_artifact pl g rel = Inl e \<Longrightarrow> e = ArtifactNotFoundError (gh_Artifact g) (rl_PublishedAt rel) (''artifact not found: '' @ gh_Artifact g)"
  by (auto simp: ghr_artifact_def split: if_splits option.splits)



definition hub_repo :: GHR where
  "hub_repo = \<lparr>gh_Owner = ''o'', gh_Repo = ''r'', gh_Artifact = [], gh_PreRelease = False, gh_CalVer = []\<rparr>"

definition hub_pages :: "release list list" where
  "hub_pages = [[\<lparr>rl_ID = 3, rl_TagName = ''v2.0.0'', rl_Draft = Some True, rl_PublishedAt = None, rl_Assets = []\<rparr>,
      \<lparr>rl_ID = 2, rl_TagName = ''v1.9.0'', rl_Draft = Some False, rl_PublishedAt = Some 5, rl_Assets = [''a_linux_amd64.zip'']\<rparr>],
     [\<lparr>rl_ID = 1, rl_TagName = ''v1.10.0'', rl_Draft = Some False, rl_PublishedAt = Some 7, rl_Assets = [''b_linux_amd64.zip'']\<rparr>]]"

definition hub :: "'w GitHub" where
  "hub = \<lparr>gi_ListReleases = (\<lambda>ow re page w. (w, Inr (if page = 1 then (hub_pages ! 0, 2) else (hub_pages ! 1, 0)))),
     gi_Upload = (\<lambda>ow re i name text w. (w, None))\<rparr>"


section \<open>Directories of versions\<close>

text \<open>Directories whose names are canonical: printing the parsed version gives the name back.\<close>

definition canonical_dirs :: "string \<Rightarrow> string list \<Rightarrow> bool" where
  "canonical_dirs base dirs = list_all (\<lambda>d. case ParseSemVer (extractFilenameFromObjectKey d base) of
     Some v \<Rightarrow> d = base @ SemVer_String v @ ''/'' | None \<Rightarrow> True) dirs"

definition newest_dir :: "bool \<Rightarrow> string \<Rightarrow> string list \<Rightarrow> string \<Rightarrow> SemVer \<Rightarrow> bool" where
  "newest_dir pre base dirs d v = (d \<in> set dirs \<and> semver_candidate [] pre (extractFilenameFromObjectKey d base) = Some v \<and>
     (\<forall>e\<in>set dirs. \<forall>u. semver_candidate [] pre (extractFilenameFromObjectKey e base) = Some u \<longrightarrow> SemVer_Compare u v \<le> 0))"

lemma chooseDirectory_newest:
  assumes "\<forall>d\<in>set dirs. \<forall>v. semver_candidate [] pre (extractFilenameFromObjectKey d base) = Some v \<longrightarrow> plain_pre (sv_PreRelease v)"
    and "chooseDirectory [] pre base dirs = Inr (d, ver)"
  shows "\<exists>v. ver = SemVersion v \<and> newest_dir pre base dirs d v"
proof -
  let ?named = "map (\<lambda>d. (extractFilenameFromObjectKey d base, d)) dirs"
  have "\<forall>n\<in>set (map fst ?named). \<forall>w. semver_candidate [] pre n = Some w \<longrightarrow> plain_pre (sv_PreRelease w)"
    using assms(1) by simp
  note f = findLatest_semver [OF this]
  from assms(2) obtain name where n: "findLatest [] pre (map fst ?named) = Inr (ver, name)" "map_of (rev ?named) name = Some d"
    by (auto simp: chooseDirectory_def Let_def split: sum.splits option.splits)
  from map_of_SomeD [OF n(2)] have d: "d \<in> set dirs" "extractFilenameFromObjectKey d base = name" by auto
  from f n(1) d show ?thesis by (auto simp: newest_dir_def)
qed


definition bucket :: "string list \<Rightarrow> unit S3Lister" where
  "bucket dirs = \<lparr>ls_Objects = (\<lambda>b p w. (w, [Inr [\<lparr>ob_Key = p @ ''a_linux_amd64.zip'', ob_LastModified = Some 3\<rparr>]])),
     ls_Directories = (\<lambda>b p w. (w, [Inr dirs])), ls_First = (\<lambda>b p w. (w, None)), ls_Put = (\<lambda>b k c w. (w, None))\<rparr>"

definition app_bucket :: RegistryS3 where
  "app_bucket = \<lparr>r3_Bucket = ''b'', r3_Prefix = ''p/'', r3_Region = ''r'', r3_Endpoint = [], r3_Artifact = [], r3_PreRelease = False, r3_CalVer = []\<rparr>"


text \<open>
  A directory whose name has a leading zero is not canonical: the tag of the response is
  printed without it, and the audit object goes to a directory that does not exist.
\<close>

theorem S3_Report_leading_zero:
  "map_sum id cr_Tag (snd (S3_Current (bucket [''p/v1.02.0/'']) linux_amd64 ''t'' app_bucket ())) = Inr ''v1.2.0'' \<and>
   hasPrefix (S3_reportKey app_bucket ''v1.2.0'' ''i'') ''p/v1.2.0/''"
  by code_simp

text \<open>The upload of a report counts as a success even when the service refuses it at the end.\<close>

lemma GS_Report_close_ignored:
  assumes "rr_Err req = None" and "\<And>b n d w. snd (gl_Write cl b n d w) = None"
  shows "snd (GS_Report cl hostname now g req w) = None"
  using assms by (simp add: GS_Report_def GS_putTextObject_def split_beta)

end
