(* ===== verification/Registry_OCI.thy ===== *)
theory Registry_OCI
  imports Registry_Sources "HOL-Library.Word"
begin

unbundle bit_operations_syntax

text \<open>
  The OCI registry (registry/oci.go): tags are listed page by page over the distribution API,
  a refused request is repeated once with a bearer token from the endpoint the registry names,
  and that endpoint is checked against private addresses.

  The HTTP client, the resolver, url.Parse and the JSON decoders are parameters. The state of a
  registry carries the log of what it asked the network for.
\<close>

section \<open>State\<close>

type_synonym ip = "8 word list"

datatype authorization = NoAuth | BasicAuth string string | BearerAuth string

datatype oci_event =
    Requested string authorization
  | TokenRequested purl authorization
  | Resolved string "string + ip list"

record http_response =
  hr_Status :: goint
  hr_Header :: "string \<Rightarrow> string"
  hr_Body :: string

record 'w oci_env =
  oe_newRequest :: "string \<Rightarrow> string option"
  oe_do :: "string \<Rightarrow> authorization \<Rightarrow> string \<Rightarrow> 'w \<Rightarrow> 'w \<times> (string + http_response)"
  oe_urlParse :: "string \<Rightarrow> string + purl"
  oe_urlString :: "purl \<Rightarrow> string"
  oe_lookupIP :: "string \<Rightarrow> 'w \<Rightarrow> 'w \<times> (string + ip list)"
  oe_ipString :: "ip \<Rightarrow> string"
  oe_decodeTags :: "string \<Rightarrow> string + string list"
  oe_decodeToken :: "string \<Rightarrow> string + (string \<times> string)"
  oe_now :: "'w \<Rightarrow> instant"
  oe_fmtTags :: "string list \<Rightarrow> string"

record 'w OCI =
  oc_Registry :: string
  oc_Repository :: string
  oc_PreRelease :: bool
  oc_CalVer :: string
  oc_Constraint :: string
  oc_username :: string
  oc_password :: string
  oc_token :: string
  oc_world :: 'w
  oc_log :: "oci_event list"

definition oci_log :: "oci_event \<Rightarrow> 'w \<Rightarrow> 'w OCI \<Rightarrow> 'w OCI" where
  "oci_log ev w oc = oc\<lparr>oc_world := w, oc_log := oc_log oc @ [ev]\<rparr>"

definition maxPaginationPages :: nat where "maxPaginationPages = 100"

definition maxResponseSize :: int where "maxResponseSize = 10 * 1024 * 1024"

section \<open>Construction\<close>

definition normalizeDockerHub :: "string \<Rightarrow> string \<Rightarrow> string \<times> string" where
  "normalizeDockerHub host repository =
     (let isDockerHub = (host = ''docker.io'' \<or> host = ''index.docker.io'' \<or> host = ''registry-1.docker.io'')
      in (if host = ''docker.io'' \<or> host = ''index.docker.io'' then ''registry-1.docker.io'' else host,
          if isDockerHub \<and> \<not> strContains repository ''/'' then ''library/'' @ repository else repository))"

definition loadCredentials :: "(string \<Rightarrow> string) \<Rightarrow> 'w OCI \<Rightarrow> 'w OCI" where
  "loadCredentials getenv oc =
     (if getenv ''DOCKER_USERNAME'' \<noteq> [] then oc\<lparr>oc_username := getenv ''DOCKER_USERNAME'', oc_password := getenv ''DOCKER_PASSWORD''\<rparr>
      else if strContains (oc_Registry oc) ''ghcr.io'' \<and> getenv ''GITHUB_TOKEN'' \<noteq> []
      then oc\<lparr>oc_username := ''token'', oc_password := getenv ''GITHUB_TOKEN''\<rparr> else oc)"

definition NewOCI :: "(string \<Rightarrow> string) \<Rightarrow> (string \<Rightarrow> string + purl) \<Rightarrow> ('w OCI \<Rightarrow> (string \<times> string) list \<Rightarrow> string + 'w OCI) \<Rightarrow>
    'w \<Rightarrow> string \<Rightarrow> string + 'w OCI" where
  "NewOCI getenv urlParse decode w u =
     (case urlParse u of
        Inl err \<Rightarrow> Inl err
      | Inr ur \<Rightarrow>
          let repoPath = trimPrefix (pu_Path ur) ''/''
          in if pu_Host ur = [] then Inl (''invalid OCI URL '' @ goQuote u @ '': registry host is required'')
             else if repoPath = [] then Inl (''invalid OCI URL '' @ goQuote u @ '': repository path is required'')
             else (case normalizeDockerHub (pu_Host ur) repoPath of (registry, repository) \<Rightarrow>
               (case decode \<lparr>oc_Registry = registry, oc_Repository = repository, oc_PreRelease = False, oc_CalVer = [],
                   oc_Constraint = [], oc_username = [], oc_password = [], oc_token = [], oc_world = w, oc_log = []\<rparr> (pu_Query ur) of
                  Inl err \<Rightarrow> Inl err
                | Inr oc \<Rightarrow> Inr (loadCredentials getenv oc))))"

section \<open>Hosts and addresses\<close>

text \<open>net.SplitHostPort, the host or None for an error.\<close>

definition net_SplitHost :: "string \<Rightarrow> string option" where
  "net_SplitHost hp = (case lastIndexC (CHR '':'') hp of
     None \<Rightarrow> None
   | Some i \<Rightarrow>
       if hasPrefix hp ''['' then
         (case strIndex hp '']'' of
            None \<Rightarrow> None
          | Some e \<Rightarrow>
              if e + 1 \<noteq> i then None
              else if CHR ''['' \<in> set (drop 1 hp) \<or> CHR '']'' \<in> set (drop (e + 1) hp) then None
              else Some (drop 1 (take e hp)))
       else if CHR '':'' \<in> set (take i hp) then None
       else if CHR ''['' \<in> set hp \<or> CHR '']'' \<in> set hp then None
       else Some (take i hp))"

definition registryHostname :: "'w OCI \<Rightarrow> string" where
  "registryHostname oc = (case net_SplitHost (oc_Registry oc) of Some h \<Rightarrow> h | None \<Rightarrow> oc_Registry oc)"

definition getScheme :: "'w OCI \<Rightarrow> string" where
  "getScheme oc = (if hasPrefix (oc_Registry oc) ''localhost'' \<or> hasPrefix (oc_Registry oc) ''127.0.0.1'' then ''http'' else ''https'')"

text \<open>net.CIDRMask, IP.To4 and IPNet.Contains.\<close>

fun cidrMask :: "nat \<Rightarrow> nat \<Rightarrow> ip" where
  "cidrMask ones 0 = []"
| "cidrMask ones (Suc k) = (if 8 \<le> ones then 255 # cidrMask (ones - 8) k else NOT (drop_bit ones 255) # cidrMask 0 k)"

definition to4 :: "ip \<Rightarrow> ip option" where
  "to4 a = (if length a = 4 then Some a
     else if length a = 16 \<and> take 12 a = replicate 10 0 @ [255, 255] then Some (drop 12 a) else None)"

definition ipnet_Contains :: "ip \<times> ip \<Rightarrow> ip \<Rightarrow> bool" where
  "ipnet_Contains n a = (case n of (nn, m) \<Rightarrow>
     let x = (case to4 a of Some b \<Rightarrow> b | None \<Rightarrow> a)
     in length x = length nn \<and> list_all (\<lambda>(ni, mi, xi). ni AND mi = xi AND mi) (zip nn (zip m x)))"

definition privateIPNets :: "(ip \<times> ip) list" where
  "privateIPNets =
     [([127, 0, 0, 0], cidrMask 8 4), ([10, 0, 0, 0], cidrMask 8 4), ([172, 16, 0, 0], cidrMask 12 4),
      ([192, 168, 0, 0], cidrMask 16 4), ([169, 254, 0, 0], cidrMask 16 4),
      (replicate 15 0 @ [1], cidrMask 128 16), (252 # replicate 15 0, cidrMask 7 16), (254 # 128 # replicate 14 0, cidrMask 10 16)]"

definition isPrivateIP :: "ip \<Rightarrow> bool" where
  "isPrivateIP a = list_ex (\<lambda>n. ipnet_Contains n a) privateIPNets"

definition validateRealmURL :: "'w oci_env \<Rightarrow> purl \<Rightarrow> 'w OCI \<Rightarrow> 'w OCI \<times> string option" where
  "validateRealmURL env u oc =
     (let host = url_Hostname u
      in case oe_lookupIP env host (oc_world oc) of (w, r) \<Rightarrow>
           (oci_log (Resolved host r) w oc,
            case r of
              Inl err \<Rightarrow> Some (''failed to resolve realm host '' @ goQuote host @ '': '' @ err)
            | Inr ips \<Rightarrow> map_option (\<lambda>a. ''realm URL '' @ goQuote (oe_urlString env u) @ '' resolves to private IP address '' @ oe_ipString env a)
                (find isPrivateIP ips)))"

section \<open>Bearer tokens\<close>

text \<open>strings.Trim with one byte as cutset.\<close>

definition trimC :: "char \<Rightarrow> string \<Rightarrow> string" where
  "trimC c s = rev (dropWhile (\<lambda>x. x = c) (rev (dropWhile (\<lambda>x. x = c) s)))"

definition authParams :: "string \<Rightarrow> (string \<times> string) list" where
  "authParams authHeader = List.map_filter (\<lambda>part. case splitN2 (trimSpace part) ''='' of
      [k, v] \<Rightarrow> Some (k, trimC (CHR 0x22) v) | _ \<Rightarrow> None) (splitC (CHR '','') (trimPrefix authHeader ''Bearer ''))"

definition param :: "(string \<times> string) list \<Rightarrow> string \<Rightarrow> string option" where
  "param ps k = map_of (rev ps) k"

definition setQuery :: "string \<Rightarrow> string option \<Rightarrow> (string \<times> string) list \<Rightarrow> (string \<times> string) list" where
  "setQuery k v q = (case v of None \<Rightarrow> q | Some x \<Rightarrow> filter (\<lambda>(k', _). k' \<noteq> k) q @ [(k, x)])"

definition basicAuth :: "'w OCI \<Rightarrow> authorization" where
  "basicAuth oc = (if oc_username oc \<noteq> [] \<and> oc_password oc \<noteq> [] then BasicAuth (oc_username oc) (oc_password oc) else NoAuth)"

definition requestToken :: "'w oci_env \<Rightarrow> purl \<Rightarrow> 'w OCI \<Rightarrow> 'w OCI \<times> string option" where
  "requestToken env u oc =
     (case oe_newRequest env (oe_urlString env u) of
        Some err \<Rightarrow> (oc, Some err)
      | None \<Rightarrow> (case oe_do env (oe_urlString env u) (basicAuth oc) [] (oc_world oc) of (w, r) \<Rightarrow>
          let oc' = oci_log (TokenRequested u (basicAuth oc)) w oc
          in (case r of
                Inl err \<Rightarrow> (oc', Some err)
              | Inr resp \<Rightarrow>
                  if hr_Status resp \<noteq> 200
                  then (oc', Some (''failed to get token: status '' @ itoa (hr_Status resp) @ '': '' @ take (nat maxResponseSize) (hr_Body resp)))
                  else (case oe_decodeToken env (hr_Body resp) of
                      Inl err \<Rightarrow> (oc', Some err)
                    | Inr (token, accessToken) \<Rightarrow>
                        if token \<noteq> [] then (oc'\<lparr>oc_token := token\<rparr>, None)
                        else if accessToken \<noteq> [] then (oc'\<lparr>oc_token := accessToken\<rparr>, None)
                        else (oc', Some ''no token in response'')))))"

definition getBearerToken :: "'w oci_env \<Rightarrow> string \<Rightarrow> 'w OCI \<Rightarrow> 'w OCI \<times> string option" where
  "getBearerToken env authHeader oc =
     (if \<not> hasPrefix authHeader ''Bearer '' then (oc, Some (''unsupported auth scheme: '' @ authHeader))
      else let ps = authParams authHeader in
        (case param ps ''realm'' of
           None \<Rightarrow> (oc, Some ''no realm in auth header'')
         | Some realm \<Rightarrow> (case oe_urlParse env realm of
             Inl err \<Rightarrow> (oc, Some (''invalid realm URL: '' @ err))
           | Inr u \<Rightarrow>
               (case (if url_Hostname u \<noteq> registryHostname oc then validateRealmURL env u oc else (oc, None)) of
                  (oc, Some err) \<Rightarrow> (oc, Some (''realm URL blocked: '' @ err))
                | (oc, None) \<Rightarrow> requestToken env
                    (u\<lparr>pu_Query := setQuery ''scope'' (param ps ''scope'') (setQuery ''service'' (param ps ''service'') (pu_Query u))\<rparr>) oc))))"

section \<open>Requests to the API\<close>

definition apiAuth :: "'w OCI \<Rightarrow> authorization" where
  "apiAuth oc = (if oc_token oc \<noteq> [] then BearerAuth (oc_token oc) else basicAuth oc)"

definition sendRequest :: "'w oci_env \<Rightarrow> string \<Rightarrow> authorization \<Rightarrow> string \<Rightarrow> 'w OCI \<Rightarrow> 'w OCI \<times> (string + http_response)" where
  "sendRequest env url auth accept oc =
     (case oe_newRequest env url of
        Some err \<Rightarrow> (oc, Inl err)
      | None \<Rightarrow> (case oe_do env url auth accept (oc_world oc) of (w, r) \<Rightarrow> (oci_log (Requested url auth) w oc, r)))"

text \<open>
  The exchange that listing tags and fetching a manifest share: a request, and after a 401 with
  a challenge a token and one more request.
\<close>

definition getAuthorized :: "'w oci_env \<Rightarrow> string \<Rightarrow> string \<Rightarrow> 'w OCI \<Rightarrow> 'w OCI \<times> (string + http_response)" where
  "getAuthorized env url accept oc =
     (case sendRequest env url (apiAuth oc) accept oc of
        (oc, Inl err) \<Rightarrow> (oc, Inl err)
      | (oc, Inr resp) \<Rightarrow>
          if hr_Status resp = 401 \<and> hr_Header resp ''WWW-Authenticate'' \<noteq> []
          then (case getBearerToken env (hr_Header resp ''WWW-Authenticate'') oc of
              (oc, Some err) \<Rightarrow> (oc, Inl (''failed to get bearer token: '' @ err))
            | (oc, None) \<Rightarrow> sendRequest env url (BearerAuth (oc_token oc)) accept oc)
          else (oc, Inr resp))"

fun nextLink :: "'w OCI \<Rightarrow> string list \<Rightarrow> string" where
  "nextLink oc [] = []"
| "nextLink oc (link # links) =
     (let parts = splitC (CHR '';'') (trimSpace link);
          urlPart = trimSpace (hd parts);
          relativeURL = butlast (tl urlPart)
      in if length parts < 2 \<or> \<not> strContains (trimSpace (parts ! 1)) (''rel='' @ goQuote ''next'') \<or>
            \<not> hasPrefix urlPart ''<'' \<or> \<not> hasSuffix urlPart ''>'' then nextLink oc links
         else if hasPrefix relativeURL ''/'' then getScheme oc @ ''://'' @ oc_Registry oc @ relativeURL
         else relativeURL)"

definition parseNextLink :: "'w OCI \<Rightarrow> string \<Rightarrow> string" where
  "parseNextLink oc linkHeader = (if linkHeader = [] then [] else nextLink oc (splitC (CHR '','') linkHeader))"

definition fetchTagsPage :: "'w oci_env \<Rightarrow> string \<Rightarrow> 'w OCI \<Rightarrow> 'w OCI \<times> (string + string list \<times> string)" where
  "fetchTagsPage env apiURL oc =
     (case getAuthorized env apiURL [] oc of
        (oc, Inl err) \<Rightarrow> (oc, Inl err)
      | (oc, Inr resp) \<Rightarrow>
          if hr_Status resp \<noteq> 200
          then (oc, Inl (''failed to list tags: status '' @ itoa (hr_Status resp) @ '': '' @ take (nat maxResponseSize) (hr_Body resp)))
          else (case oe_decodeTags env (hr_Body resp) of
              Inl err \<Rightarrow> (oc, Inl err)
            | Inr tags \<Rightarrow> (oc, Inr (tags, parseNextLink oc (hr_Header resp ''Link'')))))"

text \<open>The loop over the pages; the number counts down from the limit.\<close>

fun tagPages :: "'w oci_env \<Rightarrow> nat \<Rightarrow> string \<Rightarrow> string list \<Rightarrow> 'w OCI \<Rightarrow> 'w OCI \<times> (string + string list)" where
  "tagPages env 0 nextURL allTags oc =
     (if nextURL = [] then (oc, Inr allTags)
      else (oc, Inl (''exceeded maximum pagination pages ('' @ show_nat maxPaginationPages @ '')'')))"
| "tagPages env (Suc left) nextURL allTags oc =
     (if nextURL = [] then (oc, Inr allTags)
      else case fetchTagsPage env nextURL oc of
             (oc, Inl err) \<Rightarrow> (oc, Inl err)
           | (oc, Inr (tags, nxt)) \<Rightarrow> tagPages env left nxt (allTags @ tags) oc)"

definition tagsURL :: "'w OCI \<Rightarrow> string" where
  "tagsURL oc = getScheme oc @ ''://'' @ oc_Registry oc @ ''/v2/'' @ oc_Repository oc @ ''/tags/list''"

definition listTags :: "'w oci_env \<Rightarrow> 'w OCI \<Rightarrow> 'w OCI \<times> (string + string list)" where
  "listTags env oc = tagPages env maxPaginationPages (tagsURL oc) [] oc"

definition findLatestTag :: "'w oci_env \<Rightarrow> 'w OCI \<Rightarrow> string list \<Rightarrow> string + string" where
  "findLatestTag env oc tags = (case findLatest (oc_CalVer oc) (oc_PreRelease oc) tags of
     Inl e \<Rightarrow> Inl (find_error_text e @ '' (available tags: '' @ oe_fmtTags env tags @ '')'')
   | Inr (_, tag) \<Rightarrow> Inr tag)"

definition manifestAccept :: string where
  "manifestAccept = joinS '', '' [''application/vnd.oci.image.index.v1+json'', ''application/vnd.oci.image.manifest.v1+json'',
     ''application/vnd.docker.distribution.manifest.list.v2+json'', ''application/vnd.docker.distribution.manifest.v2+json'']"

definition getImageDigest :: "'w oci_env \<Rightarrow> string \<Rightarrow> 'w OCI \<Rightarrow> 'w OCI \<times> (string + string \<times> instant option)" where
  "getImageDigest env tag oc =
     (case getAuthorized env (getScheme oc @ ''://'' @ oc_Registry oc @ ''/v2/'' @ oc_Repository oc @ ''/manifests/'' @ tag) manifestAccept oc of
        (oc, Inl err) \<Rightarrow> (oc, Inl err)
      | (oc, Inr resp) \<Rightarrow>
          if hr_Status resp \<noteq> 200
          then (oc, Inl (''failed to get manifest: status '' @ itoa (hr_Status resp) @ '': '' @ take (nat maxResponseSize) (hr_Body resp)))
          else if hr_Header resp ''Docker-Content-Digest'' = [] then (oc, Inl ''no digest found in response'')
          else (oc, Inr (hr_Header resp ''Docker-Content-Digest'', Some (oe_now env (oc_world oc)))))"

definition OCI_Current :: "'w oci_env \<Rightarrow> 'w OCI \<Rightarrow> 'w OCI \<times> (registry_error + CurrentResponse)" where
  "OCI_Current env oc =
     (case listTags env oc of
        (oc, Inl err) \<Rightarrow> (oc, Inl (RegistryError (''failed to list tags: '' @ err)))
      | (oc, Inr tags) \<Rightarrow>
          if tags = [] then (oc, Inl (RegistryError (''no tags found in registry '' @ oc_Registry oc @ ''/'' @ oc_Repository oc)))
          else (case findLatestTag env oc tags of
              Inl err \<Rightarrow> (oc, Inl (RegistryError (''failed to find latest tag: '' @ err)))
            | Inr tag \<Rightarrow> (case getImageDigest env tag oc of
                (oc, Inl err) \<Rightarrow> (oc, Inl (RegistryError (''failed to get image digest: '' @ err)))
              | (oc, Inr (digest, createdAt)) \<Rightarrow>
                  (oc, Inr \<lparr>cr_ID = digest, cr_Tag = tag,
                     cr_ArtifactURL = ''img://'' @ oc_Registry oc @ ''/'' @ oc_Repository oc @ '':'' @ tag,
                     cr_CreatedAt = createdAt, cr_Slot = extractSlot tag (oc_CalVer oc)\<rparr>))))"

definition OCI_Report :: "ReportRequest \<Rightarrow> 'w OCI \<Rightarrow> 'w OCI \<times> string option" where
  "OCI_Report req oc = (oc, None)"

section \<open>What the registry asks the network for\<close>

text \<open>A host is known to be public when it was resolved and no address of it is private.\<close>

definition public_host :: "string \<Rightarrow> oci_event list \<Rightarrow> bool" where
  "public_host h evs = (\<exists>ips. Resolved h (Inr ips) \<in> set evs \<and> (\<forall>a\<in>set ips. \<not> isPrivateIP a))"

text \<open>Every request for a token goes to the registry's host or to a host checked before.\<close>

definition tokens_checked :: "string \<Rightarrow> oci_event list \<Rightarrow> bool" where
  "tokens_checked h evs = (\<forall>pre u a post. evs = pre @ TokenRequested u a # post \<longrightarrow> url_Hostname u = h \<or> public_host (url_Hostname u) pre)"

fun is_request :: "oci_event \<Rightarrow> bool" where
  "is_request (Requested u a) = True" | "is_request _ = False"

fun is_token :: "oci_event \<Rightarrow> bool" where
  "is_token (TokenRequested u a) = True" | "is_token _ = False"

text \<open>
  A run of the registry: the configuration stays, at most n requests and m requests for tokens
  are added to the log, and the check of the token endpoints holds on.
\<close>

definition evolves :: "nat \<Rightarrow> nat \<Rightarrow> 'w OCI \<Rightarrow> 'w OCI \<Rightarrow> bool" where
  "evolves n m oc oc' = (oc_Registry oc' = oc_Registry oc \<and> oc_Repository oc' = oc_Repository oc \<and>
     oc_CalVer oc' = oc_CalVer oc \<and> oc_PreRelease oc' = oc_PreRelease oc \<and>
     (tokens_checked (registryHostname oc) (oc_log oc) \<longrightarrow> tokens_checked (registryHostname oc) (oc_log oc')) \<and>
     (\<exists>evs. oc_log oc' = oc_log oc @ evs \<and> length (filter is_request evs) \<le> n \<and> length (filter is_token evs) \<le> m))"

lemma tokens_checked_Nil [simp]: "tokens_checked h []"
  by (simp add: tokens_checked_def)

lemma tokens_checked_snoc:
  "tokens_checked h (evs @ [e]) \<longleftrightarrow> tokens_checked h evs \<and>
     (\<forall>u a. e = TokenRequested u a \<longrightarrow> url_Hostname u = h \<or> public_host (url_Hostname u) evs)"
proof
  assume c: "tokens_checked h (evs @ [e])"
  have "evs @ [e] = pre @ TokenRequested u a # (post @ [e])" if "evs = pre @ TokenRequested u a # post" for pre u a post
    using that by simp
  then show "tokens_checked h evs \<and> (\<forall>u a. e = TokenRequested u a \<longrightarrow> url_Hostname u = h \<or> public_host (url_Hostname u) evs)"
    using c unfolding tokens_checked_def by metis
next
  assume c: "tokens_checked h evs \<and> (\<forall>u a. e = TokenRequested u a \<longrightarrow> url_Hostname u = h \<or> public_host (url_Hostname u) evs)"
  show "tokens_checked h (evs @ [e])" unfolding tokens_checked_def
  proof (intro allI impI)
    fix pre u a post
    assume e: "evs @ [e] = pre @ TokenRequested u a # post"
    show "url_Hostname u = h \<or> public_host (url_Hostname u) pre"
    proof (cases post rule: rev_cases)
      case Nil
      with e c show ?thesis by auto
    next
      case (snoc q x)
      with e have "evs = pre @ TokenRequested u a # q" by simp
      with c show ?thesis unfolding tokens_checked_def by blast
    qed
  qed
qed

lemma public_host_snoc [simp]: "public_host h evs \<Longrightarrow> public_host h (evs @ [e])"
  by (auto simp: public_host_def)

lemma registryHostname_cong: "oc_Registry oc = oc_Registry oc' \<Longrightarrow> registryHostname oc = registryHostname oc'"
  by (simp only: registryHostname_def)

lemma evolves_refl [simp, intro]: "evolves 0 0 oc oc"
  by (simp add: evolves_def)

lemma evolves_trans: "evolves n m a b \<Longrightarrow> evolves n' m' b c \<Longrightarrow> evolves (n + n') (m + m') a c"
  using registryHostname_cong [of a b] by (fastforce simp: evolves_def)

lemma evolves_mono: "evolves n m a b \<Longrightarrow> n \<le> n' \<Longrightarrow> m \<le> m' \<Longrightarrow> evolves n' m' a b"
  by (fastforce simp: evolves_def)

lemma evolves_token [simp]: "evolves n m a (b\<lparr>oc_token := t\<rparr>) = evolves n m a b"
  by (simp add: evolves_def)

lemma evolves_log:
  assumes "\<And>u a. ev = TokenRequested u a \<Longrightarrow> url_Hostname u = registryHostname oc \<or> public_host (url_Hostname u) (oc_log oc)"
  shows "evolves (length (filter is_request [ev])) (length (filter is_token [ev])) oc (oci_log ev w oc)"
  using assms by (auto simp: evolves_def oci_log_def tokens_checked_snoc simp del: filter.simps)

lemma registryHostname_log [simp]: "registryHostname (oci_log ev w oc) = registryHostname oc"
  by (rule registryHostname_cong) (simp add: oci_log_def)

lemma url_Hostname_query [simp]: "url_Hostname (u\<lparr>pu_Query := q\<rparr>) = url_Hostname u"
  by (simp add: url_Hostname_def)

lemma validateRealmURL_evolves:
  assumes "validateRealmURL env u oc = (oc', err)"
  shows "evolves 0 0 oc oc' \<and> registryHostname oc' = registryHostname oc \<and> (err = None \<longrightarrow> public_host (url_Hostname u) (oc_log oc'))"
proof -
  obtain w r where l: "oe_lookupIP env (url_Hostname u) (oc_world oc) = (w, r)" by (rule prod.exhaust)
  with assms have oc': "oc' = oci_log (Resolved (url_Hostname u) r) w oc"
    by (simp add: validateRealmURL_def Let_def)
  have "err = None \<Longrightarrow> \<exists>ips. r = Inr ips \<and> find isPrivateIP ips = None"
    using assms l by (auto simp: validateRealmURL_def Let_def split: sum.splits)
  then have "err = None \<longrightarrow> public_host (url_Hostname u) (oc_log oc')"
    by (auto simp: oc' oci_log_def public_host_def find_None_iff)
  with evolves_log [of "Resolved (url_Hostname u) r" oc w] show ?thesis by (simp add: oc')
qed

lemma requestToken_evolves:
  assumes "requestToken env u oc = (oc', err)"
    and "url_Hostname u = registryHostname oc \<or> public_host (url_Hostname u) (oc_log oc)"
  shows "evolves 0 1 oc oc'"
proof -
  have "evolves 0 1 oc (oci_log (TokenRequested u a) w oc)" for a w
    using evolves_log [of "TokenRequested u a" oc w] assms(2) by simp
  moreover have "evolves 0 1 oc oc" by (rule evolves_mono [OF evolves_refl]) simp_all
  ultimately show ?thesis using assms(1)
    by (auto simp: requestToken_def Let_def split: option.splits sum.splits prod.splits if_splits)
qed

lemma getBearerToken_evolves:
  assumes "getBearerToken env h oc = (oc', err)"
  shows "evolves 0 1 oc oc'"
proof -
  have r: "evolves 0 1 oc oc" by (rule evolves_mono [OF evolves_refl]) simp_all
  have v: "evolves 0 1 oc oc1" if "validateRealmURL env u oc = (oc1, e)" for u oc1 e
    using validateRealmURL_evolves [OF that] evolves_mono [of 0 0 oc oc1 0 1] by simp
  have t: "evolves 0 1 oc oc2"
    if "validateRealmURL env u oc = (oc1, None)" "requestToken env (u\<lparr>pu_Query := q\<rparr>) oc1 = (oc2, e)" for u oc1 oc2 q e
    using validateRealmURL_evolves [OF that(1)] requestToken_evolves [OF that(2)] evolves_trans [of 0 0 oc oc1 0 1 oc2] by simp
  have d: "evolves 0 1 oc oc2"
    if "url_Hostname u = registryHostname oc" "requestToken env (u\<lparr>pu_Query := q\<rparr>) oc = (oc2, e)" for u oc2 q e
    using requestToken_evolves [OF that(2)] that(1) by simp
  show ?thesis using assms r v t d
    by (auto simp: getBearerToken_def Let_def split: option.splits sum.splits prod.splits if_splits)
qed

lemma sendRequest_evolves:
  assumes "sendRequest env url auth accept oc = (oc', r)"
  shows "evolves 1 0 oc oc'"
proof -
  have "evolves 1 0 oc (oci_log (Requested url auth) w oc)" for w
    using evolves_log [of "Requested url auth" oc w] by simp
  moreover have "evolves 1 0 oc oc" by (rule evolves_mono [OF evolves_refl]) simp_all
  ultimately show ?thesis using assms by (auto simp: sendRequest_def split: option.splits prod.splits)
qed

lemma getAuthorized_evolves:
  assumes "getAuthorized env url accept oc = (oc', r)"
  shows "evolves 2 1 oc oc'"
proof -
  obtain oc1 r1 where 1: "sendRequest env url (apiAuth oc) accept oc = (oc1, r1)" by (rule prod.exhaust)
  note e1 = sendRequest_evolves [OF 1]
  have m: "evolves 2 1 oc x" if "evolves 1 0 oc x" for x using evolves_mono [OF that, of 2 1] by simp
  have t: "evolves 2 1 oc oc2" if "getBearerToken env h oc1 = (oc2, e)" for h oc2 e
    using evolves_mono [OF evolves_trans [OF e1 getBearerToken_evolves [OF that]], of 2 1] by simp
  have u: "evolves 2 1 oc oc3" if "getBearerToken env h oc1 = (oc2, e)" "sendRequest env url a accept oc2 = (oc3, r)" for h oc2 oc3 e a r
    using evolves_trans [OF evolves_trans [OF e1 getBearerToken_evolves [OF that(1)]] sendRequest_evolves [OF that(2)]]
    by (simp add: numeral_2_eq_2)
  show ?thesis using assms 1 m [OF e1] t u
    by (auto simp: getAuthorized_def split: option.splits sum.splits prod.splits if_splits)
qed

lemma fetchTagsPage_evolves: "fetchTagsPage env url oc = (oc', r) \<Longrightarrow> evolves 2 1 oc oc'"
  by (auto simp: fetchTagsPage_def split: sum.splits prod.splits if_splits dest: getAuthorized_evolves)

lemma tagPages_evolves: "tagPages env k url acc oc = (oc', r) \<Longrightarrow> evolves (2 * k) k oc oc'"
proof (induction env k url acc oc rule: tagPages.induct)
  case (2 env k url acc oc)
  show ?case
  proof (cases "url = []")
    case True
    with 2(2) show ?thesis using evolves_mono [OF evolves_refl] by auto
  next
    case False
    obtain oc1 r1 where f: "fetchTagsPage env url oc = (oc1, r1)" by (rule prod.exhaust)
    note e = fetchTagsPage_evolves [OF f]
    show ?thesis
    proof (cases r1)
      case (Inl err)
      with 2(2) False f have "oc' = oc1" by auto
      with evolves_mono [OF e] show ?thesis by simp
    next
      case (Inr p)
      obtain tags nxt where p: "p = (tags, nxt)" by (rule prod.exhaust)
      have "evolves (2 * k) k oc1 oc'" using 2(1) [OF False f [symmetric] Inr p [symmetric]] 2(2) False f Inr p by simp
      from evolves_trans [OF e this] show ?thesis by simp
    qed
  qed
qed (auto split: if_splits)

lemma getImageDigest_evolves: "getImageDigest env tag oc = (oc', r) \<Longrightarrow> evolves 2 1 oc oc'"
  by (auto simp: getImageDigest_def split: sum.splits prod.splits if_splits dest: getAuthorized_evolves)

lemma OCI_Current_evolves:
  assumes "OCI_Current env oc = (oc', r)"
  shows "evolves 202 101 oc oc'"
proof -
  obtain oc1 r1 where l: "listTags env oc = (oc1, r1)" by (rule prod.exhaust)
  have e: "evolves 200 100 oc oc1"
    using tagPages_evolves [of env maxPaginationPages "tagsURL oc" "[]" oc oc1 r1] l by (simp add: listTags_def maxPaginationPages_def)
  have m: "evolves 202 101 oc oc1" using evolves_mono [OF e] by simp
  have d: "evolves 202 101 oc oc2" if "getImageDigest env tag oc1 = (oc2, x)" for tag oc2 x
    using evolves_trans [OF e getImageDigest_evolves [OF that]] by simp
  show ?thesis using assms l m d
    by (auto simp: OCI_Current_def split: sum.splits prod.splits if_splits)
qed

section \<open>Private addresses\<close>

lemma all_bytes: "list_all P (map word_of_nat [0..<256]) \<Longrightarrow> P (b :: 8 word)"
  proof -
  assume "list_all P (map word_of_nat [0..<256])"
  then have "\<forall>n<256. P (word_of_nat n)" by (auto simp: list_all_iff)
  moreover have "unat b < 256" using unsigned_less [of b, where 'a = nat] by simp
  ultimately have "P (word_of_nat (unat b))" by blast
  then show ?thesis by simp
qed

lemma mask_172: "(16 = b AND 240) = (16 \<le> b \<and> b \<le> 31)" for b :: "8 word"
  by (rule all_bytes [of "\<lambda>b. (16 = b AND 240) = (16 \<le> b \<and> b \<le> 31)" b]) code_simp

lemma masked_byte: "(n = b AND 255) = (b = n)" for b :: "8 word"
proof -
  have "b AND 255 = b" by (rule all_bytes [of "\<lambda>b. b AND 255 = b" b]) code_simp
  then show ?thesis by auto
qed

lemma cidrMasks:
  "cidrMask 8 4 = [255, 0, 0, 0]" "cidrMask 12 4 = [255, 240, 0, 0]" "cidrMask 16 4 = [255, 255, 0, 0]"
  by code_simp+

lemma ipnet_Contains_v4 [simp]:
  "ipnet_Contains ([n1, n2, n3, n4], [m1, m2, m3, m4]) [a, b, c, d] \<longleftrightarrow>
     n1 AND m1 = a AND m1 \<and> n2 AND m2 = b AND m2 \<and> n3 AND m3 = c AND m3 \<and> n4 AND m4 = d AND m4"
  by (simp add: ipnet_Contains_def to4_def)

lemma ipnet_Contains_v6: "length nn = 16 \<Longrightarrow> \<not> ipnet_Contains (nn, m) [a, b, c, d]"
  by (simp add: ipnet_Contains_def to4_def)

lemma isPrivateIP_v4:
  "isPrivateIP [a, b, c, d] \<longleftrightarrow> a = 127 \<or> a = 10 \<or> (a = 172 \<and> 16 \<le> b \<and> b \<le> 31) \<or> (a = 192 \<and> b = 168) \<or> (a = 169 \<and> b = 254)"
  unfolding isPrivateIP_def privateIPNets_def
  by (simp add: cidrMasks masked_byte mask_172 ipnet_Contains_v6)

lemma isPrivateIP_mapped: "isPrivateIP (replicate 10 0 @ [255, 255, a, b, c, d]) = isPrivateIP [a, b, c, d]"
proof -
  have "to4 (replicate 10 0 @ [255, 255, a, b, c, d]) = Some [a, b, c, d]" "to4 [a, b, c, d] = Some [a, b, c, d]"
    by (simp_all add: to4_def numeral_eq_Suc)
  then have "ipnet_Contains n (replicate 10 0 @ [255, 255, a, b, c, d]) = ipnet_Contains n [a, b, c, d]" for n
    by (simp add: ipnet_Contains_def)
  then show ?thesis by (simp add: isPrivateIP_def)
qed

section \<open>Properties\<close>

text \<open>
  The list of blocked networks is the private IPv4 space: an address a.b.c.d is blocked
  exactly when it is in 127/8, 10/8, 172.16/12, 192.168/16 or 169.254/16, and writing it as an
  IPv4-mapped IPv6 address does not get around the list.
\<close>

theorem isPrivateIP_ranges:
  "(isPrivateIP [a, b, c, d] \<longleftrightarrow> a = 127 \<or> a = 10 \<or> (a = 172 \<and> 16 \<le> b \<and> b \<le> 31) \<or> (a = 192 \<and> b = 168) \<or> (a = 169 \<and> b = 254)) \<and>
   isPrivateIP (replicate 10 0 @ [255, 255, a, b, c, d]) = isPrivateIP [a, b, c, d]"
  by (simp only: isPrivateIP_v4 isPrivateIP_mapped simp_thms)


definition ghcr_env :: "nat oci_env" where
  "ghcr_env = \<lparr>oe_newRequest = (\<lambda>u. None),
     oe_do = (\<lambda>url auth accept n. (Suc n,
        if n = 0 then Inr \<lparr>hr_Status = 401, hr_Header = (\<lambda>k. if k = ''WWW-Authenticate'' then ''Bearer realm=x'' else []), hr_Body = []\<rparr>
        else Inr \<lparr>hr_Status = 200, hr_Header = (\<lambda>k. if k = ''Docker-Content-Digest'' then ''sha'' else []), hr_Body = []\<rparr>)),
     oe_urlParse = (\<lambda>s. Inr \<lparr>pu_Scheme = ''https'', pu_Host = ''auth.io'', pu_Path = ''/t'', pu_Query = []\<rparr>),
     oe_urlString = (\<lambda>u. ''https://auth.io/t''), oe_lookupIP = (\<lambda>h n. (n, Inr [[8, 8, 4, 4]])), oe_ipString = (\<lambda>a. []),
     oe_decodeTags = (\<lambda>b. Inr [''v1.0.0'', ''v1.1.0'']), oe_decodeToken = (\<lambda>b. Inr (''tok'', [])), oe_now = (\<lambda>n. int n), oe_fmtTags = concat\<rparr>"

definition ghcr :: "nat OCI" where
  "ghcr = \<lparr>oc_Registry = ''r.io'', oc_Repository = ''a/b'', oc_PreRelease = False, oc_CalVer = [], oc_Constraint = [],
     oc_username = ''u'', oc_password = ''p'', oc_token = [], oc_world = 0, oc_log = []\<rparr>"

lemma ghcr_run:
  "oc_log (fst (OCI_Current ghcr_env ghcr)) = [Requested ''https://r.io/v2/a/b/tags/list'' (BasicAuth ''u'' ''p''),
     Resolved ''auth.io'' (Inr [[8, 8, 4, 4]]),
     TokenRequested \<lparr>pu_Scheme = ''https'', pu_Host = ''auth.io'', pu_Path = ''/t'', pu_Query = []\<rparr> (BasicAuth ''u'' ''p''),
     Requested ''https://r.io/v2/a/b/tags/list'' (BearerAuth ''tok''), Requested ''https://r.io/v2/a/b/manifests/v1.1.0'' (BearerAuth ''tok'')]"
  by code_simp


text \<open>
  A query ends after a bounded number of requests, even against a registry whose pages
  form an endless chain or that refuses every request: at most 202 requests to the API (100 pages
  and one manifest, each tried at most twice) and 101 for tokens.
\<close>

theorem OCI_Current_bounded:
  "length (filter is_request (oc_log (fst (OCI_Current env oc)))) \<le> length (filter is_request (oc_log oc)) + 202 \<and>
   length (filter is_token (oc_log (fst (OCI_Current env oc)))) \<le> length (filter is_token (oc_log oc)) + 101"
proof -
  have "evolves 202 101 oc (fst (OCI_Current env oc))"
    by (rule OCI_Current_evolves [of _ _ _ "snd (OCI_Current env oc)"]) simp
  then show ?thesis by (auto simp: evolves_def)
qed

text \<open>The unspecified address, which many systems route to the loopback interface, is not on the list.\<close>

theorem isPrivateIP_unspecified: "\<not> isPrivateIP [0, 0, 0, 0]"
  by (simp add: isPrivateIP_v4)

text \<open>
  A link to the next page may be absolute and name another host; the request for that page
  carries the credentials of the registry.
\<close>

theorem fetchTagsPage_foreign_host:
  "parseNextLink ghcr (''<http://evil/x>; rel='' @ goQuote ''next'') = ''http://evil/x'' \<and>
   oc_log (fst (sendRequest ghcr_env ''http://evil/x'' (apiAuth ghcr) [] ghcr)) = [Requested ''http://evil/x'' (BasicAuth ''u'' ''p'')]"
  by code_simp

end
