(* ===== verification/Cache_New.thy ===== *)
theory Cache_New
  imports Cache_Store
begin

text \<open>
  The construction of a cache from its URL (cache.go, file.go, s3.go, gs.go): the scheme chooses
  the backend, the query the lifetime of shared registry answers. url.Parse, time.ParseDuration
  with the text of a duration, and the construction of the cloud clients are parameters; the
  outcome of the last is the error it returns, if any.
\<close>

section \<open>Construction\<close>

datatype Cache = FileCache File | S3Cache S3 | GSCache GS

definition DefaultMaxSize :: goint where "DefaultMaxSize = 64 * 1024 * 1024"

text \<open>The directory is the environment variable, or below the working directory, or a temporary one.\<close>

definition createPersistentCacheDir :: "string \<Rightarrow> string + string \<Rightarrow> string \<Rightarrow> fs \<Rightarrow> fs \<times> string" where
  "createPersistentCacheDir cacheDir getwd tempDir s =
     (let dir = (if cacheDir \<noteq> [] then cacheDir
                 else (case getwd of Inr pwd \<Rightarrow> joinPath pwd ''.dewy/cache'' | Inl _ \<Rightarrow> joinPath ''.'' ''.dewy/cache''))
      in (case os_mkdirAll dir s of (s, Some _) \<Rightarrow> (s, tempDir) | (s, None) \<Rightarrow> (s, dir)))"

text \<open>Values.Get: the first value of a key.\<close>

definition values_Get :: "(string \<times> string) list \<Rightarrow> string \<Rightarrow> string" where
  "values_Get values k = (case map_of values k of Some v \<Rightarrow> v | None \<Rightarrow> [])"

record durations =
  parseDuration :: "string \<Rightarrow> string + goint"
  durationString :: "goint \<Rightarrow> string"

definition parseRegistryTTL :: "durations \<Rightarrow> (string \<times> string) list \<Rightarrow> string + goint" where
  "parseRegistryTTL du values =
     (let v = values_Get values ''registry-ttl'' in
      if v = [] then Inr 0
      else case parseDuration du v of
        Inl e \<Rightarrow> Inl (''invalid registry-ttl '' @ goQuote v @ '': '' @ e)
      | Inr d \<Rightarrow> if d < 0 then Inl (''registry-ttl must be non-negative, got '' @ durationString du d) else Inr d)"

definition schemeOf :: "(string \<Rightarrow> string + purl) \<Rightarrow> string \<Rightarrow> string" where
  "schemeOf urlParse urlStr = (case strIndex urlStr ''://'' of
     Some i \<Rightarrow> take i urlStr
   | None \<Rightarrow> (case urlParse urlStr of Inl _ \<Rightarrow> [] | Inr u \<Rightarrow> pu_Scheme u))"

definition File_Default :: "string \<Rightarrow> File" where
  "File_Default defaultDir = \<lparr>fl_dir = defaultDir, fl_MaxSize = DefaultMaxSize, fl_registryTTL = 0\<rparr>"

definition cache_NewS3 :: "(string \<Rightarrow> string + purl) \<Rightarrow> durations \<Rightarrow> string \<Rightarrow> string option \<Rightarrow> string \<Rightarrow> string + S3" where
  "cache_NewS3 urlParse du defaultDir configErr u =
     (case urlParse u of
        Inl err \<Rightarrow> Inl err
      | Inr ur \<Rightarrow>
          let parts = splitN2 (trimPrefix (pu_Path ur) ''/'') ''/'';
              bucket = (if parts \<noteq> [] then hd parts else []);
              pre = normalizePrefix (if length parts > 1 then parts ! 1 else [])
          in (case parseRegistryTTL du (pu_Query ur) of
                Inl err \<Rightarrow> Inl err
              | Inr ttl \<Rightarrow>
                  if pu_Host ur = [] then Inl ''region is required: s3://<region>/<bucket>/<prefix>''
                  else if bucket = [] then Inl ''bucket is required: s3://<region>/<bucket>/<prefix>''
                  else (case configErr of
                      Some err \<Rightarrow> Inl err
                    | None \<Rightarrow> Inr \<lparr>s3_Bucket = bucket, s3_Prefix = pre, s3_Region = pu_Host ur,
                        s3_Endpoint = values_Get (pu_Query ur) ''endpoint'', s3_dir = defaultDir, s3_MaxSize = DefaultMaxSize,
                        s3_registryTTL = ttl\<rparr>)))"

text \<open>How the client of the endpoint is configured: path style, and the base endpoint.\<close>

definition s3_clientOptions :: "S3 \<Rightarrow> string \<Rightarrow> bool \<times> string option" where
  "s3_clientOptions c awsEndpoint =
     (if s3_Endpoint c \<noteq> [] then (True, Some (s3_Endpoint c)) else if awsEndpoint \<noteq> [] then (True, None) else (False, None))"

text \<open>clientErr is None when a client was injected or storage.NewClient succeeds.\<close>

definition cache_NewGS :: "(string \<Rightarrow> string + purl) \<Rightarrow> durations \<Rightarrow> string \<Rightarrow> string option \<Rightarrow> string \<Rightarrow> string + GS" where
  "cache_NewGS urlParse du defaultDir clientErr u =
     (case urlParse u of
        Inl err \<Rightarrow> Inl err
      | Inr ur \<Rightarrow>
          if pu_Host ur = [] then Inl ''bucket is required: gs://<bucket>/<prefix>''
          else (case parseRegistryTTL du (pu_Query ur) of
              Inl err \<Rightarrow> Inl err
            | Inr ttl \<Rightarrow> (case clientErr of
                Some err \<Rightarrow> Inl err
              | None \<Rightarrow> Inr \<lparr>gs_Bucket = pu_Host ur, gs_Prefix = normalizePrefix (trimPrefix (pu_Path ur) ''/''),
                  gs_dir = defaultDir, gs_MaxSize = DefaultMaxSize, gs_registryTTL = ttl\<rparr>)))"

definition cache_New :: "(string \<Rightarrow> string + purl) \<Rightarrow> durations \<Rightarrow> string \<Rightarrow> string option \<Rightarrow> string option \<Rightarrow> string \<Rightarrow> string + Cache" where
  "cache_New urlParse du defaultDir s3Err gsErr urlStr =
     (if urlStr = [] then Inr (FileCache (File_Default defaultDir))
      else let scheme = schemeOf urlParse urlStr in
        if scheme = ''file'' then
          (case urlParse urlStr of
             Inl err \<Rightarrow> Inl err
           | Inr u \<Rightarrow>
               let f = File_Default defaultDir;
                   f = (if pu_Path u \<noteq> [] then f\<lparr>fl_dir := pu_Path u\<rparr> else f)
               in (case parseRegistryTTL du (pu_Query u) of
                     Inl err \<Rightarrow> Inl err | Inr ttl \<Rightarrow> Inr (FileCache (f\<lparr>fl_registryTTL := ttl\<rparr>))))
        else if scheme = ''s3'' then map_sum id S3Cache (cache_NewS3 urlParse du defaultDir s3Err urlStr)
        else if scheme = ''gs'' then map_sum id GSCache (cache_NewGS urlParse du defaultDir gsErr urlStr)
        else Inl (''unsupported cache scheme '' @ goQuote scheme @ ''; supported schemes: file, s3, gs''))"

section \<open>What the constructed cache offers\<close>

fun RegistryTTL :: "Cache \<Rightarrow> goint" where
  "RegistryTTL (FileCache f) = fl_registryTTL f"
| "RegistryTTL (S3Cache c) = s3_registryTTL c"
| "RegistryTTL (GSCache g) = gs_registryTTL g"

fun GetDir :: "Cache \<Rightarrow> string" where
  "GetDir (FileCache f) = fl_dir f"
| "GetDir (S3Cache c) = s3_dir c"
| "GetDir (GSCache g) = gs_dir g"

text \<open>Whether the backend implements AtomicCache.\<close>

fun isAtomicCache :: "Cache \<Rightarrow> bool" where
  "isAtomicCache (FileCache f) = False"
| "isAtomicCache _ = True"

lemma parseRegistryTTL_nonneg: "parseRegistryTTL du q = Inr ttl \<Longrightarrow> 0 \<le> ttl"
  by (auto simp: parseRegistryTTL_def Let_def split: if_splits sum.splits)

lemma normalizePrefix_directory: "\<not> hasSuffix (normalizePrefix p) ''/'' \<Longrightarrow> normalizePrefix p = []"
  by (cases "hasSuffix (trimPrefix p ''/'') ''/''") (auto simp: normalizePrefix_def Let_def hasSuffix_iff split: if_splits)

text \<open>
  A cache that was constructed has a lifetime that is not negative; a cloud backend has a bucket,
  and its keys lie in a directory of it.
\<close>

lemma cache_New_wf:
  assumes "cache_New urlParse du defaultDir s3Err gsErr u = Inr c"
  shows "0 \<le> RegistryTTL c \<and> (isAtomicCache c \<longrightarrow> schemeOf urlParse u \<in> {''s3'', ''gs''}) \<and>
    (\<forall>x. c = S3Cache x \<longrightarrow> s3_Bucket x \<noteq> [] \<and> s3_Region x \<noteq> [] \<and> (s3_Prefix x = [] \<or> hasSuffix (s3_Prefix x) ''/'')) \<and>
    (\<forall>x. c = GSCache x \<longrightarrow> gs_Bucket x \<noteq> [] \<and> (gs_Prefix x = [] \<or> hasSuffix (gs_Prefix x) ''/''))"
proof -
  have s3: "0 \<le> s3_registryTTL x \<and> s3_Bucket x \<noteq> [] \<and> s3_Region x \<noteq> [] \<and> (s3_Prefix x = [] \<or> hasSuffix (s3_Prefix x) ''/'')"
    if "cache_NewS3 urlParse du defaultDir s3Err u = Inr x" for x
    using that
    by (auto simp: cache_NewS3_def Let_def split: sum.splits if_splits option.splits dest!: parseRegistryTTL_nonneg intro: normalizePrefix_directory)
  have gs: "0 \<le> gs_registryTTL x \<and> gs_Bucket x \<noteq> [] \<and> (gs_Prefix x = [] \<or> hasSuffix (gs_Prefix x) ''/'')"
    if "cache_NewGS urlParse du defaultDir gsErr u = Inr x" for x
    using that
    by (auto simp: cache_NewGS_def split: sum.splits if_splits option.splits dest!: parseRegistryTTL_nonneg intro: normalizePrefix_directory)
  consider (dflt) "c = FileCache (File_Default defaultDir)"
    | (local_file) f where "c = FileCache f" "0 \<le> fl_registryTTL f"
    | (s3_object) x where "cache_NewS3 urlParse du defaultDir s3Err u = Inr x" "c = S3Cache x" "schemeOf urlParse u = ''s3''"
    | (gs_object) x where "cache_NewGS urlParse du defaultDir gsErr u = Inr x" "c = GSCache x" "schemeOf urlParse u = ''gs''"
    using assms by (auto simp: cache_New_def Let_def split: if_splits sum.splits dest!: parseRegistryTTL_nonneg)
      (auto simp: map_sum_def split: sum.splits)
  then show ?thesis using s3 gs by cases (auto simp: File_Default_def)
qed

end
