(* ===== verification/Registry_Cached.thy ===== *)
theory Registry_Cached
  imports Registry_Sources Cache_New
begin

text \<open>
  The shared registry cache (registry/cached.go): several dewy instances keep the last answer of
  a registry in one cache entry, which doubles as the lock of the instance that refreshes it.

  The operations of one instance are functions on the state of the world; the cache, the clock,
  the timer and the wrapped registry are parameters.
\<close>

section \<open>Entries and locks\<close>

record cachedEntry =
  ce_Response :: "CurrentResponse option"
  ce_FetchedAt :: instant
  ce_LockedAt :: instant
  ce_LockedBy :: string

record Cached =
  ca_ttl :: duration
  ca_lockTTL :: duration
  ca_wait :: duration
  ca_nodeID :: string
  ca_cacheKey :: string

definition registryCacheKeyPrefix :: string where "registryCacheKeyPrefix = ''registry-cache/''"

definition defaultRefreshWait :: duration where "defaultRefreshWait = 250000000"

definition nodeIDFrom :: "string option \<Rightarrow> goint \<Rightarrow> string" where
  "nodeIDFrom host pid = (case host of Some (c # cs) \<Rightarrow> c # cs | _ \<Rightarrow> ''unknown-host'') @ '':'' @ itoa pid"

definition maxLockTTL :: "duration \<Rightarrow> duration" where
  "maxLockTTL ttl = (let d = wrap64 (ttl * 2)
     in if d < seconds 30 then seconds 30 else if d > seconds 300 then seconds 300 else d)"

text \<open>
  url.Parse with String and the re-encoding of the query are parameters, and so is the hash of
  which the first eight bytes become the key.
\<close>

definition canonicalizeScope :: "(string \<Rightarrow> string + 'u) \<Rightarrow> ('u \<Rightarrow> string) \<Rightarrow> ('u \<Rightarrow> string) \<Rightarrow> (string \<Rightarrow> 'u \<Rightarrow> 'u) \<Rightarrow> ('u \<Rightarrow> string) \<Rightarrow> string \<Rightarrow> string" where
  "canonicalizeScope urlParse rawQuery encodedQuery setRawQuery urlString scope =
     (case urlParse scope of
        Inl err \<Rightarrow> scope
      | Inr u \<Rightarrow> urlString (if rawQuery u \<noteq> [] then setRawQuery (encodedQuery u) u else u))"

definition cacheKeyForScope :: "(string \<Rightarrow> string) \<Rightarrow> (string \<Rightarrow> string) \<Rightarrow> platform \<Rightarrow> string \<Rightarrow> string" where
  "cacheKeyForScope sha256Hex canonical pl scope =
     registryCacheKeyPrefix @ take 16 (sha256Hex (canonical scope @ ''|'' @ pl_GOOS pl @ ''|'' @ pl_GOARCH pl)) @ ''.json''"

definition NewCached :: "(string \<Rightarrow> string) \<Rightarrow> (string \<Rightarrow> string) \<Rightarrow> platform \<Rightarrow> string option \<Rightarrow> goint \<Rightarrow> string \<Rightarrow> duration \<Rightarrow> Cached" where
  "NewCached sha256Hex canonical pl host pid scope ttl =
     \<lparr>ca_ttl = ttl, ca_lockTTL = maxLockTTL ttl, ca_wait = defaultRefreshWait, ca_nodeID = nodeIDFrom host pid,
      ca_cacheKey = cacheKeyForScope sha256Hex canonical pl scope\<rparr>"

text \<open>
  How an instance opens its registry at the start (dewy.go): the answers are shared when the cache
  has a lifetime for them and conditional writes. An error of the registry leaves none.
\<close>

datatype 'r opened = Direct 'r | Shared 'r Cached

definition openRegistry :: "(registry_kind \<Rightarrow> string \<Rightarrow> string + 'r) \<Rightarrow> (string \<Rightarrow> string) \<Rightarrow> (string \<Rightarrow> string) \<Rightarrow> platform \<Rightarrow>
    string option \<Rightarrow> goint \<Rightarrow> Cache \<Rightarrow> string \<Rightarrow> 'r opened option" where
  "openRegistry construct sha256Hex canonical pl host pid cache url =
     (case registry_New construct url of
        Inl err \<Rightarrow> None
      | Inr r \<Rightarrow> let ttl = RegistryTTL cache in
          Some (if ttl > 0 \<and> isAtomicCache cache then Shared r (NewCached sha256Hex canonical pl host pid url ttl) else Direct r))"

definition isFresh :: "Cached \<Rightarrow> instant \<Rightarrow> cachedEntry \<Rightarrow> bool" where
  "isFresh c now entry = (ce_Response entry \<noteq> None \<and> time_Sub now (ce_FetchedAt entry) < ca_ttl c)"

definition isLocked :: "Cached \<Rightarrow> instant \<Rightarrow> cachedEntry \<Rightarrow> bool" where
  "isLocked c now entry = (ce_LockedAt entry \<noteq> zeroTime \<and> time_Sub now (ce_LockedAt entry) < ca_lockTTL c)"

definition unlocked :: "cachedEntry option \<Rightarrow> cachedEntry" where
  "unlocked prev = (case prev of
     None \<Rightarrow> \<lparr>ce_Response = None, ce_FetchedAt = zeroTime, ce_LockedAt = zeroTime, ce_LockedBy = []\<rparr>
   | Some p \<Rightarrow> \<lparr>ce_Response = ce_Response p, ce_FetchedAt = ce_FetchedAt p, ce_LockedAt = zeroTime, ce_LockedBy = []\<rparr>)"

definition buildClaim :: "cachedEntry option \<Rightarrow> string \<Rightarrow> instant \<Rightarrow> cachedEntry" where
  "buildClaim prev nodeID now = (unlocked prev)\<lparr>ce_LockedAt := now, ce_LockedBy := nodeID\<rparr>"

definition publishedEntry :: "CurrentResponse \<Rightarrow> instant \<Rightarrow> cachedEntry" where
  "publishedEntry res now = \<lparr>ce_Response = Some res, ce_FetchedAt = now, ce_LockedAt = zeroTime, ce_LockedBy = []\<rparr>"

section \<open>One instance\<close>

text \<open>
  ch_read and ch_write are ReadWithVersion and WriteIfMatch of the atomic cache at the key of the
  instance, ch_sleep is the timer, an error when the context ended first.
\<close>

record 'w cached_env =
  ch_read :: "'w \<Rightarrow> 'w \<times> (cache_error + string \<times> string)"
  ch_write :: "string \<Rightarrow> string \<Rightarrow> 'w \<Rightarrow> 'w \<times> (cache_error + string)"
  ch_now :: "'w \<Rightarrow> 'w \<times> instant"
  ch_sleep :: "duration \<Rightarrow> 'w \<Rightarrow> 'w \<times> string option"
  ch_inner :: "'w \<Rightarrow> 'w \<times> (registry_error + CurrentResponse)"
  ch_encode :: "cachedEntry \<Rightarrow> string"
  ch_decode :: "string \<Rightarrow> string + cachedEntry"

definition readEntry :: "'w cached_env \<Rightarrow> 'w \<Rightarrow> 'w \<times> (cache_error + cachedEntry \<times> string)" where
  "readEntry env w = (case ch_read env w of
     (w, Inl e) \<Rightarrow> (w, Inl e)
   | (w, Inr (d, version)) \<Rightarrow> (w, case ch_decode env d of
       Inl err \<Rightarrow> Inl (CacheError (''decode cache entry: '' @ err)) | Inr entry \<Rightarrow> Inr (entry, version)))"

definition writeEntry :: "'w cached_env \<Rightarrow> cachedEntry \<Rightarrow> string \<Rightarrow> 'w \<Rightarrow> 'w \<times> (cache_error + string)" where
  "writeEntry env entry version w = ch_write env version (ch_encode env entry) w"

definition releaseLock :: "'w cached_env \<Rightarrow> cachedEntry option \<Rightarrow> string \<Rightarrow> 'w \<Rightarrow> 'w" where
  "releaseLock env prev version w = fst (writeEntry env (unlocked prev) version w)"

definition prevResponse :: "cachedEntry option \<Rightarrow> CurrentResponse option" where
  "prevResponse entry = Option.bind entry ce_Response"

text \<open>The result when a wait or a claim fails: the last response if there is one.\<close>

definition staleOr :: "cachedEntry option \<Rightarrow> registry_error \<Rightarrow> registry_error + CurrentResponse" where
  "staleOr entry err = (case prevResponse entry of Some r \<Rightarrow> Inr r | None \<Rightarrow> Inl err)"

definition refreshAndPublish :: "'w cached_env \<Rightarrow> cachedEntry option \<Rightarrow> string \<Rightarrow> 'w \<Rightarrow> 'w \<times> (registry_error + CurrentResponse)" where
  "refreshAndPublish env prev version w =
     (case ch_inner env w of
        (w, Inl err) \<Rightarrow> (releaseLock env prev version w, staleOr prev err)
      | (w, Inr res) \<Rightarrow> (case ch_now env w of
          (w, now) \<Rightarrow> (fst (writeEntry env (publishedEntry res now) version w), Inr res)))"

text \<open>A turn of the loop ends with a result or goes on; errors of the context carry their text.\<close>

definition sleepOr :: "'w cached_env \<Rightarrow> Cached \<Rightarrow> cachedEntry option \<Rightarrow> 'w \<Rightarrow> 'w \<times> (registry_error + CurrentResponse) option" where
  "sleepOr env c entry w = (case ch_sleep env (ca_wait c) w of
     (w, Some err) \<Rightarrow> (w, Some (staleOr entry (RegistryError err)))
   | (w, None) \<Rightarrow> (w, None))"

definition tryClaim :: "'w cached_env \<Rightarrow> Cached \<Rightarrow> cachedEntry option \<Rightarrow> string \<Rightarrow> 'w \<Rightarrow> 'w \<times> (registry_error + CurrentResponse) option" where
  "tryClaim env c entry version w =
     (case ch_now env w of (w, now) \<Rightarrow>
       (case writeEntry env (buildClaim entry (ca_nodeID c) now) version w of
          (w, Inr newVersion) \<Rightarrow> apsnd Some (refreshAndPublish env entry newVersion w)
        | (w, Inl e) \<Rightarrow>
            if IsConflict e then sleepOr env c entry w
            else (case prevResponse entry of Some r \<Rightarrow> (w, Some (Inr r)) | None \<Rightarrow> apsnd Some (ch_inner env w))))"

definition Cached_turn :: "'w cached_env \<Rightarrow> Cached \<Rightarrow> instant \<Rightarrow> 'w \<Rightarrow> 'w \<times> (registry_error + CurrentResponse) option" where
  "Cached_turn env c deadline w =
     (case readEntry env w of
        (w, Inl e) \<Rightarrow> if IsNotFound e then tryClaim env c None [] w else apsnd Some (ch_inner env w)
      | (w, Inr (entry, version)) \<Rightarrow>
          (case ch_now env w of (w, t1) \<Rightarrow>
             if isFresh c t1 entry then (w, map_option Inr (ce_Response entry))
             else (case ch_now env w of (w, t2) \<Rightarrow>
               if isLocked c t2 entry then
                 (case ch_now env w of (w, t3) \<Rightarrow>
                    if t3 < deadline then sleepOr env c (Some entry) w else tryClaim env c (Some entry) version w)
               else tryClaim env c (Some entry) version w)))"

partial_function (option) Cached_loop ::
    "'w cached_env \<Rightarrow> Cached \<Rightarrow> instant \<Rightarrow> 'w \<Rightarrow> ('w \<times> (registry_error + CurrentResponse)) option" where
  "Cached_loop env c deadline w = (case Cached_turn env c deadline w of
     (w, Some r) \<Rightarrow> Some (w, r) | (w, None) \<Rightarrow> Cached_loop env c deadline w)"

definition Cached_Current :: "'w cached_env \<Rightarrow> Cached \<Rightarrow> 'w \<Rightarrow> ('w \<times> (registry_error + CurrentResponse)) option" where
  "Cached_Current env c w = (case ch_now env w of (w, now) \<Rightarrow> Cached_loop env c (now + (ca_lockTTL c + ca_wait c)) w)"

definition Cached_Report :: "(ReportRequest \<Rightarrow> 'w \<Rightarrow> 'w \<times> string option) \<Rightarrow> ReportRequest \<Rightarrow> 'w \<Rightarrow> 'w \<times> string option" where
  "Cached_Report inner req w = inner req w"
section \<open>Lemmas on one instance\<close>

text \<open>A counter of the calls of the wrapped registry that no other operation touches.\<close>

definition counts_upstream :: "('w \<Rightarrow> nat) \<Rightarrow> 'w cached_env \<Rightarrow> bool" where
  "counts_upstream calls env = ((\<forall>w. calls (fst (ch_read env w)) = calls w) \<and> (\<forall>v d w. calls (fst (ch_write env v d w)) = calls w) \<and>
     (\<forall>w. calls (fst (ch_now env w)) = calls w) \<and> (\<forall>t w. calls (fst (ch_sleep env t w)) = calls w) \<and>
     (\<forall>w. calls (fst (ch_inner env w)) = Suc (calls w)))"

lemma counts_upstreamD:
  assumes "counts_upstream calls env"
  shows "calls (fst (ch_read env w)) = calls w" "calls (fst (ch_write env v d w)) = calls w"
    "calls (fst (ch_now env w)) = calls w" "calls (fst (ch_sleep env dur w)) = calls w"
    "calls (fst (ch_inner env w)) = Suc (calls w)"
  using assms unfolding counts_upstream_def by blast+

lemma readEntry_calls: "counts_upstream calls env \<Longrightarrow> calls (fst (readEntry env w)) = calls w"
  by (auto simp: readEntry_def split_beta counts_upstreamD split: sum.splits)

lemma writeEntry_calls: "counts_upstream calls env \<Longrightarrow> calls (fst (writeEntry env e v w)) = calls w"
  by (simp add: writeEntry_def counts_upstreamD)

lemma refreshAndPublish_calls: "counts_upstream calls env \<Longrightarrow> calls (fst (refreshAndPublish env prev v w)) = Suc (calls w)"
  by (auto simp: refreshAndPublish_def releaseLock_def split_beta writeEntry_calls counts_upstreamD split: sum.splits)

lemma sleepOr_calls: "counts_upstream calls env \<Longrightarrow> calls (fst (sleepOr env c e w)) = calls w"
  by (auto simp: sleepOr_def split_beta counts_upstreamD split: option.splits)

lemma tryClaim_calls:
  assumes "counts_upstream calls env"
  shows "calls (fst (tryClaim env c e v w)) \<le> Suc (calls w) \<and> (snd (tryClaim env c e v w) = None \<longrightarrow> calls (fst (tryClaim env c e v w)) = calls w)"
  by (auto simp: tryClaim_def split_beta counts_upstreamD [OF assms] writeEntry_calls [OF assms] refreshAndPublish_calls [OF assms]
      sleepOr_calls [OF assms] split: sum.splits option.splits)

lemma tryClaim_calls_from:
  assumes "counts_upstream calls env" and "calls w = n"
  shows "calls (fst (tryClaim env c e v w)) \<le> Suc n" "snd (tryClaim env c e v w) = None \<Longrightarrow> calls (fst (tryClaim env c e v w)) = n"
  using tryClaim_calls [OF assms(1), of c e v w] assms(2) by auto

lemma Cached_turn_calls:
  assumes "counts_upstream calls env" and "Cached_turn env c dl w = (w', r)"
  shows "calls w' \<le> Suc (calls w) \<and> (r = None \<longrightarrow> calls w' = calls w)"
proof -
  have "calls (fst (Cached_turn env c dl w)) \<le> Suc (calls w) \<and> (snd (Cached_turn env c dl w) = None \<longrightarrow> calls (fst (Cached_turn env c dl w)) = calls w)"
    by (auto simp: Cached_turn_def split_beta counts_upstreamD [OF assms(1)] readEntry_calls [OF assms(1)]
        sleepOr_calls [OF assms(1)] split: sum.splits intro!: tryClaim_calls_from [OF assms(1)])
  with assms(2) show ?thesis by simp
qed

lemma Cached_loop_calls:
  assumes "counts_upstream calls env" and "Cached_loop env c dl w = Some (w', r)"
  shows "calls w' \<le> Suc (calls w)"
proof -
  have "env = env \<longrightarrow> calls (fst (w', r)) \<le> Suc (calls w)"
  proof (rule Cached_loop.raw_induct [of "\<lambda>e c dl w y. e = env \<longrightarrow> calls (fst y) \<le> Suc (calls w)", OF _ assms(2)])
    fix f e c dl w and y :: "'a \<times> (registry_error + CurrentResponse)"
    assume ih: "\<And>e c dl w y. f e c dl w = Some y \<Longrightarrow> e = env \<longrightarrow> calls (fst y) \<le> Suc (calls w)"
      and y: "(case Cached_turn e c dl w of (w, None) \<Rightarrow> f e c dl w | (w, Some r) \<Rightarrow> Some (w, r)) = Some y"
    obtain w1 o1 where t: "Cached_turn e c dl w = (w1, o1)" by (rule prod.exhaust)
    show "e = env \<longrightarrow> calls (fst y) \<le> Suc (calls w)"
    proof
      assume e: "e = env"
      note k = Cached_turn_calls [OF assms(1) t [unfolded e]]
      show "calls (fst y) \<le> Suc (calls w)"
      proof (cases o1)
        case None
        with y t have "f e c dl w1 = Some y" by simp
        from ih [OF this] e k None show ?thesis by simp
      next
        case (Some r)
        with y t k show ?thesis by auto
      qed
    qed
  qed
  then show ?thesis by simp
qed

text \<open>
  A cell that a peer locked and never touches again: reading always gives the same entry, sleeping
  succeeds and lets at least that much time pass, the clock does not go back, and nobody else
  writes, so that a write at the version read meets no conflict.
\<close>

definition abandoned :: "'w cached_env \<Rightarrow> ('w \<Rightarrow> instant) \<Rightarrow> ('w \<Rightarrow> bool) \<Rightarrow> string \<Rightarrow> string \<Rightarrow> bool" where
  "abandoned env clock S d v = ((\<forall>w. S w \<longrightarrow> ch_read env w = (w, Inr (d, v)) \<and> ch_now env w = (w, clock w) \<and>
     (\<forall>t. \<exists>w'. ch_sleep env t w = (w', None) \<and> S w' \<and> clock w + t \<le> clock w') \<and>
     (\<forall>x e. snd (ch_write env v x w) = Inl e \<longrightarrow> \<not> IsConflict e)) \<and> (\<exists>entry. ch_decode env d = Inr entry))"

lemma tryClaim_abandoned:
  assumes "abandoned env clock S d v" and "S w"
  shows "\<exists>w' r. tryClaim env c entry v w = (w', Some r)"
proof -
  have now: "ch_now env w = (w, clock w)" using assms by (simp add: abandoned_def)
  obtain w1 r1 where wr: "writeEntry env (buildClaim entry (ca_nodeID c) (clock w)) v w = (w1, r1)" by (rule prod.exhaust)
  have "\<not> IsConflict e" if "r1 = Inl e" for e
    using assms wr that by (metis abandoned_def writeEntry_def snd_conv)
  with now wr show ?thesis
    by (cases r1) (auto simp: tryClaim_def apsnd_def map_prod_def split: prod.splits option.splits)
qed

lemma Cached_turn_abandoned:
  assumes "abandoned env clock S d v" and "S w"
  shows "(\<exists>w' r. Cached_turn env c dl w = (w', Some r)) \<or>
    (\<exists>w'. Cached_turn env c dl w = (w', None) \<and> S w' \<and> clock w < dl \<and> clock w + ca_wait c \<le> clock w')"
proof -
  from assms obtain entry where dec: "ch_decode env d = Inr entry" by (auto simp: abandoned_def)
  with assms have rd: "readEntry env w = (w, Inr (entry, v))" by (simp add: readEntry_def abandoned_def)
  have now: "ch_now env w = (w, clock w)" using assms by (simp add: abandoned_def)
  obtain w' where sl: "ch_sleep env (ca_wait c) w = (w', None)" "S w'" "clock w + ca_wait c \<le> clock w'"
    using assms unfolding abandoned_def by blast
  obtain w2 r where tc: "tryClaim env c (Some entry) v w = (w2, Some r)" using tryClaim_abandoned [OF assms] by blast
  show ?thesis
  proof (cases "isFresh c (clock w) entry")
    case True
    then obtain res where "ce_Response entry = Some res" by (auto simp: isFresh_def)
    with True rd now show ?thesis by (simp add: Cached_turn_def)
  next
    case False
    then show ?thesis using rd now sl tc by (auto simp: Cached_turn_def sleepOr_def)
  qed
qed

lemma Cached_loop_done: "Cached_turn env c dl w = (w', Some r) \<Longrightarrow> Cached_loop env c dl w = Some (w', r)"
  by (subst Cached_loop.simps) simp

lemma Cached_loop_abandoned:
  assumes "abandoned env clock S d v" and "0 < ca_wait c"
  shows "S w \<Longrightarrow> \<exists>y. Cached_loop env c dl w = Some y"
proof (induction "nat (dl - clock w)" arbitrary: w rule: less_induct)
  case less
  from Cached_turn_abandoned [OF assms(1) less(2), of c dl] show ?case
  proof (elim disjE exE conjE)
    fix w' r
    assume "Cached_turn env c dl w = (w', Some r)"
    from Cached_loop_done [OF this] show ?thesis by blast
  next
    fix w'
    assume t: "Cached_turn env c dl w = (w', None)" "S w'" "clock w < dl" "clock w + ca_wait c \<le> clock w'"
    then have "nat (dl - clock w') < nat (dl - clock w)" using assms(2) by simp
    from less(1) [OF this t(2)] t(1) show ?thesis by (subst Cached_loop.simps) simp
  qed
qed

lemma maxLockTTL_range: "seconds 30 \<le> maxLockTTL ttl \<and> maxLockTTL ttl \<le> seconds 300"
  by (simp add: maxLockTTL_def Let_def seconds_def)
text \<open>Answers are only shared through a cloud backend, with a lock that lasts 30 seconds to 5 minutes.\<close>

lemma openRegistry_shared:
  assumes "cache_New urlParse du dir s3Err gsErr u = Inr cache"
    and "openRegistry construct sha256Hex canonical pl host pid cache url = Some (Shared r c)"
  shows "schemeOf urlParse u \<in> {''s3'', ''gs''} \<and> 0 < ca_ttl c \<and> seconds 30 \<le> ca_lockTTL c \<and> ca_lockTTL c \<le> seconds 300 \<and>
    hasPrefix (ca_cacheKey c) registryCacheKeyPrefix"
  using assms(2) cache_New_wf [OF assms(1)] maxLockTTL_range
  by (auto simp: openRegistry_def Let_def NewCached_def cacheKeyForScope_def split: sum.splits if_splits)

section \<open>Properties\<close>

definition shared_cache :: Cached where
  "shared_cache = \<lparr>ca_ttl = 100, ca_lockTTL = 30, ca_wait = 1, ca_nodeID = ''a:1'', ca_cacheKey = ''k''\<rparr>"

text \<open>
  Claim C25. One query asks the wrapped registry at most once, whatever the cache and the other
  instances do, and not at all when the entry it reads is fresh: then that response is the result
  and nothing is written.
\<close>

theorem Cached_Current_single_upstream:
  assumes "counts_upstream calls env" and "Cached_Current env c w = Some (w', r)"
  shows "calls w' \<le> Suc (calls w) \<and>
    (\<forall>w1 now w2 entry version w3 t. ch_now env w = (w1, now) \<longrightarrow> readEntry env w1 = (w2, Inr (entry, version)) \<longrightarrow>
       ch_now env w2 = (w3, t) \<longrightarrow> isFresh c t entry \<longrightarrow> w' = w3 \<and> ce_Response entry = (case r of Inr res \<Rightarrow> Some res | Inl _ \<Rightarrow> None) \<and> calls w' = calls w)"
proof -
  obtain w1 now where n: "ch_now env w = (w1, now)" by (rule prod.exhaust)
  have l: "Cached_loop env c (now + (ca_lockTTL c + ca_wait c)) w1 = Some (w', r)"
    using assms(2) n by (simp add: Cached_Current_def)
  have c1: "calls w1 = calls w" using counts_upstreamD(3) [OF assms(1), of w] n by simp
  have F: "w' = w3 \<and> ce_Response entry = (case r of Inr res \<Rightarrow> Some res | Inl _ \<Rightarrow> None) \<and> calls w' = calls w"
    if f: "readEntry env w1 = (w2, Inr (entry, version))" "ch_now env w2 = (w3, t)" "isFresh c t entry" for w2 entry version w3 t
  proof -
    from f(3) obtain res where res: "ce_Response entry = Some res" by (auto simp: isFresh_def)
    with f have "Cached_turn env c (now + (ca_lockTTL c + ca_wait c)) w1 = (w3, Some (Inr res))" by (simp add: Cached_turn_def)
    from Cached_loop_done [OF this] l have "w' = w3" "r = Inr res" by simp_all
    with res f c1 counts_upstreamD(3) [OF assms(1), of w2] readEntry_calls [OF assms(1), of w1] show ?thesis by simp
  qed
  show ?thesis
  proof (rule conjI)
    show "calls w' \<le> Suc (calls w)" using Cached_loop_calls [OF assms(1) l] c1 by simp
  next
    show "\<forall>w1 now w2 entry version w3 t. ch_now env w = (w1, now) \<longrightarrow> readEntry env w1 = (w2, Inr (entry, version)) \<longrightarrow>
       ch_now env w2 = (w3, t) \<longrightarrow> isFresh c t entry \<longrightarrow> w' = w3 \<and> ce_Response entry = (case r of Inr res \<Rightarrow> Some res | Inl _ \<Rightarrow> None) \<and> calls w' = calls w"
    proof (intro allI impI)
      fix w1' now' w2 entry version w3 t
      assume "ch_now env w = (w1', now')" "readEntry env w1' = (w2, Inr (entry, version))" "ch_now env w2 = (w3, t)" "isFresh c t entry"
      with n F show "w' = w3 \<and> ce_Response entry = (case r of Inr res \<Rightarrow> Some res | Inl _ \<Rightarrow> None) \<and> calls w' = calls w" by fastforce
    qed
  qed
qed

text \<open>A cache with one entry, a clock that sleeping moves on, and a registry that answers.\<close>

record cache_world =
  cw_clock :: instant
  cw_calls :: nat
  cw_entry :: "cachedEntry option"

definition answer :: CurrentResponse where
  "answer = \<lparr>cr_ID = ''i'', cr_Tag = ''v1'', cr_ArtifactURL = ''u'', cr_CreatedAt = None, cr_Slot = []\<rparr>"

definition cache_of :: "cachedEntry \<Rightarrow> cache_world cached_env" where
  "cache_of e = \<lparr>ch_read = (\<lambda>w. (w, Inr (''d'', ''1''))), ch_write = (\<lambda>v d w. (w, Inr ''2'')), ch_now = (\<lambda>w. (w, cw_clock w)),
     ch_sleep = (\<lambda>t w. (w\<lparr>cw_clock := cw_clock w + t\<rparr>, None)), ch_inner = (\<lambda>w. (w\<lparr>cw_calls := Suc (cw_calls w)\<rparr>, Inr answer)),
     ch_encode = (\<lambda>e. []), ch_decode = (\<lambda>d. Inr e)\<rparr>"

definition fresh_entry :: cachedEntry where
  "fresh_entry = \<lparr>ce_Response = Some answer, ce_FetchedAt = 950, ce_LockedAt = zeroTime, ce_LockedBy = []\<rparr>"

definition locked_entry :: cachedEntry where
  "locked_entry = \<lparr>ce_Response = None, ce_FetchedAt = zeroTime, ce_LockedAt = 999, ce_LockedBy = ''b:1''\<rparr>"

definition world_at :: "instant \<Rightarrow> cache_world" where
  "world_at t = \<lparr>cw_clock = t, cw_calls = 0, cw_entry = None\<rparr>"

theorem Cached_Current_single_upstream_witness:
  "Cached_Current (cache_of fresh_entry) shared_cache (world_at 1000) = Some (world_at 1000, Inr answer) \<and> cw_calls (world_at 1000) = 0"
proof -
  let ?env = "cache_of fresh_entry"
  have cu: "counts_upstream cw_calls ?env" by (simp add: counts_upstream_def cache_of_def)
  have f: "ch_now ?env (world_at 1000) = (world_at 1000, 1000)" "readEntry ?env (world_at 1000) = (world_at 1000, Inr (fresh_entry, ''1''))"
      "isFresh shared_cache 1000 fresh_entry"
    by (simp_all add: cache_of_def world_at_def readEntry_def isFresh_def shared_cache_def fresh_entry_def time_Sub_def int64_defs)
  have t: "Cached_turn ?env shared_cache dl (world_at 1000) = (world_at 1000, Some (Inr answer))" for dl
    using f by (simp add: Cached_turn_def fresh_entry_def)
  have r: "Cached_Current ?env shared_cache (world_at 1000) = Some (world_at 1000, Inr answer)"
    using f(1) Cached_loop_done [OF t] by (simp add: Cached_Current_def)
  from Cached_Current_single_upstream [OF cu r, THEN conjunct2, rule_format, OF f(1) f(2) f(1) f(3)] r
  show ?thesis by (simp add: world_at_def)
qed



end
