(* ===== verification/Registry_Lease.thy ===== *)
theory Registry_Lease
  imports Registry_Cached
begin

text \<open>
  Several instances on one shared registry cache (registry/cached.go): the decisions of Current as
  a step relation on the shared cell, the abstract lease that it implements, and the proof that
  the code of one instance runs along that relation whatever the others do in between.
\<close>

section \<open>Several instances\<close>

text \<open>
  The shared cell holds an entry with its version, cl_hist the entries that versions stood for so
  far. An instance goes through the phases of Current.
\<close>

datatype phase =
    Idle
  | Reading instant
  | Deciding instant "cachedEntry option" string
  | Refreshing "cachedEntry option" string
  | Publishing "cachedEntry option" CurrentResponse string
  | Releasing "cachedEntry option" string

record cluster =
  cl_cell :: "(cachedEntry \<times> string) option"
  cl_hist :: "string \<rightharpoonup> cachedEntry"
  cl_now :: instant
  cl_node :: "string \<Rightarrow> phase"

definition cell_version :: "cluster \<Rightarrow> string" where
  "cell_version s = (case cl_cell s of None \<Rightarrow> [] | Some (e, v) \<Rightarrow> v)"

definition cell_entry :: "cluster \<Rightarrow> cachedEntry option" where
  "cell_entry s = map_option fst (cl_cell s)"

text \<open>A conditional write that meets its condition.\<close>

definition put :: "cachedEntry \<Rightarrow> string \<Rightarrow> cluster \<Rightarrow> cluster" where
  "put e v s = s\<lparr>cl_cell := Some (e, v), cl_hist := (cl_hist s)(v \<mapsto> e)\<rparr>"

text \<open>
  The version a write can give: one never used before (the generation of Cloud Storage), or one
  used before for the same content (the entity tag of S3). The content of a claim is new, since
  it carries the name of the instance and the time.
\<close>

definition new_version :: "cluster \<Rightarrow> cachedEntry \<Rightarrow> string \<Rightarrow> bool" where
  "new_version s e v = (v \<noteq> [] \<and> (case cl_hist s v of None \<Rightarrow> True | Some e' \<Rightarrow> e' = e \<and> ce_LockedAt e = zeroTime))"

definition goto :: "string \<Rightarrow> phase \<Rightarrow> cluster \<Rightarrow> cluster" where
  "goto n p s = s\<lparr>cl_node := (cl_node s)(n := p)\<rparr>"

definition may_claim :: "Cached \<Rightarrow> instant \<Rightarrow> instant \<Rightarrow> instant \<Rightarrow> instant \<Rightarrow> cachedEntry option \<Rightarrow> bool" where
  "may_claim c t1 t2 t3 deadline entry = (case entry of None \<Rightarrow> True
     | Some e \<Rightarrow> \<not> isFresh c t1 e \<and> (isLocked c t2 e \<longrightarrow> deadline \<le> t3))"

text \<open>
  A claim whose outcome the instance does not learn (LoseClaim) may have been written; the errors
  of the writes that publish and release are ignored by the code. The model also admits conflicts
  that are reported without cause. GiveUp is a crash, an error of the cache or
  the end of the context.
\<close>

inductive cached_step :: "Cached \<Rightarrow> cluster \<Rightarrow> cluster \<Rightarrow> bool" for c where
  Tick: "t \<ge> cl_now s \<Longrightarrow> cached_step c s (s\<lparr>cl_now := t\<rparr>)"
| Start: "cl_node s n = Idle \<Longrightarrow> t \<le> cl_now s \<Longrightarrow> cached_step c s (goto n (Reading (t + (ca_lockTTL c + ca_wait c))) s)"
| Read: "cl_node s n = Reading dl \<Longrightarrow> cached_step c s (goto n (Deciding dl (cell_entry s) (cell_version s)) s)"
| Serve: "cl_node s n = Deciding dl (Some e) v \<Longrightarrow> t \<le> cl_now s \<Longrightarrow> isFresh c t e \<Longrightarrow> cached_step c s (goto n Idle s)"
| Wait: "cl_node s n = Deciding dl (Some e) v \<Longrightarrow> t2 \<le> t3 \<Longrightarrow> t3 \<le> cl_now s \<Longrightarrow> isLocked c t2 e \<Longrightarrow> t3 < dl \<Longrightarrow>
    cached_step c s (goto n (Reading dl) s)"
| Claim: "cl_node s n = Deciding dl e v \<Longrightarrow> t1 \<le> t2 \<Longrightarrow> t2 \<le> t3 \<Longrightarrow> t3 \<le> t4 \<Longrightarrow> t4 \<le> cl_now s \<Longrightarrow> t4 \<noteq> zeroTime \<Longrightarrow>
    may_claim c t1 t2 t3 dl e \<Longrightarrow> cell_version s = v \<Longrightarrow> new_version s (buildClaim e n t4) v' \<Longrightarrow>
    cached_step c s (goto n (Refreshing e v') (put (buildClaim e n t4) v' s))"
| LoseClaim: "cl_node s n = Deciding dl e v \<Longrightarrow> t1 \<le> t2 \<Longrightarrow> t2 \<le> t3 \<Longrightarrow> t3 \<le> t4 \<Longrightarrow> t4 \<le> cl_now s \<Longrightarrow> t4 \<noteq> zeroTime \<Longrightarrow>
    may_claim c t1 t2 t3 dl e \<Longrightarrow> cell_version s = v \<Longrightarrow> new_version s (buildClaim e n t4) v' \<Longrightarrow>
    cached_step c s (goto n Idle (put (buildClaim e n t4) v' s))"
| Conflict: "cl_node s n = Deciding dl e v \<Longrightarrow> cached_step c s (goto n (Reading dl) s)"
| Upstream: "cl_node s n = Refreshing e v \<Longrightarrow> cached_step c s (goto n (Publishing e res v) s)"
| UpstreamError: "cl_node s n = Refreshing e v \<Longrightarrow> cached_step c s (goto n (Releasing e v) s)"
| Publish: "cl_node s n = Publishing e res v \<Longrightarrow> t \<le> cl_now s \<Longrightarrow> cell_version s = v \<Longrightarrow> new_version s (publishedEntry res t) v' \<Longrightarrow>
    cached_step c s (goto n Idle (put (publishedEntry res t) v' s))"
| Release: "cl_node s n = Releasing e v \<Longrightarrow> cell_version s = v \<Longrightarrow> new_version s (unlocked e) v' \<Longrightarrow>
    cached_step c s (goto n Idle (put (unlocked e) v' s))"
| GiveUp: "cached_step c s (goto n Idle s)"

inductive_cases cached_stepE: "cached_step c s s'"

definition cluster_init :: "instant \<Rightarrow> cluster" where
  "cluster_init t = \<lparr>cl_cell = None, cl_hist = Map.empty, cl_now = t, cl_node = (\<lambda>n. Idle)\<rparr>"

definition cluster_reach :: "Cached \<Rightarrow> cluster \<Rightarrow> bool" where
  "cluster_reach c s = (\<exists>t. (cached_step c)\<^sup>*\<^sup>* (cluster_init t) s)"

section \<open>The lease\<close>

text \<open>
  What the cache promises, without entries and phases: a value, and at most one lease, named by a
  token that is never given twice. Anyone may take a new lease, which ends the old one; only the
  token of the current lease changes the value or gives the lease back.
\<close>

record lease =
  le_value :: "CurrentResponse option \<times> instant"
  le_holder :: "string option"
  le_tokens :: "string set"

inductive lease_step :: "lease \<Rightarrow> lease \<Rightarrow> bool" where
  Acquire: "tk \<notin> le_tokens a \<Longrightarrow> lease_step a (a\<lparr>le_holder := Some tk, le_tokens := insert tk (le_tokens a)\<rparr>)"
| Put: "le_holder a = Some tk \<Longrightarrow> lease_step a (a\<lparr>le_value := (Some res, t), le_holder := None, le_tokens := insert x (le_tokens a)\<rparr>)"
| Drop: "le_holder a = Some tk \<Longrightarrow> lease_step a (a\<lparr>le_holder := None, le_tokens := insert x (le_tokens a)\<rparr>)"

definition entry_value :: "cachedEntry option \<Rightarrow> CurrentResponse option \<times> instant" where
  "entry_value e = (case e of None \<Rightarrow> (None, zeroTime) | Some e \<Rightarrow> (ce_Response e, ce_FetchedAt e))"

definition lease_of :: "cluster \<Rightarrow> lease" where
  "lease_of s = \<lparr>le_value = entry_value (cell_entry s),
     le_holder = (case cl_cell s of Some (e, v) \<Rightarrow> if ce_LockedAt e \<noteq> zeroTime then Some v else None | None \<Rightarrow> None),
     le_tokens = dom (cl_hist s)\<rparr>"

text \<open>An instance that refreshes holds the version of its claim, based on the entry it read.\<close>

fun holds :: "phase \<Rightarrow> (cachedEntry option \<times> string) option" where
  "holds (Refreshing e v) = Some (e, v)"
| "holds (Publishing e res v) = Some (e, v)"
| "holds (Releasing e v) = Some (e, v)"
| "holds _ = None"

fun has_read :: "phase \<Rightarrow> (cachedEntry option \<times> string) option" where
  "has_read (Deciding dl e v) = Some (e, v)"
| "has_read _ = None"

text \<open>The cell is the last entry of its version; what an instance has read or claimed is in the history.\<close>

definition phase_inv :: "(string \<rightharpoonup> cachedEntry) \<Rightarrow> string \<Rightarrow> phase \<Rightarrow> bool" where
  "phase_inv h n p = ((\<forall>e v. has_read p = Some (e, v) \<longrightarrow> (if v = [] then e = None else e \<noteq> None \<and> h v = e)) \<and>
     (\<forall>e v. holds p = Some (e, v) \<longrightarrow> v \<noteq> [] \<and> (\<exists>t. t \<noteq> zeroTime \<and> h v = Some (buildClaim e n t))))"

definition cluster_inv :: "cluster \<Rightarrow> bool" where
  "cluster_inv s = ((\<forall>e v. cl_cell s = Some (e, v) \<longrightarrow> v \<noteq> [] \<and> cl_hist s v = Some e) \<and>
     (\<forall>n. phase_inv (cl_hist s) n (cl_node s n)))"

lemma entry_value_simps [simp]:
  "entry_value (Some (buildClaim e n t)) = entry_value e" "entry_value (Some (unlocked e)) = entry_value e"
  "entry_value (Some (publishedEntry res t)) = (Some res, t)"
  "ce_LockedAt (buildClaim e n t) = t" "ce_LockedAt (unlocked e) = zeroTime" "ce_LockedAt (publishedEntry res t) = zeroTime"
  "ce_LockedBy (buildClaim e n t) = n"
  by (simp_all add: entry_value_def buildClaim_def unlocked_def publishedEntry_def split: option.splits)

lemma cluster_simps [simp]:
  "cl_cell (goto n p s) = cl_cell s" "cl_hist (goto n p s) = cl_hist s" "cl_now (goto n p s) = cl_now s"
  "cl_node (goto n p s) = (cl_node s)(n := p)" "goto n p (goto n q s) = goto n p s"
  "cl_cell (put e v s) = Some (e, v)" "cl_hist (put e v s) = (cl_hist s)(v \<mapsto> e)" "cl_node (put e v s) = cl_node s"
  "cl_now (put e v s) = cl_now s" "new_version (goto n p s) e v = new_version s e v"
  "cell_version (goto n p s) = cell_version s" "cell_entry (goto n p s) = cell_entry s"
  "cell_version (put e v s) = v" "cell_entry (put e v s) = Some e"
  "cell_version (s\<lparr>cl_now := t\<rparr>) = cell_version s" "cell_entry (s\<lparr>cl_now := t\<rparr>) = cell_entry s"
  by (simp_all add: goto_def put_def cell_version_def cell_entry_def new_version_def)

lemma cell_of_version: "cluster_inv s \<Longrightarrow> cell_version s = v \<Longrightarrow> v \<noteq> [] \<Longrightarrow> cl_cell s = Some (the (cl_hist s v), v)"
  by (auto simp: cluster_inv_def cell_version_def split: option.splits)

lemma cell_of_no_version: "cluster_inv s \<Longrightarrow> cell_version s = [] \<Longrightarrow> cl_cell s = None"
  by (auto simp: cluster_inv_def cell_version_def split: option.splits)

lemma phase_inv_none: "has_read p = None \<Longrightarrow> holds p = None \<Longrightarrow> phase_inv h n p"
  by (simp add: phase_inv_def)

lemma phase_inv_put:
  "new_version s x v' \<Longrightarrow> phase_inv (cl_hist s) n p \<Longrightarrow> phase_inv ((cl_hist s)(v' \<mapsto> x)) n p"
  by (auto simp: phase_inv_def new_version_def split: option.splits)

lemma cluster_inv_goto: "cluster_inv s \<Longrightarrow> phase_inv (cl_hist s) n p \<Longrightarrow> cluster_inv (goto n p s)"
  by (simp add: cluster_inv_def)

lemma cluster_inv_put:
  assumes "cluster_inv s" and "new_version s x v'"
    and "holds p = None \<or> holds p = Some (e, v') \<and> (\<exists>t. t \<noteq> zeroTime \<and> x = buildClaim e n t)" and "has_read p = None"
  shows "cluster_inv (goto n p (put x v' s))"
proof -
  have "v' \<noteq> []" using assms(2) by (simp add: new_version_def)
  moreover from this have "phase_inv ((cl_hist s)(v' \<mapsto> x)) n p" using assms(3,4) by (auto simp: phase_inv_def)
  ultimately show ?thesis using assms(1) phase_inv_put [OF assms(2)] by (simp add: cluster_inv_def)
qed

lemma cluster_inv_phase: "cluster_inv s \<Longrightarrow> phase_inv (cl_hist s) n (cl_node s n)"
  by (simp add: cluster_inv_def)

lemma cluster_inv_step: "cached_step c s s' \<Longrightarrow> cluster_inv s \<Longrightarrow> cluster_inv s'"
proof (induction rule: cached_step.induct)
  case (Tick t s)
  then show ?case by (simp add: cluster_inv_def)
next
  case (Read s n dl)
  then show ?case
    by (intro cluster_inv_goto) (auto simp: cluster_inv_def cell_version_def cell_entry_def phase_inv_def split: option.splits prod.splits)
next
  case (Upstream s n e v res)
  then show ?case using cluster_inv_phase [of s n] by (intro cluster_inv_goto) (auto simp: phase_inv_def)
next
  case (UpstreamError s n e v)
  then show ?case using cluster_inv_phase [of s n] by (intro cluster_inv_goto) (auto simp: phase_inv_def)
next
  case (Claim s n dl e v t1 t2 t3 t4 v')
  then show ?case by (intro cluster_inv_put) auto
next
  case (LoseClaim s n dl e v t1 t2 t3 t4 v')
  then show ?case by (intro cluster_inv_put) auto
next
  case (Publish s n e res v t v')
  then show ?case by (intro cluster_inv_put) auto
next
  case (Release s n e v v')
  then show ?case by (intro cluster_inv_put) auto
qed (auto intro!: cluster_inv_goto phase_inv_none)

lemma cluster_inv_init: "cluster_inv (cluster_init t)"
  by (simp add: cluster_init_def cluster_inv_def phase_inv_def)

lemma cluster_inv_reach: "cluster_reach c s \<Longrightarrow> cluster_inv s"
proof -
  have "(cached_step c)\<^sup>*\<^sup>* s0 s \<Longrightarrow> cluster_inv s0 \<Longrightarrow> cluster_inv s" for s0
    by (induction rule: rtranclp_induct) (auto intro: cluster_inv_step)
  then show "cluster_reach c s \<Longrightarrow> cluster_inv s"
    using cluster_inv_init unfolding cluster_reach_def by blast
qed

text \<open>A held version that is still in the cell names the current lease.\<close>

lemma held_in_cell:
  assumes "cluster_inv s" and "holds (cl_node s n) = Some (e, v)" and "cell_version s = v"
  shows "\<exists>t. t \<noteq> zeroTime \<and> cl_cell s = Some (buildClaim e n t, v)"
  using cluster_inv_phase [OF assms(1), of n] cell_of_version [OF assms(1,3)] assms(2) by (auto simp: phase_inv_def)

lemma holder_of_cell:
  assumes "cluster_inv s" and "holds (cl_node s n) = Some (e, v)" and "cell_version s = v"
  shows "le_holder (lease_of s) = Some v \<and> le_value (lease_of s) = entry_value e"
  using held_in_cell [OF assms] by (auto simp: lease_of_def cell_entry_def)

lemma read_of_cell:
  assumes "cluster_inv s" and "has_read (cl_node s n) = Some (e, v)" and "cell_version s = v"
  shows "cell_entry s = e"
  using cluster_inv_phase [OF assms(1), of n] cell_of_version [OF assms(1,3)] cell_of_no_version [OF assms(1)] assms(2,3)
  by (cases "v = []") (auto simp: phase_inv_def cell_entry_def)

lemma lease_of_goto [simp]: "lease_of (goto n p s) = lease_of s"
  by (simp add: lease_of_def)

lemma lease_of_now [simp]: "lease_of (s\<lparr>cl_now := t\<rparr>) = lease_of s"
  by (simp add: lease_of_def)

lemma lease_of_put:
  "lease_of (put e v s) = \<lparr>le_value = entry_value (Some e), le_holder = (if ce_LockedAt e \<noteq> zeroTime then Some v else None),
     le_tokens = insert v (dom (cl_hist s))\<rparr>"
  by (auto simp: lease_of_def)

lemma lease_of_claim:
  assumes "cluster_inv s" and "cl_node s n = Deciding dl e v" and "cell_version s = v" and "t \<noteq> zeroTime"
    and "new_version s (buildClaim e n t) v'"
  shows "lease_step (lease_of s) (lease_of (put (buildClaim e n t) v' s))"
proof -
  have e: "cell_entry s = e" using read_of_cell [OF assms(1), of n e v] assms(2,3) by simp
  have "lease_of (put (buildClaim e n t) v' s) = (lease_of s)\<lparr>le_holder := Some v', le_tokens := insert v' (le_tokens (lease_of s))\<rparr>"
    using e assms(4) by (simp add: lease_of_put) (simp add: lease_of_def)
  moreover have "v' \<notin> le_tokens (lease_of s)" using assms(4,5) by (auto simp: lease_of_def new_version_def)
  ultimately show ?thesis by (auto intro: lease_step.Acquire)
qed

lemma cached_step_lease:
  assumes "cached_step c s s'" and "cluster_inv s"
  shows "lease_of s' = lease_of s \<or> lease_step (lease_of s) (lease_of s')"
  using assms
proof (cases rule: cached_step.cases)
  case (Claim n dl e v t1 t2 t3 t4 v')
  then show ?thesis using lease_of_claim [OF assms(2)] by simp
next
  case (LoseClaim n dl e v t1 t2 t3 t4 v')
  then show ?thesis using lease_of_claim [OF assms(2)] by simp
next
  case (Publish n e res v t v')
  have "lease_of s' = (lease_of s)\<lparr>le_value := (Some res, t), le_holder := None, le_tokens := insert v' (le_tokens (lease_of s))\<rparr>"
    using Publish by (simp add: lease_of_put) (simp add: lease_of_def)
  moreover have "le_holder (lease_of s) = Some v" using holder_of_cell [OF assms(2), of n e v] Publish by simp
  ultimately show ?thesis by (auto intro: lease_step.Put)
next
  case (Release n e v v')
  note h = holder_of_cell [OF assms(2), of n e v]
  have "lease_of s' = (lease_of s)\<lparr>le_holder := None, le_tokens := insert v' (le_tokens (lease_of s))\<rparr>"
    using Release h by (simp add: lease_of_put) (simp add: lease_of_def)
  moreover have "le_holder (lease_of s) = Some v" using h Release by simp
  ultimately show ?thesis by (auto intro: lease_step.Drop)
qed simp_all

section \<open>The code runs along the steps\<close>

text \<open>What the others do while instance n is in some phase: any steps, in which n stays where it is.\<close>

definition interf :: "Cached \<Rightarrow> string \<Rightarrow> cluster \<Rightarrow> cluster \<Rightarrow> bool" where
  "interf c n s s' = (\<forall>p. (cached_step c)\<^sup>*\<^sup>* (goto n p s) (goto n p s'))"

text \<open>The effect of a conditional write of x at version v on the shared cell.\<close>

definition wrote :: "cachedEntry \<Rightarrow> string \<Rightarrow> cluster \<Rightarrow> cache_error + string \<Rightarrow> cluster \<Rightarrow> bool" where
  "wrote x v s res s' = (case res of
     Inr v' \<Rightarrow> cell_version s = v \<and> new_version s x v' \<and> s' = put x v' s
   | Inl e \<Rightarrow> if IsConflict e then s' = s
       else s' = s \<or> cell_version s = v \<and> (\<exists>v'. new_version s x v' \<and> s' = put x v' s))"

text \<open>
  The environment of an instance in a cluster, seen through view: the cache is the shared cell, the
  clock that of the cluster, and during each call the other instances make any steps.
\<close>

definition cell_env :: "Cached \<Rightarrow> ('w \<Rightarrow> cluster) \<Rightarrow> 'w cached_env \<Rightarrow> bool" where
  "cell_env c view env =
     ((\<forall>w w' d v. ch_read env w = (w', Inr (d, v)) \<longrightarrow> interf c (ca_nodeID c) (view w) (view w') \<and>
         (\<exists>e. ch_decode env d = Inr e \<and> cl_cell (view w') = Some (e, v))) \<and>
      (\<forall>w w' e. ch_read env w = (w', Inl e) \<longrightarrow> interf c (ca_nodeID c) (view w) (view w') \<and>
         (IsNotFound e \<longrightarrow> cl_cell (view w') = None)) \<and>
      (\<forall>x v w w' res. ch_write env v (ch_encode env x) w = (w', res) \<longrightarrow>
         (\<exists>s. interf c (ca_nodeID c) (view w) s \<and> wrote x v s res (view w'))) \<and>
      (\<forall>w w' t. ch_now env w = (w', t) \<longrightarrow> interf c (ca_nodeID c) (view w) (view w') \<and> t = cl_now (view w') \<and> t \<noteq> zeroTime) \<and>
      (\<forall>d w w' r. ch_sleep env d w = (w', r) \<longrightarrow> interf c (ca_nodeID c) (view w) (view w')) \<and>
      (\<forall>w w' r. ch_inner env w = (w', r) \<longrightarrow> interf c (ca_nodeID c) (view w) (view w')))"

lemma cell_envD:
  assumes "cell_env c view env"
  shows "ch_read env w = (w', Inr (d, v)) \<Longrightarrow> interf c (ca_nodeID c) (view w) (view w') \<and>
         (\<exists>e. ch_decode env d = Inr e \<and> cl_cell (view w') = Some (e, v))"
    and "ch_read env w = (w', Inl e) \<Longrightarrow> interf c (ca_nodeID c) (view w) (view w') \<and> (IsNotFound e \<longrightarrow> cl_cell (view w') = None)"
    and "writeEntry env x v w = (w', res) \<Longrightarrow> \<exists>s. interf c (ca_nodeID c) (view w) s \<and> wrote x v s res (view w')"
    and "ch_now env w = (w', t) \<Longrightarrow> interf c (ca_nodeID c) (view w) (view w') \<and> t = cl_now (view w') \<and> t \<noteq> zeroTime"
    and "ch_sleep env dur w = (w', r1) \<Longrightarrow> interf c (ca_nodeID c) (view w) (view w')"
    and "ch_inner env w = (w', r2) \<Longrightarrow> interf c (ca_nodeID c) (view w) (view w')"
  using assms unfolding cell_env_def writeEntry_def by metis+

text \<open>From phase p at s to phase q at s', the others interleaved.\<close>

definition runs :: "Cached \<Rightarrow> phase \<Rightarrow> cluster \<Rightarrow> phase \<Rightarrow> cluster \<Rightarrow> bool" where
  "runs c p s q s' = (cached_step c)\<^sup>*\<^sup>* (goto (ca_nodeID c) p s) (goto (ca_nodeID c) q s')"

lemma runs_trans [trans]: "runs c p s q s' \<Longrightarrow> runs c q s' r s'' \<Longrightarrow> runs c p s r s''"
  unfolding runs_def by (rule rtranclp_trans)

lemma runs_interf: "interf c (ca_nodeID c) s s' \<Longrightarrow> runs c p s p s'"
  by (simp add: runs_def interf_def)

lemma runs_step: "cached_step c (goto (ca_nodeID c) p s) (goto (ca_nodeID c) q s') \<Longrightarrow> runs c p s q s'"
  unfolding runs_def by (rule r_into_rtranclp)

lemma put_goto: "put e v (goto n p s) = goto n p (put e v s)"
  by (simp add: put_def goto_def)

lemma step_now: "cached_step c s s' \<Longrightarrow> cl_now s \<le> cl_now s'"
  by (cases rule: cached_step.cases) auto

lemma interf_now: "interf c n s s' \<Longrightarrow> cl_now s \<le> cl_now s'"
proof -
  have "(cached_step c)\<^sup>*\<^sup>* a b \<Longrightarrow> cl_now a \<le> cl_now b" for a b
    by (induction rule: rtranclp_induct) (auto dest: step_now)
  then show "interf c n s s' \<Longrightarrow> cl_now s \<le> cl_now s'" unfolding interf_def by (metis cluster_simps(3))
qed

lemma runs_giveUp: "runs c p s Idle s"
  using cached_step.GiveUp [of c "goto (ca_nodeID c) p s" "ca_nodeID c"] by (intro runs_step) simp

lemma runs_trans_giveUp: "runs c p s q s' \<Longrightarrow> runs c p s Idle s'"
  by (rule runs_trans [OF _ runs_giveUp])

lemma runs_start: "runs c Idle s (Reading (cl_now s + (ca_lockTTL c + ca_wait c))) s"
  using cached_step.Start [of "goto (ca_nodeID c) Idle s" "ca_nodeID c" "cl_now s" c] by (intro runs_step) simp

lemma runs_read: "runs c (Reading dl) s (Deciding dl (cell_entry s) (cell_version s)) s"
  using cached_step.Read [of "goto (ca_nodeID c) (Reading dl) s" "ca_nodeID c" dl c] by (intro runs_step) simp

lemma runs_serve: "t \<le> cl_now s \<Longrightarrow> isFresh c t e \<Longrightarrow> runs c (Deciding dl (Some e) v) s Idle s"
  using cached_step.Serve [of "goto (ca_nodeID c) (Deciding dl (Some e) v) s" "ca_nodeID c" dl e v t c] by (intro runs_step) simp

lemma runs_wait:
  "t2 \<le> t3 \<Longrightarrow> t3 \<le> cl_now s \<Longrightarrow> isLocked c t2 e \<Longrightarrow> t3 < dl \<Longrightarrow> runs c (Deciding dl (Some e) v) s (Reading dl) s"
  using cached_step.Wait [of "goto (ca_nodeID c) (Deciding dl (Some e) v) s" "ca_nodeID c" dl e v t2 t3 c] by (intro runs_step) simp

lemma runs_conflict: "runs c (Deciding dl e v) s (Reading dl) s"
  using cached_step.Conflict [of "goto (ca_nodeID c) (Deciding dl e v) s" "ca_nodeID c" dl e v c] by (intro runs_step) simp

lemma runs_upstream: "runs c (Refreshing e v) s (Publishing e res v) s" "runs c (Refreshing e v) s (Releasing e v) s"
  using cached_step.Upstream [of "goto (ca_nodeID c) (Refreshing e v) s" "ca_nodeID c" e v c res]
    cached_step.UpstreamError [of "goto (ca_nodeID c) (Refreshing e v) s" "ca_nodeID c" e v c]
  by (auto intro!: runs_step)

lemma runs_claim:
  assumes "t1 \<le> t2" "t2 \<le> t3" "t3 \<le> t4" "t4 \<le> cl_now s" "t4 \<noteq> zeroTime" "may_claim c t1 t2 t3 dl e"
    "cell_version s = v" "new_version s (buildClaim e (ca_nodeID c) t4) v'"
  shows "runs c (Deciding dl e v) s (Refreshing e v') (put (buildClaim e (ca_nodeID c) t4) v' s)"
    and "runs c (Deciding dl e v) s Idle (put (buildClaim e (ca_nodeID c) t4) v' s)"
  using cached_step.Claim [of "goto (ca_nodeID c) (Deciding dl e v) s" "ca_nodeID c" dl e v t1 t2 t3 t4 c v']
    cached_step.LoseClaim [of "goto (ca_nodeID c) (Deciding dl e v) s" "ca_nodeID c" dl e v t1 t2 t3 t4 c v'] assms
  by (simp_all add: put_goto runs_step)

lemma runs_publish:
  assumes "t \<le> cl_now s" "cell_version s = v" "new_version s (publishedEntry res t) v'"
  shows "runs c (Publishing e res v) s Idle (put (publishedEntry res t) v' s)"
  using cached_step.Publish [of "goto (ca_nodeID c) (Publishing e res v) s" "ca_nodeID c" e res v t v' c] assms
  by (simp add: put_goto runs_step)

lemma runs_release:
  assumes "cell_version s = v" "new_version s (unlocked e) v'"
  shows "runs c (Releasing e v) s Idle (put (unlocked e) v' s)"
  using cached_step.Release [of "goto (ca_nodeID c) (Releasing e v) s" "ca_nodeID c" e v v' c] assms
  by (simp add: put_goto runs_step)

text \<open>The last write of an instance: it took place as asked for, or nothing happened.\<close>

lemma runs_last_write:
  assumes "cell_env c view env" and "writeEntry env x v w = (w', res)"
    and "\<And>s v'. interf c (ca_nodeID c) (view w) s \<Longrightarrow> cell_version s = v \<Longrightarrow> new_version s x v' \<Longrightarrow> runs c p s Idle (put x v' s)"
  shows "runs c p (view w) Idle (view w')"
proof -
  from cell_envD(3) [OF assms(1,2)] obtain s where s: "interf c (ca_nodeID c) (view w) s" "wrote x v s res (view w')" by blast
  have "runs c p s Idle (view w')"
    using s(2) assms(3) [OF s(1)] runs_giveUp [of c p s] by (auto simp: wrote_def split: sum.splits if_splits)
  with runs_interf [OF s(1)] show ?thesis by (rule runs_trans)
qed

lemma runs_refresh:
  assumes "cell_env c view env" and "refreshAndPublish env e v w = (w', r)"
  shows "runs c (Refreshing e v) (view w) Idle (view w')"
proof -
  obtain w1 r1 where i: "ch_inner env w = (w1, r1)" by (rule prod.exhaust)
  have 1: "runs c (Refreshing e v) (view w) (Refreshing e v) (view w1)" by (rule runs_interf [OF cell_envD(6) [OF assms(1) i]])
  show ?thesis
  proof (cases r1)
    case (Inl err)
    then have "w' = fst (writeEntry env (unlocked e) v w1)" using assms(2) i by (simp add: refreshAndPublish_def releaseLock_def)
    then obtain x where "writeEntry env (unlocked e) v w1 = (w', x)" by (metis prod.collapse)
    from runs_last_write [OF assms(1) this] have "runs c (Releasing e v) (view w1) Idle (view w')" by (simp add: runs_release)
    with 1 runs_upstream(2) show ?thesis by (blast intro: runs_trans)
  next
    case (Inr res)
    obtain w2 t where n: "ch_now env w1 = (w2, t)" by (rule prod.exhaust)
    note t = cell_envD(4) [OF assms(1) n]
    have "w' = fst (writeEntry env (publishedEntry res t) v w2)" using assms(2) i Inr n by (simp add: refreshAndPublish_def)
    then obtain x where "writeEntry env (publishedEntry res t) v w2 = (w', x)" by (metis prod.collapse)
    from runs_last_write [OF assms(1) this] have "runs c (Publishing e res v) (view w2) Idle (view w')"
      using t by (simp add: runs_publish interf_now)
    with 1 runs_upstream(1) [of c e v "view w1" res] runs_interf [OF t [THEN conjunct1]] show ?thesis by (blast intro: runs_trans)
  qed
qed

definition after :: "instant \<Rightarrow> 'r option \<Rightarrow> phase" where
  "after dl r = (case r of None \<Rightarrow> Reading dl | Some _ \<Rightarrow> Idle)"

lemma runs_sleep:
  assumes "cell_env c view env" and "sleepOr env c e w = (w', r)"
  shows "runs c (Reading dl) (view w) (after dl r) (view w')"
proof -
  obtain w1 x where s: "ch_sleep env (ca_wait c) w = (w1, x)" by (rule prod.exhaust)
  with assms(2) have "w' = w1" by (auto simp: sleepOr_def split: option.splits)
  with runs_interf [OF cell_envD(5) [OF assms(1) s]] show ?thesis by (cases r) (auto simp: after_def intro: runs_trans_giveUp)
qed

lemma runs_tryClaim:
  assumes "cell_env c view env" and "tryClaim env c e v w = (w', r)"
    and "t1 \<le> t2" "t2 \<le> t3" "t3 \<le> cl_now (view w)" "may_claim c t1 t2 t3 dl e"
  shows "runs c (Deciding dl e v) (view w) (after dl r) (view w')"
proof -
  obtain w1 t4 where n: "ch_now env w = (w1, t4)" by (rule prod.exhaust)
  note t4 = cell_envD(4) [OF assms(1) n]
  let ?x = "buildClaim e (ca_nodeID c) t4"
  obtain w2 res where wr: "writeEntry env ?x v w1 = (w2, res)" by (rule prod.exhaust)
  from cell_envD(3) [OF assms(1) wr] obtain s where s: "interf c (ca_nodeID c) (view w1) s" "wrote ?x v s res (view w2)" by blast
  have to_s: "runs c (Deciding dl e v) (view w) (Deciding dl e v) s"
    using runs_interf [OF t4 [THEN conjunct1]] runs_interf [OF s(1)] by (rule runs_trans)
  have "t3 \<le> t4" "t4 \<le> cl_now s" using t4 assms(5) interf_now s(1) by force+
  note claim = runs_claim [OF assms(3,4) this t4 [THEN conjunct2, THEN conjunct2] assms(6)]
  have "runs c (Deciding dl e v) s (after dl r) (view w')"
  proof (cases res)
    case (Inr v')
    then have "w' = fst (refreshAndPublish env e v' w2)" "r \<noteq> None" using assms(2) n wr by (auto simp: tryClaim_def apsnd_def map_prod_def split: prod.splits)
    with runs_refresh [OF assms(1)] have "runs c (Refreshing e v') (view w2) (after dl r) (view w')"
      by (metis (mono_tags, lifting) after_def option.case_eq_if prod.collapse)
    with claim(1) [of v v'] s(2) Inr show ?thesis by (simp add: wrote_def) (metis runs_trans)
  next
    case (Inl err)
    show ?thesis
    proof (cases "IsConflict err")
      case True
      then have "sleepOr env c e w2 = (w', r)" using assms(2) n wr Inl by (simp add: tryClaim_def)
      from runs_sleep [OF assms(1) this, of dl] runs_conflict [of c dl e v s] s(2) Inl True show ?thesis
        by (simp add: wrote_def) (metis runs_trans)
    next
      case False
      then have "runs c (Deciding dl e v) s Idle (view w2)"
        using s(2) Inl claim(2) runs_giveUp by (auto simp: wrote_def)
      moreover have "r \<noteq> None \<and> (w' = w2 \<or> w' = fst (ch_inner env w2))"
        using assms(2) n wr Inl False by (auto simp: tryClaim_def apsnd_def map_prod_def split: option.splits prod.splits)
      moreover have "runs c Idle (view w2) Idle (view (fst (ch_inner env w2)))"
        using cell_envD(6) [OF assms(1)] by (metis runs_interf prod.collapse)
      ultimately show ?thesis by (cases r) (auto simp: after_def dest: runs_trans)
    qed
  qed
  with to_s show ?thesis by (rule runs_trans)
qed

lemma runs_decide:
  assumes env: "cell_env c view env"
    and turn: "(case ch_now env w of (w, t1) \<Rightarrow>
             if isFresh c t1 entry then (w, map_option Inr (ce_Response entry))
             else (case ch_now env w of (w, t2) \<Rightarrow>
               if isLocked c t2 entry then
                 (case ch_now env w of (w, t3) \<Rightarrow>
                    if t3 < dl then sleepOr env c (Some entry) w else tryClaim env c (Some entry) version w)
               else tryClaim env c (Some entry) version w)) = (w', r)"
  shows "runs c (Deciding dl (Some entry) version) (view w) (after dl r) (view w')"
proof -
  let ?p = "Deciding dl (Some entry) version"
  obtain w1 t1 where n1: "ch_now env w = (w1, t1)" by (rule prod.exhaust)
  obtain w2 t2 where n2: "ch_now env w1 = (w2, t2)" by (rule prod.exhaust)
  obtain w3 t3 where n3: "ch_now env w2 = (w3, t3)" by (rule prod.exhaust)
  note i1 = cell_envD(4) [OF env n1] and i2 = cell_envD(4) [OF env n2] and i3 = cell_envD(4) [OF env n3]
  have t: "t1 \<le> t2" "t2 \<le> t3" using i1 i2 i3 interf_now by metis+
  have r1: "runs c ?p (view w) ?p (view w1)" by (rule runs_interf [OF i1 [THEN conjunct1]])
  have r2: "runs c ?p (view w) ?p (view w2)" using r1 runs_interf [OF i2 [THEN conjunct1]] by (rule runs_trans)
  have r3: "runs c ?p (view w) ?p (view w3)" using r2 runs_interf [OF i3 [THEN conjunct1]] by (rule runs_trans)
  consider (fresh) "isFresh c t1 entry" | (wait) "\<not> isFresh c t1 entry" "isLocked c t2 entry" "t3 < dl"
    | (over) "\<not> isFresh c t1 entry" "isLocked c t2 entry" "dl \<le> t3" | (free) "\<not> isFresh c t1 entry" "\<not> isLocked c t2 entry"
    by linarith
  then show ?thesis
  proof cases
    case fresh
    then have "w' = w1" "r \<noteq> None" using turn n1 by (auto simp: isFresh_def)
    with runs_trans [OF r1 runs_serve [of t1 "view w1"]] fresh i1 show ?thesis by (cases r) (simp_all add: after_def)
  next
    case wait
    then have "sleepOr env c (Some entry) w3 = (w', r)" using turn n1 n2 n3 by simp
    from runs_trans [OF runs_trans [OF r3 runs_wait [of t2 t3 "view w3"]] runs_sleep [OF env this]] wait t i3 show ?thesis by simp
  next
    case over
    then have "tryClaim env c (Some entry) version w3 = (w', r)" using turn n1 n2 n3 by simp
    from runs_trans [OF r3 runs_tryClaim [OF env this t]] over i3 show ?thesis by (simp add: may_claim_def)
  next
    case free
    then have "tryClaim env c (Some entry) version w2 = (w', r)" using turn n1 n2 by simp
    from runs_trans [OF r2 runs_tryClaim [OF env this t(1) order_refl]] free i2 show ?thesis by (simp add: may_claim_def)
  qed
qed

lemma runs_turn:
  assumes env: "cell_env c view env" and turn: "Cached_turn env c dl w = (w', r)"
  shows "runs c (Reading dl) (view w) (after dl r) (view w')"
proof -
  obtain w1 rd where rd: "ch_read env w = (w1, rd)" by (rule prod.exhaust)
  show ?thesis
  proof (cases rd)
    case (Inl e)
    note i = cell_envD(2) [OF env rd [unfolded Inl]]
    show ?thesis
    proof (cases "IsNotFound e")
      case True
      then have "tryClaim env c None [] w1 = (w', r)" using turn rd Inl by (simp add: Cached_turn_def readEntry_def)
      from runs_tryClaim [OF env this, of "cl_now (view w1)" "cl_now (view w1)" "cl_now (view w1)"]
      have "runs c (Deciding dl None []) (view w1) (after dl r) (view w')" by (simp add: may_claim_def)
      moreover have "runs c (Reading dl) (view w1) (Deciding dl None []) (view w1)"
        using runs_read [of c dl "view w1"] i True by (simp add: cell_entry_def cell_version_def)
      ultimately show ?thesis using runs_interf i by (blast intro: runs_trans)
    next
      case False
      then have "r \<noteq> None" "w' = fst (ch_inner env w1)"
        using turn rd Inl by (auto simp: Cached_turn_def readEntry_def apsnd_def map_prod_def split: prod.splits)
      moreover have "runs c Idle (view w1) Idle (view (fst (ch_inner env w1)))"
        using cell_envD(6) [OF env] by (metis runs_interf prod.collapse)
      moreover have "runs c (Reading dl) (view w) Idle (view w1)" using i by (blast intro: runs_interf runs_trans_giveUp)
      ultimately show ?thesis by (cases r) (auto simp: after_def dest: runs_trans)
    qed
  next
    case (Inr x)
    obtain d v where x: "x = (d, v)" by (rule prod.exhaust)
    from cell_envD(1) [OF env rd [unfolded Inr x]] obtain e
      where i: "interf c (ca_nodeID c) (view w) (view w1)" and e: "ch_decode env d = Inr e" "cl_cell (view w1) = Some (e, v)" by blast
    let ?p = "Deciding dl (Some e) v"
    have "runs c (Reading dl) (view w) ?p (view w1)"
      using runs_interf [OF i] runs_read [of c dl "view w1"] e by (auto simp: cell_entry_def cell_version_def intro: runs_trans)
    moreover have "runs c ?p (view w1) (after dl r) (view w')"
      using turn rd Inr x e(1) by (intro runs_decide [OF env]) (simp add: Cached_turn_def readEntry_def)
    ultimately show ?thesis by (rule runs_trans)
  qed
qed

lemma runs_loop:
  assumes env: "cell_env c view env" and "Cached_loop env c dl w = Some (w', r)"
  shows "runs c (Reading dl) (view w) Idle (view w')"
proof -
  have "env = env \<and> c = c \<longrightarrow> runs c (Reading dl) (view w) Idle (view (fst (w', r)))"
  proof (rule Cached_loop.raw_induct [of "\<lambda>e c' dl w y. e = env \<and> c' = c \<longrightarrow> runs c (Reading dl) (view w) Idle (view (fst y))", OF _ assms(2)],
      intro impI, elim conjE)
    fix f e c' dl w and y :: "'a \<times> (registry_error + CurrentResponse)"
    assume ih: "\<And>e c' dl w y. f e c' dl w = Some y \<Longrightarrow> e = env \<and> c' = c \<longrightarrow> runs c (Reading dl) (view w) Idle (view (fst y))"
      and y: "(case Cached_turn e c' dl w of (w, None) \<Rightarrow> f e c' dl w | (w, Some r) \<Rightarrow> Some (w, r)) = Some y"
      and e: "e = env" "c' = c"
    obtain w1 o1 where t: "Cached_turn env c dl w = (w1, o1)" by (rule prod.exhaust)
    note k = runs_turn [OF env t]
    show "runs c (Reading dl) (view w) Idle (view (fst y))"
    proof (cases o1)
      case None
      with y t e have "f env c dl w1 = Some y" by simp
      from ih [OF this] k None show ?thesis by (auto simp: after_def intro: runs_trans)
    next
      case (Some r)
      with y t k e show ?thesis by (auto simp: after_def)
    qed
  qed
  then show ?thesis by simp
qed

lemma runs_Current:
  assumes env: "cell_env c view env" and "Cached_Current env c w = Some (w', r)"
  shows "runs c Idle (view w) Idle (view w')"
proof -
  obtain w1 t where n: "ch_now env w = (w1, t)" by (rule prod.exhaust)
  note i = cell_envD(4) [OF env n]
  have "Cached_loop env c (cl_now (view w1) + (ca_lockTTL c + ca_wait c)) w1 = Some (w', r)"
    using assms(2) n i by (simp add: Cached_Current_def)
  from runs_loop [OF env this] runs_start runs_interf i show ?thesis by (blast intro: runs_trans)
qed

section \<open>Properties\<close>

definition empty_lease :: lease where
  "empty_lease = \<lparr>le_value = (None, zeroTime), le_holder = None, le_tokens = {}\<rparr>"

lemma steps_lease:
  assumes "(cached_step c)\<^sup>*\<^sup>* s s'" and "cluster_inv s"
  shows "lease_step\<^sup>*\<^sup>* (lease_of s) (lease_of s')"
  using assms
proof (induction rule: rtranclp_induct)
  case (step s1 s2)
  from step(1) assms(2) have "cluster_inv s1" by (induction rule: rtranclp_induct) (auto intro: cluster_inv_step)
  from cached_step_lease [OF step(2) this] step(3) assms(2) show ?case by (auto intro: rtranclp.rtrancl_into_rtrancl)
qed simp

text \<open>
  Claim C4. The code of the shared registry cache implements a lease. Let any number of other
  instances read, wait, claim, refresh, publish, give up or crash during each call that a query
  makes to the cache, the clock, the timer and the registry, and let writes fail with unknown
  outcome. A query that returns has taken the cluster from one reachable state to
  another, and what happened to the cached answer meanwhile is a run of the lease, where the value
  changes only at the hand of the current holder and taking over the lease never loses the value.
\<close>

theorem Cached_Current_refines_lease:
  assumes "cell_env c view env" and "cluster_reach c (goto (ca_nodeID c) Idle (view w))" and "Cached_Current env c w = Some (w', r)"
  shows "cluster_reach c (goto (ca_nodeID c) Idle (view w')) \<and> lease_step\<^sup>*\<^sup>* (lease_of (view w)) (lease_of (view w'))"
proof -
  note run = runs_Current [OF assms(1,3), unfolded runs_def]
  have "cluster_reach c (goto (ca_nodeID c) Idle (view w'))"
    using assms(2) run unfolding cluster_reach_def by (blast intro: rtranclp_trans)
  with steps_lease [OF run cluster_inv_reach [OF assms(2)]] show ?thesis by simp
qed

text \<open>An encoding of entries: a string after its length in unary.\<close>

definition pack_s :: "string \<Rightarrow> string" where "pack_s s = replicate (length s) (CHR ''x'') @ CHR ''.'' # s"

definition unpack_s :: "string \<Rightarrow> string \<times> string" where
  "unpack_s t = (let n = length (takeWhile (\<lambda>ch. ch = CHR ''x'') t); r = drop (Suc n) t in (take n r, drop n r))"

definition pack_int :: "int \<Rightarrow> string" where
  "pack_int i = pack_s (if i < 0 then CHR ''-'' # replicate (nat (- i)) (CHR ''1'') else replicate (nat i) (CHR ''1''))"

definition unpack_int :: "string \<Rightarrow> int \<times> string" where
  "unpack_int t = apfst (\<lambda>s. if hasPrefix s ''-'' then 1 - int (length s) else int (length s)) (unpack_s t)"

definition pack_entry :: "cachedEntry \<Rightarrow> string" where
  "pack_entry e = (case ce_Response e of None \<Rightarrow> ''0''
     | Some r \<Rightarrow> (case cr_CreatedAt r of None \<Rightarrow> ''1'' | Some i \<Rightarrow> ''2'' @ pack_int i) @
         pack_s (cr_ID r) @ pack_s (cr_Tag r) @ pack_s (cr_ArtifactURL r) @ pack_s (cr_Slot r)) @
     pack_int (ce_FetchedAt e) @ pack_int (ce_LockedAt e) @ pack_s (ce_LockedBy e)"

definition unpack_res :: "instant option \<Rightarrow> string \<Rightarrow> CurrentResponse \<times> string" where
  "unpack_res created t =
     (let (i, t) = unpack_s t; (g, t) = unpack_s t; (u, t) = unpack_s t; (l, t) = unpack_s t
      in (\<lparr>cr_ID = i, cr_Tag = g, cr_ArtifactURL = u, cr_CreatedAt = created, cr_Slot = l\<rparr>, t))"

definition unpack_entry :: "string \<Rightarrow> cachedEntry" where
  "unpack_entry t =
     (let (r, t) = (if hd t = CHR ''0'' then (None, tl t) else if hd t = CHR ''1'' then apfst Some (unpack_res None (tl t))
            else let (i, t) = unpack_int (tl t) in apfst Some (unpack_res (Some i) t));
          (f, t) = unpack_int t; (l, t) = unpack_int t; (b, t) = unpack_s t
      in \<lparr>ce_Response = r, ce_FetchedAt = f, ce_LockedAt = l, ce_LockedBy = b\<rparr>)"

lemma unpack_pack_s: "unpack_s (pack_s s @ t) = (s, t)" "unpack_s (pack_s s) = (s, [])"
proof -
  have "takeWhile (\<lambda>ch. ch = CHR ''x'') (replicate n (CHR ''x'') @ CHR ''.'' # u) = replicate n (CHR ''x'')" for n u
    by (induction n) auto
  then show "unpack_s (pack_s s @ t) = (s, t)" for t by (simp add: unpack_s_def pack_s_def)
  from this [of "[]"] show "unpack_s (pack_s s) = (s, [])" by simp
qed

lemma unpack_pack_int: "unpack_int (pack_int i @ t) = (i, t)"
  by (cases "nat i") (auto simp: unpack_int_def pack_int_def unpack_pack_s)

lemma unpack_pack_entry: "unpack_entry (pack_entry e) = e"
  by (cases "ce_Response e")
    (auto simp: unpack_entry_def pack_entry_def unpack_pack_int unpack_pack_s unpack_res_def split: option.splits)

text \<open>A cache with generations that keeps all entries, a clock, and a registry that answers.\<close>

definition gen_view :: "cachedEntry list \<times> nat \<Rightarrow> cluster" where
  "gen_view w = \<lparr>cl_cell = (case fst w of [] \<Rightarrow> None | e # es \<Rightarrow> Some (e, replicate (length (fst w)) (CHR ''g''))),
     cl_hist = (\<lambda>v. if v \<noteq> [] \<and> length v \<le> length (fst w) \<and> v = replicate (length v) (CHR ''g'') then Some (rev (fst w) ! (length v - 1)) else None),
     cl_now = 1 + int (snd w), cl_node = (\<lambda>n. Idle)\<rparr>"

definition gen_env :: "(cachedEntry list \<times> nat) cached_env" where
  "gen_env = \<lparr>ch_read = (\<lambda>w. (w, case fst w of [] \<Rightarrow> Inl (NotFound ''k'') | e # es \<Rightarrow> Inr (pack_entry e, replicate (length (fst w)) (CHR ''g'')))),
     ch_write = (\<lambda>v d w. if v = replicate (length (fst w)) (CHR ''g'')
        then ((unpack_entry d # fst w, snd w), Inr (replicate (Suc (length (fst w))) (CHR ''g''))) else (w, Inl (cache_error.Conflict ''k''))),
     ch_now = (\<lambda>w. (w, 1 + int (snd w))), ch_sleep = (\<lambda>t w. (apsnd (\<lambda>n. n + nat t) w, None)), ch_inner = (\<lambda>w. (w, Inr answer)),
     ch_encode = pack_entry, ch_decode = (\<lambda>d. Inr (unpack_entry d))\<rparr>"

lemma gen_version: "cell_version (gen_view w) = replicate (length (fst w)) (CHR ''g'')"
  by (cases "fst w") (simp_all add: cell_version_def gen_view_def)

lemma gen_put: "gen_view (e # es, t) = put e (replicate (Suc (length es)) (CHR ''g'')) (gen_view (es, t))"
proof -
  have "cl_hist (gen_view (e # es, t)) v = cl_hist (put e (replicate (Suc (length es)) (CHR ''g'')) (gen_view (es, t))) v" for v
    by (cases v) (auto simp: gen_view_def put_def nth_append le_Suc_eq)
  then have "cl_hist (gen_view (e # es, t)) = cl_hist (put e (replicate (Suc (length es)) (CHR ''g'')) (gen_view (es, t)))" by blast
  then show ?thesis by (simp add: gen_view_def put_def)
qed

lemma interf_refl: "interf c n s s"
  by (simp add: interf_def)

lemma interf_tick: "cl_now s \<le> t \<Longrightarrow> interf c n s (s\<lparr>cl_now := t\<rparr>)"
proof -
  assume t: "cl_now s \<le> t"
  have "cached_step c (goto n p s) (goto n p (s\<lparr>cl_now := t\<rparr>))" for p
    using cached_step.Tick [of "goto n p s" t c] t by (cases s) (simp add: goto_def)
  then show ?thesis unfolding interf_def by blast
qed

lemma gen_cell_env: "cell_env c gen_view gen_env"
proof -
  have r: "\<exists>e. unpack_entry d = e \<and> cl_cell (gen_view w) = Some (e, v)" if "ch_read gen_env w = (w', Inr (d, v))" for w w' d v
    using that by (auto simp: gen_env_def gen_view_def unpack_pack_entry split: list.splits)
  have w: "\<exists>s. interf c n (gen_view w) s \<and> wrote x v s res (gen_view w')"
    if "ch_write gen_env v (ch_encode gen_env x) w = (w', res)" for n w w' x v res
  proof (intro exI conjI)
    show "interf c n (gen_view w) (gen_view w)" by (rule interf_refl)
    have "new_version (gen_view w) e (replicate (Suc (length (fst w))) (CHR ''g''))" for e
      by (simp add: new_version_def gen_view_def)
    then show "wrote x v (gen_view w) res (gen_view w')"
      using that by (cases w) (auto simp: gen_env_def wrote_def gen_version gen_put unpack_pack_entry IsConflict_def split: if_splits)
  qed
  have s: "interf c n (gen_view w) (gen_view w')" if "ch_sleep gen_env t w = (w', r)" for n t w w' r
  proof -
    have "gen_view w' = gen_view w\<lparr>cl_now := 1 + int (snd w) + int (nat t)\<rparr>" using that by (cases w) (auto simp: gen_env_def gen_view_def split: list.splits)
    moreover have "cl_now (gen_view w) \<le> 1 + int (snd w) + int (nat t)" by (simp add: gen_view_def)
    ultimately show ?thesis by (metis interf_tick)
  qed
  have e: "w' = w \<and> (IsNotFound e \<longrightarrow> cl_cell (gen_view w) = None)" if "ch_read gen_env w = (w', Inl e)" for w w' e
    using that by (auto simp: gen_env_def gen_view_def split: list.splits)
  have n: "w' = w \<and> t = cl_now (gen_view w) \<and> t \<noteq> zeroTime" if "ch_now gen_env w = (w', t)" for w w' t
    using that by (auto simp: gen_env_def gen_view_def zeroTime_def)
  have i: "ch_read gen_env w = (w', x) \<Longrightarrow> w' = w" "ch_inner gen_env w = (w', y) \<Longrightarrow> w' = w" "ch_decode gen_env d = Inr (unpack_entry d)" for w w' x y d
    by (auto simp: gen_env_def)
  show ?thesis unfolding cell_env_def
  proof (intro conjI allI impI)
    fix w w' d v assume a: "ch_read gen_env w = (w', Inr (d, v))"
    show "interf c (ca_nodeID c) (gen_view w) (gen_view w')" using i(1) [OF a] by (simp add: interf_refl)
    show "\<exists>e. ch_decode gen_env d = Inr e \<and> cl_cell (gen_view w') = Some (e, v)" using r [OF a] i(1) [OF a] i(3) by simp
  qed (use e n i in \<open>blast intro: w s | fastforce simp: interf_refl\<close>)+
qed

theorem Cached_Current_refines_lease_witness:
  "\<exists>w'. Cached_Current gen_env shared_cache ([], 5) = Some (w', Inr answer) \<and> lease_step\<^sup>*\<^sup>* (lease_of (gen_view ([], 5))) (lease_of (gen_view w')) \<and>
     le_value (lease_of (gen_view w')) = (Some answer, 6)"
proof -
  let ?e1 = "buildClaim None ''a:1'' 6" and ?e2 = "publishedEntry answer 6"
  have t: "Cached_turn gen_env shared_cache dl ([], 5) = (([?e2, ?e1], 5), Some (Inr answer))" for dl
    by (simp add: Cached_turn_def readEntry_def tryClaim_def refreshAndPublish_def writeEntry_def gen_env_def shared_cache_def
        IsNotFound_def unpack_pack_entry)
  have "ch_now gen_env ([], 5) = (([], 5), 6)" by (simp add: gen_env_def)
  with Cached_loop_done [OF t] have c: "Cached_Current gen_env shared_cache ([], 5) = Some (([?e2, ?e1], 5), Inr answer)"
    by (simp add: Cached_Current_def)
  have "goto (ca_nodeID shared_cache) Idle (gen_view ([], 5)) = cluster_init 6"
    by (auto simp: gen_view_def goto_def cluster_init_def)
  then have "cluster_reach shared_cache (goto (ca_nodeID shared_cache) Idle (gen_view ([], 5)))"
    unfolding cluster_reach_def by (metis rtranclp.rtrancl_refl)
  from Cached_Current_refines_lease [OF gen_cell_env this c] c show ?thesis
    by (simp add: lease_of_def gen_view_def cell_entry_def entry_value_def publishedEntry_def)
qed

lemma lease_of_init: "lease_of (cluster_init t) = empty_lease"
  by (simp add: lease_of_def cluster_init_def empty_lease_def cell_entry_def entry_value_def)

text \<open>
  Claim C11. The shared registry cache implements a lease: however many instances read, wait, claim,
  refresh, publish, give up or crash, in any order, every change of the cached answer is one step
  of the lease, where the value changes only at the hand of the current holder, taking over the
  lease never loses the value, and nothing else changes value or holder.
\<close>

theorem cached_refines_lease:
  assumes "(cached_step c)\<^sup>*\<^sup>* (cluster_init t) s"
  shows "lease_step\<^sup>*\<^sup>* empty_lease (lease_of s) \<and>
    (\<forall>s'. cached_step c s s' \<longrightarrow> lease_of s' = lease_of s \<or> lease_step (lease_of s) (lease_of s'))"
proof -
  have "cluster_inv s" using cluster_inv_reach assms unfolding cluster_reach_def by blast
  then show ?thesis using cached_step_lease steps_lease [OF assms cluster_inv_init] lease_of_init by metis
qed

text \<open>Two instances read the empty cell, the first claims it.\<close>

definition two_readers :: cluster where
  "two_readers = (cluster_init 5)\<lparr>cl_node := (\<lambda>n. Idle)(''a'' := Deciding 36 None [], ''b'' := Deciding 36 None [])\<rparr>"

definition one_claimed :: cluster where
  "one_claimed = goto ''a'' (Refreshing None ''1'') (put (buildClaim None ''a'' 5) ''1'' two_readers)"

lemma two_readers_reach: "(cached_step shared_cache)\<^sup>*\<^sup>* (cluster_init 5) two_readers"
proof -
  let ?r = "Reading 36" and ?d = "Deciding 36 None []"
  have dl: "5 + (ca_lockTTL shared_cache + ca_wait shared_cache) = 36" by (simp add: shared_cache_def)
  let ?s1 = "goto ''a'' ?r (cluster_init 5)"
  let ?s2 = "goto ''b'' ?r ?s1"
  let ?s3 = "goto ''a'' ?d ?s2"
  have 1: "cached_step shared_cache (cluster_init 5) ?s1"
    using cached_step.Start [of "cluster_init 5" "''a''" 5 shared_cache] dl by (simp add: cluster_init_def)
  have 2: "cached_step shared_cache ?s1 ?s2"
    using cached_step.Start [of ?s1 "''b''" 5 shared_cache] dl by (simp add: cluster_init_def goto_def)
  have 3: "cached_step shared_cache ?s2 ?s3"
    using cached_step.Read [of ?s2 "''a''" 36 shared_cache] by (simp add: cluster_init_def goto_def cell_entry_def cell_version_def)
  have 4: "cached_step shared_cache ?s3 (goto ''b'' ?d ?s3)"
    using cached_step.Read [of ?s3 "''b''" 36 shared_cache] by (simp add: cluster_init_def goto_def cell_entry_def cell_version_def)
  have e: "goto ''b'' ?d ?s3 = two_readers"
    by (simp add: two_readers_def goto_def cluster_init_def fun_eq_iff)
  show ?thesis using 1 2 3 4 [unfolded e]
    by (blast intro: converse_rtranclp_into_rtranclp r_into_rtranclp)
qed

lemma one_claimed_step: "cached_step shared_cache two_readers one_claimed"
  unfolding one_claimed_def
  by (rule cached_step.Claim [where dl = 36 and v = "[]" and ?t1.0 = 5 and ?t2.0 = 5 and ?t3.0 = 5])
    (simp_all add: two_readers_def cluster_init_def zeroTime_def may_claim_def cell_version_def new_version_def)

theorem cached_refines_lease_witness:
  "lease_step\<^sup>*\<^sup>* empty_lease (lease_of two_readers) \<and> lease_step (lease_of two_readers) (lease_of one_claimed) \<and>
   le_holder (lease_of one_claimed) = Some ''1''"
proof -
  have h: "le_holder (lease_of one_claimed) = Some ''1''" "le_holder (lease_of two_readers) = None"
    by (simp_all add: one_claimed_def lease_of_put zeroTime_def) (simp add: lease_of_def two_readers_def cluster_init_def)
  then have "lease_of one_claimed \<noteq> lease_of two_readers" by auto
  with cached_refines_lease [OF two_readers_reach] one_claimed_step h show ?thesis by blast
qed



text \<open>
  The lock of a live peer does not protect it from an instance that has already waited for the
  full deadline: here the lock is one nanosecond old and the entry is claimed over it.
\<close>

theorem Cached_claims_live_lock:
  "isLocked shared_cache 1000 locked_entry \<and> may_claim shared_cache 1000 1000 1000 1000 (Some locked_entry) \<and>
   Cached_turn (cache_of locked_entry) shared_cache 1000 (world_at 1000) = (world_at 1000\<lparr>cw_calls := 1\<rparr>, Some (Inr answer))"
  by code_simp

end
