(* ===== verification/Proxy.thy ===== *)
theory Proxy
  imports Dewy_Prelude "HOL-Library.Word" "HOL-Library.AList"
begin

text \<open>
  The built-in TCP proxy: proxy.go and proxy_backend.go. A proxy is a record with its list of
  backends, the 64-bit round-robin counter and its metric series. The handler of a connection
  is split at the points where other goroutines can run (\<open>conn_accept\<close>,
  \<open>conn_pick\<close>, \<open>conn_dial\<close>, \<open>conn_copied\<close>, \<open>conn_close\<close>);
  \<open>proxy_step\<close> interleaves these pieces of any number of connections with changes of
  the backends. The listeners of the operating system are parameters.
\<close>

section \<open>One proxy (proxy.go)\<close>

record tcpBackend =
  tb_host :: string
  tb_port :: goint

text \<open>The series of the telemetry metrics with the attribute of this proxy's port.\<close>

record proxy_metrics =
  pm_ConnectionsTotal :: int
  pm_ActiveConnections :: int
  pm_ConnectionDuration :: nat
  pm_ConnectLatency :: nat
  pm_ErrorsTotal :: int
  pm_BytesTransferred :: int
  pm_BackendCount :: int

record tcpProxy =
  tp_proxyPort :: goint
  tp_backends :: "tcpBackend list"
  tp_backendIndex :: "64 word"
  tp_idleTimeout :: goint
  tp_metrics :: "proxy_metrics option"
  tp_done :: bool

definition mkBackend :: "string \<Rightarrow> goint \<Rightarrow> tcpBackend" where
  "mkBackend host port = \<lparr>tb_host = host, tb_port = port\<rparr>"

definition upd_metrics :: "(proxy_metrics \<Rightarrow> proxy_metrics) \<Rightarrow> tcpProxy \<Rightarrow> tcpProxy" where
  "upd_metrics f p = p\<lparr>tp_metrics := map_option f (tp_metrics p)\<rparr>"

definition getNextBackend :: "tcpProxy \<Rightarrow> tcpProxy \<times> tcpBackend option" where
  "getNextBackend p =
     (if tp_backends p = [] then (p, None)
      else let counter = tp_backendIndex p + 1; index = counter - 1
           in (p\<lparr>tp_backendIndex := counter\<rparr>, Some (tp_backends p ! (unat index mod length (tp_backends p)))))"

definition addBackend :: "string \<Rightarrow> goint \<Rightarrow> tcpProxy \<Rightarrow> tcpProxy" where
  "addBackend host port p =
     upd_metrics (pm_BackendCount_update (\<lambda>n. n + 1)) (p\<lparr>tp_backends := tp_backends p @ [mkBackend host port]\<rparr>)"

fun find_backend :: "string \<Rightarrow> goint \<Rightarrow> tcpBackend list \<Rightarrow> nat option" where
  "find_backend host port [] = None"
| "find_backend host port (b # bs) =
     (if tb_host b = host \<and> tb_port b = port then Some 0 else map_option Suc (find_backend host port bs))"

definition removeBackend :: "string \<Rightarrow> goint \<Rightarrow> tcpProxy \<Rightarrow> tcpProxy \<times> bool" where
  "removeBackend host port p =
     (case find_backend host port (tp_backends p) of
        None \<Rightarrow> (p, False)
      | Some i \<Rightarrow> (upd_metrics (pm_BackendCount_update (\<lambda>n. n - 1))
            (p\<lparr>tp_backends := take i (tp_backends p) @ drop (i + 1) (tp_backends p)\<rparr>), True))"

definition backendCount :: "tcpProxy \<Rightarrow> nat" where
  "backendCount p = length (tp_backends p)"

text \<open>net.JoinHostPort.\<close>

definition joinHostPort :: "string \<Rightarrow> string \<Rightarrow> string" where
  "joinHostPort host port =
     (if CHR '':'' \<in> set host then ''['' @ host @ '']:'' @ port else host @ '':'' @ port)"

subsection \<open>The handler of a connection\<close>

datatype conn_phase = Accepted | Dialing string | Copying string | Closing

definition conn_accept :: "tcpProxy \<Rightarrow> tcpProxy" where
  "conn_accept = upd_metrics (\<lambda>m. m\<lparr>pm_ConnectionsTotal := pm_ConnectionsTotal m + 1,
     pm_ActiveConnections := pm_ActiveConnections m + 1\<rparr>)"

definition conn_error :: "tcpProxy \<Rightarrow> tcpProxy" where
  "conn_error = upd_metrics (pm_ErrorsTotal_update (\<lambda>n. n + 1))"

definition conn_pick :: "tcpProxy \<Rightarrow> tcpProxy \<times> conn_phase" where
  "conn_pick p = (case getNextBackend p of
      (p, None) \<Rightarrow> (conn_error p, Closing)
    | (p, Some b) \<Rightarrow> (p, Dialing (joinHostPort (tb_host b) (itoa (tb_port b)))))"

text \<open>The result of net.DialTimeout is an argument: whether the backend answered.\<close>

definition conn_dial :: "bool \<Rightarrow> string \<Rightarrow> tcpProxy \<Rightarrow> tcpProxy \<times> conn_phase" where
  "conn_dial ok addr p =
     (let p = upd_metrics (pm_ConnectLatency_update Suc) p
      in if ok then (p, Copying addr) else (conn_error p, Closing))"

text \<open>One direction of the copy ends after n bytes.\<close>

definition conn_copied :: "nat \<Rightarrow> tcpProxy \<Rightarrow> tcpProxy" where
  "conn_copied n = (if n > 0 then upd_metrics (pm_BytesTransferred_update (\<lambda>b. b + int n)) else id)"

definition conn_close :: "tcpProxy \<Rightarrow> tcpProxy" where
  "conn_close = upd_metrics (\<lambda>m. m\<lparr>pm_ActiveConnections := pm_ActiveConnections m - 1,
     pm_ConnectionDuration := Suc (pm_ConnectionDuration m)\<rparr>)"

text \<open>
  The whole handler with no other goroutine in between: dial says which backend answers, n and
  m are the bytes copied in the two directions. Returned is the backend that was served.
\<close>

definition handleConnection :: "(string \<Rightarrow> bool) \<Rightarrow> nat \<Rightarrow> nat \<Rightarrow> tcpProxy \<Rightarrow> tcpProxy \<times> string option" where
  "handleConnection dial n m p =
     (case conn_pick (conn_accept p) of
        (p, Dialing addr) \<Rightarrow> (case conn_dial (dial addr) addr p of
            (p, Copying addr) \<Rightarrow> (conn_close (conn_copied m (conn_copied n p)), Some addr)
          | (p, _) \<Rightarrow> (conn_close p, None))
      | (p, _) \<Rightarrow> (conn_close p, None))"

subsection \<open>Interleavings\<close>

type_synonym proxy_conf = "tcpProxy \<times> conn_phase multiset"

inductive proxy_step :: "proxy_conf \<Rightarrow> proxy_conf \<Rightarrow> bool" where
  Accept: "proxy_step (p, C) (conn_accept p, add_mset Accepted C)"
| Pick: "conn_pick p = (p', ph) \<Longrightarrow> proxy_step (p, add_mset Accepted C) (p', add_mset ph C)"
| Dial: "conn_dial ok addr p = (p', ph) \<Longrightarrow> proxy_step (p, add_mset (Dialing addr) C) (p', add_mset ph C)"
| CopyDone: "proxy_step (p, add_mset (Copying addr) C) (conn_copied n p, add_mset Closing C)"
| OtherCopyDone: "proxy_step (p, C) (conn_copied n p, C)"
| Close: "proxy_step (p, add_mset Closing C) (conn_close p, C)"
| Add: "proxy_step (p, C) (addBackend host port p, C)"
| Remove: "removeBackend host port p = (p', ok) \<Longrightarrow> proxy_step (p, C) (p', C)"

definition metrics_ok :: "proxy_metrics \<Rightarrow> nat \<Rightarrow> nat \<Rightarrow> nat \<Rightarrow> bool" where
  "metrics_ok m nbackends nconns nunpicked =
     (pm_BackendCount m = int nbackends \<and> pm_ActiveConnections m = int nconns \<and>
      pm_ConnectionsTotal m = int nconns + int (pm_ConnectionDuration m) \<and>
      0 \<le> pm_ErrorsTotal m \<and> pm_ErrorsTotal m + int nunpicked \<le> pm_ConnectionsTotal m \<and>
      0 \<le> pm_BytesTransferred m)"

definition unsettled :: "conn_phase multiset \<Rightarrow> nat" where
  "unsettled C = size (filter_mset (\<lambda>ph. ph = Accepted \<or> (\<exists>a. ph = Dialing a)) C)"

definition proxy_inv :: "proxy_conf \<Rightarrow> bool" where
  "proxy_inv c = (case c of (p, C) \<Rightarrow>
     (\<forall>m. tp_metrics p = Some m \<longrightarrow> metrics_ok m (length (tp_backends p)) (size C) (unsettled C)))"

section \<open>The proxies of an instance (proxy.go, proxy_backend.go)\<close>

text \<open>
  The part of Dewy the proxies live in: the map from proxy port to proxy, None for the nil
  map, the state of the network behind net.Listen, and the listeners opened and closed so far.
\<close>

datatype net_event = Listened goint | Closed goint

record 'w proxies =
  px_world :: 'w
  px_map :: "(goint \<times> tcpProxy) list option"
  px_log :: "net_event list"

record 'w network =
  nw_listen :: "'w \<Rightarrow> goint \<Rightarrow> 'w \<times> string option"
  nw_close :: "'w \<Rightarrow> goint \<Rightarrow> 'w \<times> string option"

definition tcpProxies :: "'w proxies \<Rightarrow> (goint \<times> tcpProxy) list" where
  "tcpProxies d = (case px_map d of None \<Rightarrow> [] | Some m \<Rightarrow> m)"

definition new_metrics :: proxy_metrics where
  "new_metrics = \<lparr>pm_ConnectionsTotal = 0, pm_ActiveConnections = 0, pm_ConnectionDuration = 0,
     pm_ConnectLatency = 0, pm_ErrorsTotal = 0, pm_BytesTransferred = 0, pm_BackendCount = 0\<rparr>"

definition newTCPProxy :: "'w network \<Rightarrow> goint \<Rightarrow> goint \<Rightarrow> bool \<Rightarrow> 'w proxies \<Rightarrow> 'w proxies \<times> (string + tcpProxy)" where
  "newTCPProxy nw port idle metrics d =
     (case nw_listen nw (px_world d) port of
        (w, Some err) \<Rightarrow> (d\<lparr>px_world := w\<rparr>, Inl (''failed to listen on :'' @ itoa port @ '': '' @ err))
      | (w, None) \<Rightarrow> (d\<lparr>px_world := w, px_log := px_log d @ [Listened port]\<rparr>,
          Inr \<lparr>tp_proxyPort = port, tp_backends = [], tp_backendIndex = 0, tp_idleTimeout = idle,
               tp_metrics = (if metrics then Some new_metrics else None), tp_done = False\<rparr>))"

definition stop_one :: "'w network \<Rightarrow> goint \<Rightarrow> 'w proxies \<Rightarrow> 'w proxies \<times> string option" where
  "stop_one nw port d = (case nw_close nw (px_world d) port of
     (w, err) \<Rightarrow> (d\<lparr>px_world := w, px_log := px_log d @ [Closed port]\<rparr>, err))"

fun stop_all :: "'w network \<Rightarrow> (goint \<times> tcpProxy) list \<Rightarrow> 'w proxies \<Rightarrow> 'w proxies \<times> string list" where
  "stop_all nw [] d = (d, [])"
| "stop_all nw ((port, p) # ps) d =
     (case stop_one nw (tp_proxyPort p) d of
        (d, None) \<Rightarrow> stop_all nw ps d
      | (d, Some err) \<Rightarrow> (case stop_all nw ps d of
           (d, errs) \<Rightarrow> (d, (''failed to stop proxy on port '' @ itoa port @ '': '' @ err) # errs)))"

text \<open>The order of the iteration over the map is the order of the list.\<close>

definition stopProxy :: "'w network \<Rightarrow> 'w proxies \<Rightarrow> 'w proxies \<times> string option" where
  "stopProxy nw d =
     (case px_map d of
        None \<Rightarrow> (d, None)
      | Some m \<Rightarrow> (case stop_all nw m d of
          (d, errs) \<Rightarrow> (d\<lparr>px_map := None\<rparr>, if errs = [] then None else Some (joinS [CHR 0x0A] errs))))"

fun start_all :: "'w network \<Rightarrow> goint \<Rightarrow> bool \<Rightarrow> goint list \<Rightarrow> 'w proxies \<Rightarrow> 'w proxies \<times> string option" where
  "start_all nw idle metrics [] d = (d, None)"
| "start_all nw idle metrics (port # ports) d =
     (case newTCPProxy nw port idle metrics d of
        (d, Inl err) \<Rightarrow> (fst (stopProxy nw d),
           Some (''failed to start proxy on port '' @ itoa port @ '': '' @ err))
      | (d, Inr p) \<Rightarrow> start_all nw idle metrics ports (d\<lparr>px_map := Some (AList.update port p (tcpProxies d))\<rparr>))"

text \<open>ports are the proxy ports of the configured port mappings.\<close>

definition startProxy :: "'w network \<Rightarrow> goint \<Rightarrow> bool \<Rightarrow> goint list \<Rightarrow> 'w proxies \<Rightarrow> 'w proxies \<times> string option" where
  "startProxy nw idle metrics ports d =
     (if ports = [] then (d, Some ''no port mappings configured for proxy'')
      else start_all nw idle metrics ports (d\<lparr>px_map := Some []\<rparr>))"

definition totalProxyBackends :: "'w proxies \<Rightarrow> nat" where
  "totalProxyBackends d = sum_list (map (backendCount \<circ> snd) (tcpProxies d))"

definition addProxyBackend :: "string \<Rightarrow> goint \<Rightarrow> goint \<Rightarrow> 'w proxies \<Rightarrow> 'w proxies \<times> string option" where
  "addProxyBackend host port proxyPort d =
     (case map_of (tcpProxies d) proxyPort of
        None \<Rightarrow> (d, Some (''no proxy configured for port '' @ itoa proxyPort))
      | Some p \<Rightarrow> (d\<lparr>px_map := Some (AList.update proxyPort (addBackend host port p) (tcpProxies d))\<rparr>, None))"

definition removeProxyBackend :: "string \<Rightarrow> goint \<Rightarrow> goint \<Rightarrow> 'w proxies \<Rightarrow> 'w proxies \<times> string option" where
  "removeProxyBackend host port proxyPort d =
     (case map_of (tcpProxies d) proxyPort of
        None \<Rightarrow> (d, Some (''no proxy configured for port '' @ itoa proxyPort))
      | Some p \<Rightarrow> (case removeBackend host port p of
          (p', True) \<Rightarrow> (d\<lparr>px_map := Some (AList.update proxyPort p' (tcpProxies d))\<rparr>, None)
        | (p', False) \<Rightarrow> (d, Some (''backend '' @ host @ '':'' @ itoa port @ '' not found for proxy port '' @ itoa proxyPort))))"

section \<open>Lemmas on one proxy\<close>

lemma mkBackend_eq: "b = mkBackend host port \<longleftrightarrow> tb_host b = host \<and> tb_port b = port"
  by (cases b) (auto simp: mkBackend_def)

lemma upd_metrics_simps [simp]:
  "tp_backends (upd_metrics f p) = tp_backends p" "tp_backendIndex (upd_metrics f p) = tp_backendIndex p"
  "tp_metrics (upd_metrics f p) = map_option f (tp_metrics p)" "tp_proxyPort (upd_metrics f p) = tp_proxyPort p"
  by (simp_all add: upd_metrics_def)

lemma find_backend_None: "find_backend host port bs = None \<longleftrightarrow> mkBackend host port \<notin> set bs"
proof (induction bs)
  case (Cons b bs)
  have "mkBackend host port = b \<longleftrightarrow> tb_host b = host \<and> tb_port b = port" using mkBackend_eq [of b] by metis
  with Cons show ?case by auto
qed simp

lemma find_backend_Some:
  "find_backend host port bs = Some i \<Longrightarrow> i < length bs \<and> take i bs @ drop (i + 1) bs = remove1 (mkBackend host port) bs"
  by (induction bs arbitrary: i) (auto simp: mkBackend_eq split: if_splits, auto simp: mkBackend_def)

lemma addBackend_backends [simp]: "tp_backends (addBackend host port p) = tp_backends p @ [mkBackend host port]"
  by (simp add: addBackend_def)

lemma removeBackend_backends:
  "removeBackend host port p = (p', ok) \<Longrightarrow> tp_backends p' = remove1 (mkBackend host port) (tp_backends p) \<and>
     ok = (mkBackend host port \<in> set (tp_backends p)) \<and> (\<not> ok \<longrightarrow> p' = p)"
  using find_backend_Some [of host port "tp_backends p"] find_backend_None [of host port "tp_backends p"]
  by (auto simp: removeBackend_def remove1_idem split: option.splits)

text \<open>n consecutive calls of getNextBackend with no change of the backends.\<close>

fun picks :: "nat \<Rightarrow> tcpProxy \<Rightarrow> tcpBackend option list" where
  "picks 0 p = []"
| "picks (Suc n) p = (case getNextBackend p of (p', b) \<Rightarrow> b # picks n p')"

lemma picks_nth:
  assumes "tp_backends p \<noteq> []" and "unat (tp_backendIndex p) + n \<le> 2 ^ 64"
  shows "picks n p = map (\<lambda>i. Some (tp_backends p ! (i mod length (tp_backends p))))
      [unat (tp_backendIndex p) ..< unat (tp_backendIndex p) + n]"
  using assms
proof (induction n arbitrary: p)
  case (Suc n)
  let ?p' = "p\<lparr>tp_backendIndex := tp_backendIndex p + 1\<rparr>"
  show ?case
  proof (cases n)
    case 0
    with Suc.prems show ?thesis by (simp add: getNextBackend_def)
  next
    case (Suc m)
    with \<open>unat (tp_backendIndex p) + Suc n \<le> 2 ^ 64\<close> have "Suc (unat (tp_backendIndex p)) < 2 ^ 64" by simp
    then have u: "unat (tp_backendIndex p + 1) = Suc (unat (tp_backendIndex p))"
      by (simp add: unat_word_ariths)
    have "picks n ?p' = map (\<lambda>i. Some (tp_backends p ! (i mod length (tp_backends p))))
        [Suc (unat (tp_backendIndex p)) ..< Suc (unat (tp_backendIndex p)) + n]"
      using Suc.IH [of ?p'] Suc.prems u by (simp del: upt_Suc)
    moreover have "[unat (tp_backendIndex p) ..< unat (tp_backendIndex p) + Suc n] =
        unat (tp_backendIndex p) # [Suc (unat (tp_backendIndex p)) ..< Suc (unat (tp_backendIndex p)) + n]"
      by (simp only: add_Suc_right add_Suc upt_rec [of "unat (tp_backendIndex p)"]) simp
    ultimately show ?thesis using Suc.prems
      by (simp only: picks.simps getNextBackend_def Let_def) simp
  qed
qed simp

lemma mset_window:
  assumes "xs \<noteq> []"
  shows "mset (map (\<lambda>i. xs ! (i mod length xs)) [s ..< s + length xs]) = mset xs"
proof (induction s)
  case 0
  have "map (\<lambda>i. xs ! (i mod length xs)) [0 ..< length xs] = xs" by (rule nth_equalityI) simp_all
  then show ?case by simp
next
  case (Suc s)
  have "[s ..< s + length xs] = s # [Suc s ..< s + length xs]" using assms by (simp add: upt_conv_Cons)
  moreover have "[Suc s ..< Suc s + length xs] = [Suc s ..< s + length xs] @ [s + length xs]"
    using assms by (cases xs) simp_all
  ultimately show ?case using Suc by simp
qed

lemma mset_windows:
  assumes "xs \<noteq> []"
  shows "mset (map (\<lambda>i. xs ! (i mod length xs)) [s ..< s + k * length xs]) = repeat_mset k (mset xs)"
proof (induction k)
  case (Suc k)
  have "[s ..< s + Suc k * length xs] = [s ..< s + k * length xs] @ [s + k * length xs ..< s + k * length xs + length xs]"
    using upt_add_eq_append [of s "s + k * length xs" "length xs"] by (simp add: algebra_simps)
  then show ?case using Suc mset_window [OF assms, of "s + k * length xs"] by simp
qed simp

section \<open>Invariant of the interleavings\<close>

lemmas conn_defs = conn_accept_def conn_error_def conn_pick_def conn_dial_def conn_copied_def conn_close_def
  getNextBackend_def

lemma unsettled_simps [simp]:
  "unsettled {#} = 0" "unsettled (add_mset Accepted C) = Suc (unsettled C)"
  "unsettled (add_mset (Dialing a) C) = Suc (unsettled C)" "unsettled (add_mset (Copying a) C) = unsettled C"
  "unsettled (add_mset Closing C) = unsettled C"
  by (simp_all add: unsettled_def)

lemma proxy_inv_step: "proxy_step c c' \<Longrightarrow> proxy_inv c \<Longrightarrow> proxy_inv c'"
proof (induction rule: proxy_step.induct)
  case (Remove host port p p' ok C)
  show ?case
  proof (cases "find_backend host port (tp_backends p)")
    case None
    with Remove show ?thesis by (auto simp: removeBackend_def)
  next
    case (Some i)
    moreover have "length (take i (tp_backends p) @ drop (i + 1) (tp_backends p)) = length (tp_backends p) - 1"
      using conjunct1 [OF find_backend_Some [OF Some]] by simp
    ultimately show ?thesis using conjunct1 [OF find_backend_Some [OF Some]] Remove
      by (auto simp: removeBackend_def proxy_inv_def metrics_ok_def)
  qed
qed (auto simp: proxy_inv_def metrics_ok_def conn_defs addBackend_def Let_def split: if_splits)

lemma proxy_inv_reachable: "proxy_step\<^sup>*\<^sup>* c c' \<Longrightarrow> proxy_inv c \<Longrightarrow> proxy_inv c'"
  by (induction rule: rtranclp_induct) (auto intro: proxy_inv_step)

lemma proxy_metrics_kept:
  "proxy_step\<^sup>*\<^sup>* c c' \<Longrightarrow> tp_metrics (fst c) \<noteq> None \<Longrightarrow> tp_metrics (fst c') \<noteq> None"
proof (induction rule: rtranclp_induct)
  case (step y z)
  from step(2) step.IH [OF step.prems] show ?case
    by (induction rule: proxy_step.induct)
      (auto simp: conn_defs addBackend_def removeBackend_def Let_def split: if_splits option.splits)
qed

section \<open>Starting and stopping the proxies\<close>

lemma update_fresh: "k \<notin> fst ` set al \<Longrightarrow> AList.update k v al = al @ [(k, v)]"
  by (induction al) auto

lemma stop_all_log:
  "(\<forall>(k, p)\<in>set m. tp_proxyPort p = k) \<Longrightarrow>
   px_log (fst (stop_all nw m d)) = px_log d @ map Closed (map fst m)"
  by (induction nw m d rule: stop_all.induct) (auto simp: stop_one_def split: prod.splits option.splits)

lemma stopProxy_log:
  assumes "px_map d = Some m" "\<forall>(k, p)\<in>set m. tp_proxyPort p = k"
  shows "px_map (fst (stopProxy nw d)) = None \<and> px_log (fst (stopProxy nw d)) = px_log d @ map Closed (map fst m)"
  using stop_all_log [OF assms(2), of nw d] assms(1) by (auto simp: stopProxy_def split: prod.splits)

definition idle_proxies :: "goint list \<Rightarrow> 'w proxies \<Rightarrow> bool" where
  "idle_proxies ports d = (map fst (tcpProxies d) = ports \<and> px_map d \<noteq> None \<and>
     (\<forall>(k, p)\<in>set (tcpProxies d). tp_proxyPort p = k \<and> tp_backends p = []))"

lemma start_all_spec:
  assumes "distinct (opened @ ports)" "idle_proxies opened d" "px_log d = L @ map Listened opened"
    "start_all nw idle metrics ports d = (d', r)"
  shows "case r of
      None \<Rightarrow> idle_proxies (opened @ ports) d' \<and> px_log d' = L @ map Listened (opened @ ports)
    | Some e \<Rightarrow> px_map d' = None \<and> (\<exists>ps. px_log d' = L @ map Listened ps @ map Closed ps)"
  using assms
proof (induction ports arbitrary: opened d)
  case (Cons port ports)
  obtain w err where l: "nw_listen nw (px_world d) port = (w, err)" by force
  obtain m where m: "px_map d = Some m" "map fst m = opened"
      "\<forall>(k, p)\<in>set m. tp_proxyPort p = k \<and> tp_backends p = []"
    using Cons.prems(2) by (cases "px_map d") (simp_all add: idle_proxies_def tcpProxies_def)
  show ?case
  proof (cases err)
    case None
    let ?p = "\<lparr>tp_proxyPort = port, tp_backends = [], tp_backendIndex = 0, tp_idleTimeout = idle,
      tp_metrics = (if metrics then Some new_metrics else None), tp_done = False\<rparr>"
    let ?d = "d\<lparr>px_world := w, px_log := px_log d @ [Listened port], px_map := Some (m @ [(port, ?p)])\<rparr>"
    have "port \<notin> fst ` set m" using Cons.prems(1) by (simp flip: m(2))
    then have "start_all nw idle metrics ports ?d = (d', r)"
      using Cons.prems(4) m(1) l None by (simp add: newTCPProxy_def tcpProxies_def update_fresh)
    moreover have "idle_proxies (opened @ [port]) ?d" using m by (auto simp: idle_proxies_def tcpProxies_def)
    ultimately show ?thesis using Cons.IH [of "opened @ [port]" ?d] Cons.prems(1,3)
      by (cases r) simp_all
  next
    case (Some e)
    then have "d' = fst (stopProxy nw (d\<lparr>px_world := w\<rparr>))" "r \<noteq> None"
      using Cons.prems(4) l by (auto simp: newTCPProxy_def)
    moreover have "\<forall>(k, p)\<in>set m. tp_proxyPort p = k" using m(3) by auto
    then have "px_map (fst (stopProxy nw (d\<lparr>px_world := w\<rparr>))) = None"
        "px_log (fst (stopProxy nw (d\<lparr>px_world := w\<rparr>))) = L @ map Listened opened @ map Closed opened"
      using stopProxy_log [of "d\<lparr>px_world := w\<rparr>" m nw] m(1,2) Cons.prems(3) by auto
    ultimately show ?thesis by auto
  qed
qed simp

section \<open>The updater interface of the rolling deployment (container.go)\<close>

text \<open>
  What the rolling deployment relies on when it registers and unregisters backends: the
  updater knows a fixed set of proxy ports, adding to a known port always succeeds, removing
  succeeds when the backend is there and changes nothing when it is not.
\<close>

locale backend_updater =
  fixes add :: "string \<Rightarrow> goint \<Rightarrow> goint \<Rightarrow> 'u \<Rightarrow> 'u \<times> string option"
    and remove :: "string \<Rightarrow> goint \<Rightarrow> goint \<Rightarrow> 'u \<Rightarrow> 'u \<times> string option"
    and backends :: "'u \<Rightarrow> goint \<Rightarrow> tcpBackend multiset"
    and ports :: "'u \<Rightarrow> goint set"
  assumes add_known: "pp \<in> ports u \<Longrightarrow> snd (add host p pp u) = None \<and>
        backends (fst (add host p pp u)) = (backends u)(pp := add_mset (mkBackend host p) (backends u pp))"
    and add_unknown: "pp \<notin> ports u \<Longrightarrow> \<exists>e. add host p pp u = (u, Some e)"
    and add_ports: "ports (fst (add host p pp u)) = ports u"
    and remove_present: "mkBackend host p \<in># backends u pp \<Longrightarrow> snd (remove host p pp u) = None"
    and remove_backends: "backends (fst (remove host p pp u)) = (backends u)(pp := backends u pp - {#mkBackend host p#})"
    and remove_ports: "ports (fst (remove host p pp u)) = ports u"

definition proxy_backends :: "'w proxies \<Rightarrow> goint \<Rightarrow> tcpBackend multiset" where
  "proxy_backends d pp = (case map_of (tcpProxies d) pp of None \<Rightarrow> {#} | Some p \<Rightarrow> mset (tp_backends p))"

definition proxy_ports :: "'w proxies \<Rightarrow> goint set" where
  "proxy_ports d = fst ` set (tcpProxies d)"

lemma tcpProxies_update [simp]: "tcpProxies (d\<lparr>px_map := Some m\<rparr>) = m"
  by (simp add: tcpProxies_def)

lemma map_of_known: "pp \<in> proxy_ports d \<longleftrightarrow> (\<exists>p. map_of (tcpProxies d) pp = Some p)"
  by (metis map_of_eq_None_iff not_None_eq proxy_ports_def)

lemma proxy_ports_update:
  "pp \<in> proxy_ports d \<Longrightarrow> proxy_ports (d\<lparr>px_map := Some (AList.update pp p (tcpProxies d))\<rparr>) = proxy_ports d"
  using dom_update [of pp p "tcpProxies d"] by (auto simp: proxy_ports_def)

interpretation dewy_proxy: backend_updater addProxyBackend removeProxyBackend proxy_backends proxy_ports
proof
  fix pp :: goint and u :: "'w proxies" and host p
  show "pp \<in> proxy_ports u \<Longrightarrow> snd (addProxyBackend host p pp u) = None \<and>
      proxy_backends (fst (addProxyBackend host p pp u)) =
      (proxy_backends u)(pp := add_mset (mkBackend host p) (proxy_backends u pp))"
    unfolding map_of_known
    by (auto simp: addProxyBackend_def proxy_backends_def update_conv' fun_eq_iff)
  show "pp \<notin> proxy_ports u \<Longrightarrow> \<exists>e. addProxyBackend host p pp u = (u, Some e)"
    by (auto simp: addProxyBackend_def map_of_known)
  show "proxy_ports (fst (addProxyBackend host p pp u)) = proxy_ports u"
    by (auto simp: addProxyBackend_def proxy_ports_update map_of_known split: option.splits)
  show "mkBackend host p \<in># proxy_backends u pp \<Longrightarrow> snd (removeProxyBackend host p pp u) = None"
    using removeBackend_backends [of host p]
    by (auto simp: removeProxyBackend_def proxy_backends_def split: option.splits prod.splits bool.splits)
  show "proxy_backends (fst (removeProxyBackend host p pp u)) =
      (proxy_backends u)(pp := proxy_backends u pp - {#mkBackend host p#})"
    using removeBackend_backends [of host p]
    by (auto simp: removeProxyBackend_def proxy_backends_def update_conv' fun_eq_iff diff_single_trivial
        split: option.splits prod.splits bool.splits)
  show "proxy_ports (fst (removeProxyBackend host p pp u)) = proxy_ports u"
    by (auto simp: removeProxyBackend_def proxy_ports_update map_of_known split: option.splits prod.splits bool.splits)
qed

section \<open>Properties\<close>

text \<open>
  Claim C29. The round robin is fair: as long as the 64-bit counter does not wrap around, k
  full rounds of connections over unchanged backends choose every backend exactly k times.
\<close>

theorem getNextBackend_round_robin:
  assumes "tp_backends p \<noteq> []" and "unat (tp_backendIndex p) + k * length (tp_backends p) \<le> 2 ^ 64"
  shows "mset (picks (k * length (tp_backends p)) p) = repeat_mset k (image_mset Some (mset (tp_backends p)))"
proof -
  let ?bs = "map Some (tp_backends p)" and ?s = "unat (tp_backendIndex p)"
  have "picks (k * length ?bs) p = map (\<lambda>i. ?bs ! (i mod length ?bs)) [?s ..< ?s + k * length ?bs]"
    using picks_nth [OF assms(1), of "k * length ?bs"] assms by simp
  then show ?thesis using mset_windows [of ?bs ?s k] assms(1) by simp
qed

definition two_backends :: tcpProxy where
  "two_backends = \<lparr>tp_proxyPort = 80, tp_backends = [mkBackend ''localhost'' 4001, mkBackend ''localhost'' 4002],
     tp_backendIndex = 5, tp_idleTimeout = 0, tp_metrics = None, tp_done = False\<rparr>"

theorem getNextBackend_round_robin_witness:
  "mset (picks 4 two_backends) = {#Some (mkBackend ''localhost'' 4001), Some (mkBackend ''localhost'' 4001),
     Some (mkBackend ''localhost'' 4002), Some (mkBackend ''localhost'' 4002)#}"
proof -
  have "mset (tp_backends two_backends) = {#mkBackend ''localhost'' 4001, mkBackend ''localhost'' 4002#}"
    "length (tp_backends two_backends) = 2" "unat (tp_backendIndex two_backends) = 5"
    by (simp_all add: two_backends_def)
  moreover have "replicate_mset 2 x = {#x, x#}" for x :: "tcpBackend option" by (simp add: numeral_2_eq_2)
  moreover have "tp_backends two_backends \<noteq> []" by (simp add: two_backends_def)
  ultimately show ?thesis using getNextBackend_round_robin [of two_backends 2] by simp
qed

text \<open>
  Claim C18. Whatever the interleaving of connections and backend changes, the metric series
  of a proxy stay exact: the gauge of active connections is the number of connections in
  flight, the backend gauge the number of backends, every accepted connection is either in
  flight or has its duration recorded, and there are never more errors than connections.
\<close>

theorem proxy_metrics_exact:
  assumes "newTCPProxy nw port idle True d = (d', Inr p)" and "proxy_step\<^sup>*\<^sup>* (p, {#}) (p', C)"
  shows "\<exists>m. tp_metrics p' = Some m \<and> pm_ActiveConnections m = int (size C) \<and>
    pm_BackendCount m = int (length (tp_backends p')) \<and>
    pm_ConnectionsTotal m = int (size C) + int (pm_ConnectionDuration m) \<and>
    0 \<le> pm_ErrorsTotal m \<and> pm_ErrorsTotal m \<le> pm_ConnectionsTotal m"
proof -
  have p: "tp_metrics p = Some new_metrics" "tp_backends p = []"
    using assms(1) by (auto simp: newTCPProxy_def split: prod.splits option.splits)
  then have "proxy_inv (p, {#})" by (simp add: proxy_inv_def metrics_ok_def new_metrics_def)
  then have "proxy_inv (p', C)" using proxy_inv_reachable [OF assms(2)] by simp
  moreover obtain m where "tp_metrics p' = Some m"
    using proxy_metrics_kept [OF assms(2)] p(1) by auto
  ultimately show ?thesis by (auto simp: proxy_inv_def metrics_ok_def)
qed

definition open_network :: "unit network" where
  "open_network = \<lparr>nw_listen = (\<lambda>w port. (w, if port = 81 then Some ''address in use'' else None)), nw_close = (\<lambda>w port. (w, None))\<rparr>"

definition no_proxies :: "unit proxies" where
  "no_proxies = \<lparr>px_world = (), px_map = None, px_log = []\<rparr>"

theorem proxy_metrics_exact_witness:
  "\<exists>p p' m. newTCPProxy open_network 80 0 True no_proxies = (no_proxies\<lparr>px_log := [Listened 80]\<rparr>, Inr p) \<and>
     proxy_step\<^sup>*\<^sup>* (p, {#}) (p', {#Accepted#}) \<and> tp_metrics p' = Some m \<and>
     pm_ActiveConnections m = 1 \<and> pm_ConnectionsTotal m = 2 \<and> pm_ErrorsTotal m = 1 \<and> pm_BackendCount m = 1"
proof -
  obtain p where p: "newTCPProxy open_network 80 0 True no_proxies = (no_proxies\<lparr>px_log := [Listened 80]\<rparr>, Inr p)"
    by (simp add: newTCPProxy_def open_network_def no_proxies_def)
  then have q: "tp_backends p = []" "tp_metrics p = Some new_metrics"
    by (auto simp: newTCPProxy_def open_network_def no_proxies_def)
  let ?p1 = "conn_accept p" and ?p2 = "conn_error (conn_accept p)"
  let ?p5 = "addBackend ''localhost'' 4001 (conn_accept (conn_close ?p2))"
  have "proxy_step (p, {#}) (?p1, {#Accepted#})" by (rule Accept)
  moreover have "proxy_step (?p1, {#Accepted#}) (?p2, {#Closing#})"
    by (rule Pick) (simp add: conn_pick_def getNextBackend_def conn_accept_def q)
  moreover have "proxy_step (?p2, {#Closing#}) (conn_close ?p2, {#})" by (rule Close)
  moreover have "proxy_step (conn_close ?p2, {#}) (conn_accept (conn_close ?p2), {#Accepted#})" by (rule Accept)
  moreover have "proxy_step (conn_accept (conn_close ?p2), {#Accepted#}) (?p5, {#Accepted#})" by (rule Add)
  ultimately have r: "proxy_step\<^sup>*\<^sup>* (p, {#}) (?p5, {#Accepted#})"
    by (meson converse_rtranclp_into_rtranclp rtranclp.rtrancl_refl)
  from proxy_metrics_exact [OF p r]
  show ?thesis
    by (intro exI [of _ p] exI [of _ ?p5] exI [of _ "the (tp_metrics ?p5)"] conjI p r)
      (simp_all add: conn_defs addBackend_def q new_metrics_def)
qed

text \<open>
  Claim C30. Starting the proxies is all or nothing: with distinct proxy ports either every
  port has a listening proxy without backends, or the instance has no proxies and every
  listener that was opened has been closed again.
\<close>

theorem startProxy_all_or_nothing:
  assumes "ports \<noteq> []" and "distinct ports" and "startProxy nw idle metrics ports d = (d', r)"
  shows "case r of
      None \<Rightarrow> map fst (tcpProxies d') = ports \<and> (\<forall>(k, p)\<in>set (tcpProxies d'). tp_proxyPort p = k \<and> tp_backends p = []) \<and>
        px_log d' = px_log d @ map Listened ports
    | Some e \<Rightarrow> tcpProxies d' = [] \<and> (\<exists>opened. px_log d' = px_log d @ map Listened opened @ map Closed opened)"
proof -
  have "idle_proxies [] (d\<lparr>px_map := Some []\<rparr>)" by (simp add: idle_proxies_def)
  moreover have "start_all nw idle metrics ports (d\<lparr>px_map := Some []\<rparr>) = (d', r)"
    using assms by (simp add: startProxy_def)
  ultimately show ?thesis
    using start_all_spec [of "[]" ports "d\<lparr>px_map := Some []\<rparr>" "px_log d" nw idle metrics d' r] assms(2)
    by (auto simp: idle_proxies_def tcpProxies_def split: option.splits)
qed

theorem startProxy_all_or_nothing_witness:
  "let (d', r) = startProxy open_network 0 False [80, 443, 81] no_proxies
   in r \<noteq> None \<and> tcpProxies d' = [] \<and> px_log d' = [Listened 80, Listened 443, Closed 80, Closed 443]"
proof -
  obtain d' r where s: "startProxy open_network 0 False [80, 443, 81] no_proxies = (d', r)" by force
  have r: "r \<noteq> None" "px_log d' = [Listened 80, Listened 443, Closed 80, Closed 443]"
    using s by (auto simp: startProxy_def newTCPProxy_def stopProxy_def stop_one_def open_network_def
        no_proxies_def tcpProxies_def)
  show ?thesis using startProxy_all_or_nothing [OF _ _ s] r s by (auto split: option.splits)
qed

end
