(* ===== verification/Container_Runtime.thy ===== *)
theory Container_Runtime
  imports Dewy_Prelude "HOL-Library.Sublist"
begin

text \<open>
  The driver of the container CLI: src/container (container.go, runtime.go, credentials.go,
  image.go, inspect.go, healthcheck.go). Every call of the CLI goes through a parameter of the
  model, the record \<open>host\<close>, that maps the state of the world, the command and its
  arguments to a new world and the outcome; the runtime keeps a log of the commands it issued
  and what they returned. The record also has what the package takes from the process (clock,
  environment, user) and the decoders of documents whose format belongs to the CLI (JSON of
  the inspect commands, timestamps). The iteration order of a Go map is chosen by the world.
\<close>

section \<open>The host\<close>

datatype run_error = ExitError string string | StartError string

record imageInspection =
  ii_ID :: string
  ii_ExposedPorts :: "string list"

record inspection =
  in_ID :: string
  in_Name :: string
  in_RestartCount :: goint
  in_Status :: string
  in_StartedAt :: string
  in_FinishedAt :: string
  in_ExitCode :: goint
  in_OOMKilled :: bool
  in_Image :: string
  in_Labels :: "(string \<times> string) list"
  in_Ports :: "(string \<times> (string \<times> string) list) list"

record 'w host =
  h_output :: "'w \<Rightarrow> string \<Rightarrow> string list \<Rightarrow> 'w \<times> (run_error + string)"
  h_combined :: "'w \<Rightarrow> string \<Rightarrow> string list \<Rightarrow> string \<Rightarrow> 'w \<times> string \<times> string option"
  h_lookPath :: "string \<Rightarrow> string option"
  h_unixNow :: "'w \<Rightarrow> int"
  h_rfc3339Now :: "'w \<Rightarrow> string"
  h_uid :: int
  h_gid :: int
  h_getenv :: "string \<Rightarrow> string"
  h_rangeLabels :: "'w \<Rightarrow> (string \<times> string) list \<Rightarrow> 'w \<times> (string \<times> string) list"
  h_rangePorts :: "'w \<Rightarrow> (goint \<times> goint) list \<Rightarrow> 'w \<times> (goint \<times> goint) list"
  h_parseTime :: "string \<Rightarrow> string \<Rightarrow> int option"
  h_jsonImages :: "string \<Rightarrow> string + imageInspection list"
  h_jsonContainers :: "string \<Rightarrow> string + inspection list"

text \<open>One entry per command with its result, and per backend change asked of the updater.\<close>

datatype event =
    Exec "string list" "string + string"
  | AddedBackend string goint goint bool
  | RemovedBackend string goint goint bool

record 'w Runtime =
  rt_cmd :: string
  rt_drainTime :: int
  rt_loggedInRegistries :: "string \<Rightarrow> bool"
  rt_world :: 'w
  rt_log :: "event list"

definition log_event :: "event \<Rightarrow> 'w Runtime \<Rightarrow> 'w Runtime" where
  "log_event e r = r\<lparr>rt_log := rt_log r @ [e]\<rparr>"

section \<open>Construction (container.go, runtime.go)\<close>

definition supportedRuntimes :: "string \<Rightarrow> bool" where
  "supportedRuntimes s = (s \<in> {''docker'', ''podman''})"

definition newCLIRuntime :: "'w host \<Rightarrow> 'w \<Rightarrow> string \<Rightarrow> int \<Rightarrow> string + 'w Runtime" where
  "newCLIRuntime h w cmd drainTime =
     (case h_lookPath h cmd of
        Some err \<Rightarrow> Inl (''container runtime not found: '' @ err)
      | None \<Rightarrow> Inr \<lparr>rt_cmd = cmd, rt_drainTime = drainTime, rt_loggedInRegistries = (\<lambda>_. False),
                   rt_world = w, rt_log = []\<rparr>)"

definition New :: "'w host \<Rightarrow> 'w \<Rightarrow> string \<Rightarrow> int \<Rightarrow> string + 'w Runtime" where
  "New h w runtime drainTime =
     (if \<not> supportedRuntimes runtime
      then Inl (''unsupported runtime '' @ goQuote runtime @ '': must be one of docker, podman'')
      else newCLIRuntime h w runtime drainTime)"

section \<open>Extra arguments (runtime.go)\<close>

definition forbiddenLongOptions :: "string list" where
  "forbiddenLongOptions = [''--detach'', ''--interactive'', ''--tty'', ''--publish'', ''--label-file'',
     ''--privileged'', ''--pid'', ''--cap-add'', ''--security-opt'', ''--device'', ''--userns'', ''--cgroupns'']"

definition forbiddenShortFlagChars :: "char list" where
  "forbiddenShortFlagChars = [CHR ''d'', CHR ''i'', CHR ''t'', CHR ''p'']"

definition reservedLabelPrefix :: string where "reservedLabelPrefix = ''dewy.''"

definition extractLabelValue :: "string list \<Rightarrow> nat \<Rightarrow> string option" where
  "extractLabelValue args i =
     (let arg = args ! i in
      if arg = ''--label'' \<or> arg = ''-l'' then (if i + 1 < length args then Some (args ! (i + 1)) else None)
      else if hasPrefix arg ''--label='' then Some (drop 8 arg)
      else if hasPrefix arg ''-l='' then Some (drop 3 arg)
      else if hasPrefix arg ''-l'' \<and> length arg > 2 \<and> arg ! 2 \<noteq> CHR ''-'' then Some (drop 2 arg)
      else None)"

definition matchForbiddenShortFlag :: "string \<Rightarrow> char option" where
  "matchForbiddenShortFlag arg =
     (if length arg < 2 \<or> arg ! 0 \<noteq> CHR ''-'' \<or> arg ! 1 = CHR ''-'' then None
      else List.find (\<lambda>c. arg ! 1 = c) forbiddenShortFlagChars)"

datatype arg_error = ForbiddenLong string | ForbiddenShort char | ReservedLabel string

definition checkExtraArg :: "string list \<Rightarrow> nat \<Rightarrow> arg_error option" where
  "checkExtraArg args i =
     (let arg = args ! i in
      case List.find (\<lambda>f. arg = f \<or> hasPrefix arg (f @ ''='')) forbiddenLongOptions of
        Some f \<Rightarrow> Some (ForbiddenLong f)
      | None \<Rightarrow> (case matchForbiddenShortFlag arg of
          Some c \<Rightarrow> Some (ForbiddenShort c)
        | None \<Rightarrow> (case extractLabelValue args i of
            Some v \<Rightarrow> if hasPrefix v reservedLabelPrefix then Some (ReservedLabel v) else None
          | None \<Rightarrow> None)))"

definition validateExtraArgs :: "string list \<Rightarrow> arg_error option" where
  "validateExtraArgs args =
     (case filter (\<lambda>i. checkExtraArg args i \<noteq> None) [0 ..< length args] of
        [] \<Rightarrow> None | i # _ \<Rightarrow> checkExtraArg args i)"

fun arg_error_text :: "arg_error \<Rightarrow> string" where
  "arg_error_text (ForbiddenLong f) = ''option '' @ f @ '' conflicts with Dewy management and cannot be used''"
| "arg_error_text (ForbiddenShort c) = ''option -'' @ [c] @ '' conflicts with Dewy management and cannot be used''"
| "arg_error_text (ReservedLabel v) = ''label '' @ goQuote v @ '' uses reserved prefix '' @ goQuote reservedLabelPrefix @ '' and cannot be used''"

definition isUserOption :: "string \<Rightarrow> bool" where
  "isUserOption arg = (arg = ''--user'' \<or> hasPrefix arg ''--user='' \<or> arg = ''-u'' \<or> hasPrefix arg ''-u='' \<or>
     (length arg > 2 \<and> arg ! 0 = CHR ''-'' \<and> arg ! 1 = CHR ''u'' \<and> arg ! 2 \<noteq> CHR ''-''))"

definition hasUserOption :: "string list \<Rightarrow> bool" where
  "hasUserOption args = list_ex isUserOption args"

text \<open>name is the name found so far; the second component collects the arguments that stay.\<close>

fun extractName :: "string \<Rightarrow> string list \<Rightarrow> string \<times> string list" where
  "extractName name [] = (name, [])"
| "extractName name [arg] =
     (if hasPrefix arg ''--name='' then (drop 7 arg, []) else (name, [arg]))"
| "extractName name (arg # val # args) =
     (if arg = ''--name'' then extractName val args
      else if hasPrefix arg ''--name='' then extractName (drop 7 arg) (val # args)
      else case extractName name (val # args) of (n, filtered) \<Rightarrow> (n, arg # filtered))"

definition extractNameOption :: "string list \<Rightarrow> string \<times> string list" where
  "extractNameOption args = extractName [] args"

section \<open>Commands (runtime.go)\<close>

definition execCommandOutput :: "'w host \<Rightarrow> string list \<Rightarrow> 'w Runtime \<Rightarrow> 'w Runtime \<times> (string + string)" where
  "execCommandOutput h args r =
     (case h_output h (rt_world r) (rt_cmd r) args of (w, out) \<Rightarrow>
        let res = (case out of
             Inl (ExitError err stderr) \<Rightarrow> Inl (rt_cmd r @ '' '' @ joinS '' '' args @ '' failed: '' @ err @ '': '' @ stderr)
           | Inl (StartError err) \<Rightarrow> Inl (rt_cmd r @ '' '' @ joinS '' '' args @ '' failed: '' @ err)
           | Inr output \<Rightarrow> Inr (trimSpace output))
        in (log_event (Exec args res) (r\<lparr>rt_world := w\<rparr>), res))"

definition err_of :: "string + 'a \<Rightarrow> string option" where
  "err_of res = (case res of Inl e \<Rightarrow> Some e | Inr _ \<Rightarrow> None)"

definition execCommand :: "'w host \<Rightarrow> string list \<Rightarrow> 'w Runtime \<Rightarrow> 'w Runtime \<times> string option" where
  "execCommand h args r = (case execCommandOutput h args r of (r, res) \<Rightarrow> (r, err_of res))"

record RunOptions =
  ro_Image :: string
  ro_AppName :: string
  ro_ReplicaIndex :: goint
  ro_Labels :: "(string \<times> string) list"
  ro_Ports :: "string list"
  ro_Detach :: bool
  ro_Command :: "string list"
  ro_ExtraArgs :: "string list"

definition containerName :: "RunOptions \<Rightarrow> int \<Rightarrow> string" where
  "containerName opts timestamp =
     (let userName = fst (extractNameOption (ro_ExtraArgs opts));
          baseName = (if userName \<noteq> [] then userName else ro_AppName opts)
      in baseName @ ''-'' @ itoa timestamp @ ''-'' @ itoa (ro_ReplicaIndex opts))"

text \<open>The argument vector of run; labels come in the order the map is iterated.\<close>

definition runArgs :: "'w host \<Rightarrow> RunOptions \<Rightarrow> int \<Rightarrow> (string \<times> string) list \<Rightarrow> string list" where
  "runArgs h opts timestamp labels =
     (let filteredArgs = snd (extractNameOption (ro_ExtraArgs opts)) in
      [''run''] @ (if ro_Detach opts then [''-d''] else []) @
      [''--name'', containerName opts timestamp] @
      concat (map (\<lambda>(k, v). [''--label'', k @ ''='' @ v]) labels) @
      concat (map (\<lambda>p. [''-p'', p]) (ro_Ports opts)) @
      filteredArgs @
      (if hasUserOption filteredArgs then [] else [''--user'', itoa (h_uid h) @ '':'' @ itoa (h_gid h)]) @
      [ro_Image opts] @ ro_Command opts)"

definition Run :: "'w host \<Rightarrow> RunOptions \<Rightarrow> 'w Runtime \<Rightarrow> 'w Runtime \<times> (string + string)" where
  "Run h opts r =
     (case validateExtraArgs (ro_ExtraArgs opts) of
        Some e \<Rightarrow> (r, Inl (arg_error_text e))
      | None \<Rightarrow>
         let timestamp = h_unixNow h (rt_world r) in
         (case h_rangeLabels h (rt_world r) (ro_Labels opts) of
            (w, labels) \<Rightarrow> execCommandOutput h (runArgs h opts timestamp labels) (r\<lparr>rt_world := w\<rparr>)))"

text \<open>Timeouts are whole seconds.\<close>

definition Stop :: "'w host \<Rightarrow> string \<Rightarrow> int \<Rightarrow> 'w Runtime \<Rightarrow> 'w Runtime \<times> string option" where
  "Stop h containerID timeout r = execCommand h [''stop'', ''--time='' @ itoa timeout, containerID] r"

definition Remove :: "'w host \<Rightarrow> string \<Rightarrow> 'w Runtime \<Rightarrow> 'w Runtime \<times> string option" where
  "Remove h containerID r = execCommand h [''rm'', containerID] r"

section \<open>Credentials (credentials.go)\<close>

definition stripDigest :: "string \<Rightarrow> string" where
  "stripDigest ref = (case strIndex ref ''@'' of Some i \<Rightarrow> take i ref | None \<Rightarrow> ref)"

text \<open>Cut at the last colon when it comes after the last slash (an absent index counts as -1).\<close>

definition stripTag :: "string \<Rightarrow> string" where
  "stripTag ref =
     (case lastIndexC (CHR '':'') ref of
        None \<Rightarrow> ref
      | Some c \<Rightarrow> (case lastIndexC (CHR ''/'') ref of
          None \<Rightarrow> take c ref
        | Some s \<Rightarrow> if s < c then take c ref else ref))"

definition extractRegistry :: "string \<Rightarrow> string" where
  "extractRegistry imageRef =
     (let ref = stripTag (stripDigest imageRef); parts = splitN2 ref ''/'' in
      if length parts = 1 then ''docker.io''
      else let firstPart = parts ! 0 in
        if strContains firstPart ''.'' \<or> strContains firstPart '':'' \<or> firstPart = ''localhost''
        then firstPart else ''docker.io'')"

definition getCredentials :: "(string \<Rightarrow> string) \<Rightarrow> string \<Rightarrow> string \<times> string" where
  "getCredentials getenv registry =
     (if strContains registry ''ghcr.io'' \<and> getenv ''GITHUB_TOKEN'' \<noteq> [] then (''token'', getenv ''GITHUB_TOKEN'')
      else if strContains registry ''.ecr.'' \<and> strContains registry ''.amazonaws.com'' \<and> getenv ''AWS_ECR_PASSWORD'' \<noteq> []
      then (''AWS'', getenv ''AWS_ECR_PASSWORD'')
      else if (strContains registry ''gcr.io'' \<or> strContains registry ''-docker.pkg.dev'') \<and> getenv ''GCR_TOKEN'' \<noteq> []
      then (''_json_key'', getenv ''GCR_TOKEN'')
      else (getenv ''DOCKER_USERNAME'', getenv ''DOCKER_PASSWORD''))"

definition isAuthError :: "string \<Rightarrow> bool" where
  "isAuthError output = list_ex (strContains (toLower output))
     [''unauthorized'', ''authentication required'', ''denied'', ''access forbidden'', ''not authorized'', ''login required'']"

text \<open>A command run with os/exec directly: the password is the standard input of login.\<close>

definition execCombined :: "'w host \<Rightarrow> string list \<Rightarrow> string \<Rightarrow> 'w Runtime \<Rightarrow> 'w Runtime \<times> string \<times> string option" where
  "execCombined h args stdin r =
     (case h_combined h (rt_world r) (rt_cmd r) args stdin of (w, output, err) \<Rightarrow>
        (log_event (Exec args (case err of None \<Rightarrow> Inr output | Some e \<Rightarrow> Inl e)) (r\<lparr>rt_world := w\<rparr>), output, err))"

definition Login :: "'w host \<Rightarrow> string \<Rightarrow> 'w Runtime \<Rightarrow> 'w Runtime \<times> string option" where
  "Login h registry r =
     (case getCredentials (h_getenv h) registry of (username, password) \<Rightarrow>
        if username = [] \<or> password = [] then (r, None)
        else (case execCombined h [''login'', ''-u'', username, ''--password-stdin'', registry] password r of
            (r, output, Some err) \<Rightarrow> (r, Some (rt_cmd r @ '' login failed for '' @ registry @ '': '' @ err @ '': '' @ output))
          | (r, output, None) \<Rightarrow> (r\<lparr>rt_loggedInRegistries := (rt_loggedInRegistries r)(registry := True)\<rparr>, None)))"

section \<open>Images (image.go)\<close>

definition pullImage :: "'w host \<Rightarrow> string \<Rightarrow> 'w Runtime \<Rightarrow> 'w Runtime \<times> string \<times> string option" where
  "pullImage h imageRef r =
     (case execCombined h [''pull'', imageRef] [] r of
        (r, output, Some err) \<Rightarrow>
          (r, output, Some (rt_cmd r @ '' pull '' @ imageRef @ '' failed: '' @ err @ '': '' @ output))
      | (r, output, None) \<Rightarrow> (r, output, None))"

text \<open>Login when the registry has no session yet; a failure is only logged.\<close>

definition loginIfNeeded :: "'w host \<Rightarrow> string \<Rightarrow> 'w Runtime \<Rightarrow> 'w Runtime" where
  "loginIfNeeded h registry r = (if rt_loggedInRegistries r registry then r else fst (Login h registry r))"

definition retryPull :: "'w host \<Rightarrow> string \<Rightarrow> string \<Rightarrow> string \<Rightarrow> 'w Runtime \<Rightarrow> 'w Runtime \<times> string option" where
  "retryPull h registry imageRef pullErr r =
     (case Login h registry (r\<lparr>rt_loggedInRegistries := (rt_loggedInRegistries r)(registry := False)\<rparr>) of
        (r, Some loginErr) \<Rightarrow> (r, Some pullErr)
      | (r, None) \<Rightarrow> (case pullImage h imageRef r of (r, output, err) \<Rightarrow> (r, err)))"

definition Pull :: "'w host \<Rightarrow> string \<Rightarrow> 'w Runtime \<Rightarrow> 'w Runtime \<times> string option" where
  "Pull h imageRef r =
     (case execCombined h [''image'', ''inspect'', imageRef] [] r of (r, _, localErr) \<Rightarrow>
        let registry = extractRegistry imageRef in
        (case pullImage h imageRef (loginIfNeeded h registry r) of (r, output, pullErr) \<Rightarrow>
           (case (case pullErr of
                    Some e \<Rightarrow> if isAuthError output then retryPull h registry imageRef e r else (r, pullErr)
                  | None \<Rightarrow> (r, pullErr)) of
              (r, pullErr) \<Rightarrow> if pullErr \<noteq> None \<and> localErr = None then (r, None) else (r, pullErr))))"

definition imageRepositoryFromRef :: "string \<Rightarrow> string" where
  "imageRepositoryFromRef imageRef =
     (let ref = stripDigest imageRef in
      case lastIndexC (CHR ''/'') ref of
        None \<Rightarrow> (case lastIndexC (CHR '':'') ref of Some c \<Rightarrow> take c ref | None \<Rightarrow> ref)
      | Some s \<Rightarrow> (case lastIndexC (CHR '':'') ref of
          Some c \<Rightarrow> if s < c then take c ref else ref | None \<Rightarrow> ref))"

record ImageInfo =
  im_ID :: string
  im_Repository :: string
  im_Tag :: string
  im_Created :: int

definition parseCreated :: "'w host \<Rightarrow> string \<Rightarrow> int" where
  "parseCreated h s =
     (case h_parseTime h ''2006-01-02 15:04:05 -0700 MST'' s of Some t \<Rightarrow> t
      | None \<Rightarrow> (case h_parseTime h ''2006-01-02 15:04:05 -0700'' s of Some t \<Rightarrow> t
        | None \<Rightarrow> (case h_parseTime h ''2006-01-02T15:04:05Z07:00'' s of Some t \<Rightarrow> t | None \<Rightarrow> zeroTime)))"

definition imageLine :: "'w host \<Rightarrow> string \<Rightarrow> ImageInfo option" where
  "imageLine h line =
     (let line = trimSpace line; parts = splitC (CHR ''|'') line in
      if line = [] \<or> length parts \<noteq> 5 then None
      else Some \<lparr>im_ID = trimSpace (parts ! 0), im_Repository = trimSpace (parts ! 1),
             im_Tag = trimSpace (parts ! 2), im_Created = parseCreated h (trimSpace (parts ! 3))\<rparr>)"

definition ListImages :: "'w host \<Rightarrow> string \<Rightarrow> 'w Runtime \<Rightarrow> 'w Runtime \<times> (string + ImageInfo list)" where
  "ListImages h repository r =
     (case execCommandOutput h [''images'', ''--format'', ''{{.ID}}|{{.Repository}}|{{.Tag}}|{{.CreatedAt}}|{{.Size}}'', repository] r of
        (r, Inl err) \<Rightarrow> (r, Inl (''failed to list images: '' @ err))
      | (r, Inr output) \<Rightarrow> (r, Inr (if output = [] then [] else List.map_filter (imageLine h) (splitC (CHR 0x0A) output))))"

definition RemoveImage :: "'w host \<Rightarrow> string \<Rightarrow> 'w Runtime \<Rightarrow> 'w Runtime \<times> string option" where
  "RemoveImage h imageID r =
     (case execCommand h [''rmi'', ''--force'', imageID] r of
        (r, Some err) \<Rightarrow> (r, Some (''failed to remove image: '' @ err)) | (r, None) \<Rightarrow> (r, None))"

fun removeImages :: "'w host \<Rightarrow> ImageInfo list \<Rightarrow> 'w Runtime \<Rightarrow> 'w Runtime" where
  "removeImages h [] r = r"
| "removeImages h (img # imgs) r = removeImages h imgs (fst (RemoveImage h (im_ID img) r))"

definition newestFirst :: "ImageInfo list \<Rightarrow> ImageInfo list" where
  "newestFirst images = sort_key (\<lambda>i. - im_Created i) images"

definition CleanupOldImages :: "'w host \<Rightarrow> string \<Rightarrow> goint \<Rightarrow> 'w Runtime \<Rightarrow> 'w Runtime \<times> string option" where
  "CleanupOldImages h imageRef keepCount r =
     (case ListImages h (imageRepositoryFromRef imageRef) r of
        (r, Inl err) \<Rightarrow> (r, Some (''failed to list images: '' @ err))
      | (r, Inr images) \<Rightarrow>
          if int (length images) \<le> keepCount then (r, None)
          else (removeImages h (drop (nat keepCount) (newestFirst images)) r, None))"

definition exposedPort :: "string \<Rightarrow> goint option" where
  "exposedPort portSpec = (if \<not> hasSuffix portSpec ''/tcp'' then None else atoi_opt (trimSuffix portSpec ''/tcp''))"

definition GetImageExposedPorts :: "'w host \<Rightarrow> string \<Rightarrow> 'w Runtime \<Rightarrow> 'w Runtime \<times> (string + goint list)" where
  "GetImageExposedPorts h imageRef r =
     (case execCommandOutput h [''image'', ''inspect'', imageRef] r of
        (r, Inl err) \<Rightarrow> (r, Inl (''failed to inspect image: '' @ err))
      | (r, Inr output) \<Rightarrow> (r, case h_jsonImages h output of
            Inl err \<Rightarrow> Inl (''failed to parse image inspect output: '' @ err)
          | Inr [] \<Rightarrow> Inl (''image not found: '' @ imageRef)
          | Inr (inspect # _) \<Rightarrow> Inr (sort (List.map_filter exposedPort (ii_ExposedPorts inspect)))))"

section \<open>Inspection (inspect.go)\<close>

record Status =
  st_ID :: string
  st_Name :: string
  st_Image :: string
  st_State :: string
  st_Restarts :: goint
  st_ExitCode :: goint
  st_OOMKilled :: bool
  st_Replica :: string
  st_Version :: string
  st_StartedAt :: int
  st_FinishedAt :: int

definition Terminated :: "Status \<Rightarrow> bool" where
  "Terminated s = (st_State s = ''exited'' \<or> st_State s = ''dead'')"

text \<open>The non-empty trimmed lines of a listing.\<close>

definition listing :: "string \<Rightarrow> string list" where
  "listing output = filter (\<lambda>l. l \<noteq> []) (map trimSpace (splitC (CHR 0x0A) output))"

definition findContainerIDs :: "'w host \<Rightarrow> (string \<times> string) list \<Rightarrow> bool \<Rightarrow> 'w Runtime \<Rightarrow> 'w Runtime \<times> (string + string list)" where
  "findContainerIDs h labels all r =
     (case h_rangeLabels h (rt_world r) labels of (w, labels) \<Rightarrow>
       (case execCommandOutput h ([''ps'', ''-q''] @ (if all then [''-a''] else []) @
               concat (map (\<lambda>(k, v). [''--filter'', ''label='' @ k @ ''='' @ v]) labels)) (r\<lparr>rt_world := w\<rparr>) of
          (r, Inl err) \<Rightarrow> (r, Inl err)
        | (r, Inr output) \<Rightarrow> (r, Inr (if output = [] then [] else listing output))))"

definition FindContainerByLabel :: "'w host \<Rightarrow> (string \<times> string) list \<Rightarrow> 'w Runtime \<Rightarrow> 'w Runtime \<times> (string + string)" where
  "FindContainerByLabel h labels r =
     (case findContainerIDs h labels False r of
        (r, Inl err) \<Rightarrow> (r, Inl err)
      | (r, Inr []) \<Rightarrow> (r, Inl ''container not found'')
      | (r, Inr (c # _)) \<Rightarrow> (r, Inr c))"

definition FindContainersByLabel :: "'w host \<Rightarrow> (string \<times> string) list \<Rightarrow> 'w Runtime \<Rightarrow> 'w Runtime \<times> (string + string list)" where
  "FindContainersByLabel h labels r = findContainerIDs h labels False r"

fun removeAll_counting :: "'w host \<Rightarrow> string list \<Rightarrow> nat \<Rightarrow> 'w Runtime \<Rightarrow> 'w Runtime \<times> nat" where
  "removeAll_counting h [] removed r = (r, removed)"
| "removeAll_counting h (i # ids) removed r =
     (case Remove h i r of
        (r, Some err) \<Rightarrow> removeAll_counting h ids removed r
      | (r, None) \<Rightarrow> removeAll_counting h ids (removed + 1) r)"

definition RemoveExited :: "'w host \<Rightarrow> string \<Rightarrow> 'w Runtime \<Rightarrow> 'w Runtime \<times> (string + nat)" where
  "RemoveExited h appName r =
     (case execCommandOutput h [''ps'', ''-aq'', ''--filter'', ''status=exited'', ''--filter'',
            ''label=dewy.managed=true'', ''--filter'', ''label=dewy.app='' @ appName] r of
        (r, Inl err) \<Rightarrow> (r, Inl (''failed to list exited containers: '' @ err))
      | (r, Inr output) \<Rightarrow>
          if output = [] then (r, Inr 0)
          else (case removeAll_counting h (listing output) 0 r of (r, n) \<Rightarrow> (r, Inr n)))"

definition label :: "inspection \<Rightarrow> string \<Rightarrow> string" where
  "label i k = (case map_of (in_Labels i) k of Some v \<Rightarrow> v | None \<Rightarrow> [])"

definition parseTimeNano :: "'w host \<Rightarrow> string \<Rightarrow> int" where
  "parseTimeNano h v = (case h_parseTime h ''2006-01-02T15:04:05.999999999Z07:00'' v of Some t \<Rightarrow> t | None \<Rightarrow> zeroTime)"

definition toStatus :: "'w host \<Rightarrow> inspection \<Rightarrow> Status" where
  "toStatus h i = \<lparr>st_ID = in_ID i, st_Name = trimPrefix (in_Name i) ''/'', st_Image = in_Image i,
     st_State = in_Status i, st_Restarts = in_RestartCount i, st_ExitCode = in_ExitCode i,
     st_OOMKilled = in_OOMKilled i, st_Replica = label i ''dewy.replica'', st_Version = label i ''dewy.version'',
     st_StartedAt = parseTimeNano h (in_StartedAt i), st_FinishedAt = parseTimeNano h (in_FinishedAt i)\<rparr>"

definition managedLabels :: "string \<Rightarrow> (string \<times> string) list" where
  "managedLabels appName = [(''dewy.managed'', ''true'')] @ (if appName \<noteq> [] then [(''dewy.app'', appName)] else [])"

definition InspectManaged :: "'w host \<Rightarrow> string \<Rightarrow> 'w Runtime \<Rightarrow> 'w Runtime \<times> (string + Status list)" where
  "InspectManaged h appName r =
     (case findContainerIDs h (managedLabels appName) True r of
        (r, Inl err) \<Rightarrow> (r, Inl (''failed to list managed containers: '' @ err))
      | (r, Inr []) \<Rightarrow> (r, Inr [])
      | (r, Inr ids) \<Rightarrow> (case execCommandOutput h (''inspect'' # ids) r of
            (r, Inl err) \<Rightarrow> (r, Inl (''failed to inspect managed containers: '' @ err))
          | (r, Inr output) \<Rightarrow> (r, case h_jsonContainers h output of
                Inl err \<Rightarrow> Inl (''failed to parse inspect output: '' @ err)
              | Inr inspects \<Rightarrow> Inr (map (toStatus h) inspects))))"

text \<open>
  fmt.Sscanf of a decimal integer: leading spaces, an optional sign and digits; what follows
  the digits is not read.
\<close>

definition sscanf_d :: "string \<Rightarrow> goint option" where
  "sscanf_d s =
     (case dropWhile isSpaceC s of
        [] \<Rightarrow> None
      | c # cs \<Rightarrow> if c = CHR ''-'' \<or> c = CHR ''+'' then atoi_opt (c # takeWhile is_digit cs)
                  else atoi_opt (takeWhile is_digit (c # cs)))"

definition parsePortOutput :: "string \<Rightarrow> string + goint" where
  "parsePortOutput output =
     (let firstMapping = trimSpace (hd (splitC (CHR 0x0A) output)) in
      case lastIndexC (CHR '':'') firstMapping of
        None \<Rightarrow> Inl (''unexpected port format: '' @ firstMapping)
      | Some i \<Rightarrow> (case sscanf_d (drop (i + 1) firstMapping) of
          None \<Rightarrow> Inl (''failed to parse port number from '' @ drop (i + 1) firstMapping)
        | Some port \<Rightarrow> Inr port))"

definition GetMappedPort :: "'w host \<Rightarrow> string \<Rightarrow> goint \<Rightarrow> 'w Runtime \<Rightarrow> 'w Runtime \<times> (string + goint)" where
  "GetMappedPort h containerID containerPort r =
     (case execCommandOutput h [''port'', containerID, itoa containerPort @ ''/tcp''] r of
        (r, Inl err) \<Rightarrow> (r, Inl (''failed to get mapped port: '' @ err))
      | (r, Inr output) \<Rightarrow>
          (r, if output = [] then Inl (''no port mapping found for container port '' @ itoa containerPort)
              else parsePortOutput output))"

definition GetRunningContainerWithImage :: "'w host \<Rightarrow> string \<Rightarrow> string \<Rightarrow> 'w Runtime \<Rightarrow> 'w Runtime \<times> (string + string)" where
  "GetRunningContainerWithImage h imageRef appName r =
     (case execCommandOutput h [''ps'', ''--filter'', ''ancestor='' @ imageRef, ''--filter'', ''label=dewy.app='' @ appName,
            ''--filter'', ''status=running'', ''--format'', ''{{.ID}}''] r of
        (r, Inl err) \<Rightarrow> (r, Inl (''failed to list running containers: '' @ err))
      | (r, Inr output) \<Rightarrow>
          (r, Inr (if output = [] then [] else trimSpace (hd (splitC (CHR 0x0A) output)))))"

record Info =
  ci_ID :: string
  ci_Name :: string
  ci_Image :: string
  ci_Status :: string
  ci_IPPort :: string
  ci_StartedAt :: int
  ci_DeployedAt :: int
  ci_Labels :: "(string \<times> string) list"

text \<open>The list of port bindings is in the order the map is iterated.\<close>

definition ipPort :: "inspection \<Rightarrow> goint \<Rightarrow> string" where
  "ipPort i containerPort =
     (let show_binding = (\<lambda>(ip, port). ip @ '':'' @ port) in
      if containerPort > 0 then
        (case map_of (in_Ports i) (itoa containerPort @ ''/tcp'') of
           Some (b # _) \<Rightarrow> show_binding b | _ \<Rightarrow> [])
      else (case filter (\<lambda>(_, bs). bs \<noteq> []) (in_Ports i) of
           (_, bs) # _ \<Rightarrow> show_binding (hd bs) | [] \<Rightarrow> []))"

definition toInfo :: "'w host \<Rightarrow> inspection \<Rightarrow> goint \<Rightarrow> Info" where
  "toInfo h i containerPort =
     (let startedAt = parseTimeNano h (in_StartedAt i) in
      \<lparr>ci_ID = in_ID i, ci_Name = trimPrefix (in_Name i) ''/'', ci_Image = in_Image i, ci_Status = in_Status i,
       ci_IPPort = ipPort i containerPort, ci_StartedAt = startedAt,
       ci_DeployedAt = (case map_of (in_Labels i) ''dewy.deployed_at'' of
            None \<Rightarrow> startedAt
          | Some v \<Rightarrow> (case h_parseTime h ''2006-01-02T15:04:05Z07:00'' v of Some t \<Rightarrow> t | None \<Rightarrow> startedAt)),
       ci_Labels = in_Labels i\<rparr>)"

definition GetContainerInfo :: "'w host \<Rightarrow> string \<Rightarrow> goint \<Rightarrow> 'w Runtime \<Rightarrow> 'w Runtime \<times> (string + Info)" where
  "GetContainerInfo h containerID containerPort r =
     (case execCommandOutput h [''inspect'', containerID] r of
        (r, Inl err) \<Rightarrow> (r, Inl (''failed to inspect container: '' @ err))
      | (r, Inr output) \<Rightarrow> (r, case h_jsonContainers h output of
            Inl err \<Rightarrow> Inl (''failed to parse inspect output: '' @ err)
          | Inr [] \<Rightarrow> Inl ''container not found''
          | Inr (i # _) \<Rightarrow> Inr (toInfo h i containerPort)))"

fun containerInfos :: "'w host \<Rightarrow> goint \<Rightarrow> string list \<Rightarrow> 'w Runtime \<Rightarrow> 'w Runtime \<times> Info list" where
  "containerInfos h containerPort [] r = (r, [])"
| "containerInfos h containerPort (c # cs) r =
     (case GetContainerInfo h c containerPort r of (r, res) \<Rightarrow>
        (case containerInfos h containerPort cs r of (r, infos) \<Rightarrow>
           (r, case res of Inl _ \<Rightarrow> infos | Inr i \<Rightarrow> i # infos)))"

definition ListContainersByLabels :: "'w host \<Rightarrow> (string \<times> string) list \<Rightarrow> goint \<Rightarrow> 'w Runtime \<Rightarrow> 'w Runtime \<times> (string + Info list)" where
  "ListContainersByLabels h labels containerPort r =
     (case FindContainersByLabel h labels r of
        (r, Inl err) \<Rightarrow> (r, Inl (''failed to find containers: '' @ err))
      | (r, Inr ids) \<Rightarrow> (case containerInfos h containerPort ids r of (r, infos) \<Rightarrow> (r, Inr infos)))"

section \<open>Health checks (healthcheck.go)\<close>

text \<open>
  A probe asks the world once. The bound of retries is a natural number: the loop of the code
  runs that often (not at all for a negative bound).
\<close>

datatype http_probe = BadRequest string | TransportError string | StatusCode goint

fun checkHTTP_loop :: "('w \<Rightarrow> 'w \<times> http_probe) \<Rightarrow> nat \<Rightarrow> nat \<Rightarrow> 'w \<Rightarrow> 'w \<times> string option" where
  "checkHTTP_loop probe retries 0 w =
     (w, Some (''health check failed: unhealthy status after '' @ itoa (int retries) @ '' attempts''))"
| "checkHTTP_loop probe retries (Suc left) w =
     (case probe w of
        (w, BadRequest err) \<Rightarrow> (w, Some err)
      | (w, TransportError err) \<Rightarrow> if left > 0 then checkHTTP_loop probe retries left w
           else (w, Some (''health check failed after '' @ itoa (int retries) @ '' attempts: '' @ err))
      | (w, StatusCode status) \<Rightarrow> if 200 \<le> status \<and> status < 300 then (w, None)
           else checkHTTP_loop probe retries left w)"

definition CheckHTTP :: "('w \<Rightarrow> 'w \<times> http_probe) \<Rightarrow> nat \<Rightarrow> 'w \<Rightarrow> 'w \<times> string option" where
  "CheckHTTP probe retries w = checkHTTP_loop probe retries retries w"

fun checkTCP_loop :: "('w \<Rightarrow> 'w \<times> string option) \<Rightarrow> nat \<Rightarrow> nat \<Rightarrow> 'w \<Rightarrow> 'w \<times> string option" where
  "checkTCP_loop dial retries 0 w =
     (w, Some (''TCP health check failed after '' @ itoa (int retries) @ '' attempts''))"
| "checkTCP_loop dial retries (Suc left) w =
     (case dial w of
        (w, None) \<Rightarrow> (w, None)
      | (w, Some err) \<Rightarrow> if left > 0 then checkTCP_loop dial retries left w
           else (w, Some (''TCP health check failed after '' @ itoa (int retries) @ '' attempts: '' @ err)))"

definition CheckTCP :: "('w \<Rightarrow> 'w \<times> string option) \<Rightarrow> nat \<Rightarrow> 'w \<Rightarrow> 'w \<times> string option" where
  "CheckTCP dial retries w = checkTCP_loop dial retries retries w"

text \<open>The delay is slept between attempts. get and dial take the timeout of an attempt.\<close>

record HealthChecker =
  hc_timeout :: duration
  hc_retries :: nat
  hc_delay :: duration

definition NewHealthChecker :: "duration \<Rightarrow> nat \<Rightarrow> HealthChecker" where
  "NewHealthChecker timeout retries = \<lparr>hc_timeout = timeout, hc_retries = retries, hc_delay = seconds 2\<rparr>"

definition WaitForHTTP :: "(duration \<Rightarrow> string \<Rightarrow> 'w \<Rightarrow> 'w \<times> http_probe) \<Rightarrow> string \<Rightarrow> duration \<Rightarrow> nat \<Rightarrow> string \<Rightarrow> 'w \<Rightarrow> 'w \<times> string option" where
  "WaitForHTTP get url timeout retries containerID =
     (let h = NewHealthChecker timeout retries in CheckHTTP (get (hc_timeout h) url) (hc_retries h))"

definition WaitForTCP :: "(duration \<Rightarrow> string \<Rightarrow> 'w \<Rightarrow> 'w \<times> string option) \<Rightarrow> string \<Rightarrow> goint \<Rightarrow> duration \<Rightarrow> nat \<Rightarrow> string \<Rightarrow> 'w \<Rightarrow> 'w \<times> string option" where
  "WaitForTCP dial host port timeout retries containerID =
     (let h = NewHealthChecker timeout retries in CheckTCP (dial (hc_timeout h) (host @ '':'' @ itoa port)) (hc_retries h))"

section \<open>Lemmas on the extra arguments\<close>

text \<open>
  The arguments an operator must not pass, stated on the command line itself: a long option
  of the deny list with or without a value, a short flag led by d, i, t or p, or a label in
  the namespace dewy.
\<close>

definition dangerous_arg :: "string list \<Rightarrow> nat \<Rightarrow> bool" where
  "dangerous_arg args i =
     ((\<exists>f\<in>set forbiddenLongOptions. args ! i = f \<or> hasPrefix (args ! i) (f @ ''='')) \<or>
      (\<exists>c\<in>{CHR ''d'', CHR ''i'', CHR ''t'', CHR ''p''}. hasPrefix (args ! i) [CHR ''-'', c]) \<or>
      (args ! i \<in> {''--label'', ''-l''} \<and> i + 1 < length args \<and> hasPrefix (args ! (i + 1)) ''dewy.'') \<or>
      (\<exists>flag\<in>{''--label='', ''-l='', ''-l''}. hasPrefix (args ! i) (flag @ ''dewy.'')))"

lemma find_None_set: "List.find P xs = None \<longleftrightarrow> (\<forall>x\<in>set xs. \<not> P x)"
  by (auto simp: find_None_iff)

lemma matchForbiddenShortFlag_None:
  "matchForbiddenShortFlag arg = None \<longleftrightarrow>
     \<not> (\<exists>c\<in>{CHR ''d'', CHR ''i'', CHR ''t'', CHR ''p''}. hasPrefix arg [CHR ''-'', c])"
proof (cases arg)
  case (Cons a as)
  then show ?thesis
    by (cases as) (auto simp: matchForbiddenShortFlag_def find_None_set forbiddenShortFlagChars_def)
qed (simp add: matchForbiddenShortFlag_def hasPrefix_def)

lemma label_prefix_cases:
  "hasPrefix arg (flag @ p) \<longleftrightarrow> hasPrefix arg flag \<and> hasPrefix (drop (length flag) arg) p"
  by (auto simp: hasPrefix_iff)

lemma reserved_label_iff:
  "(case extractLabelValue args i of Some v \<Rightarrow> hasPrefix v reservedLabelPrefix | None \<Rightarrow> False) \<longleftrightarrow>
     (args ! i \<in> {''--label'', ''-l''} \<and> i + 1 < length args \<and> hasPrefix (args ! (i + 1)) ''dewy.'') \<or>
     (\<exists>flag\<in>{''--label='', ''-l='', ''-l''}. hasPrefix (args ! i) (flag @ ''dewy.''))"
proof -
  have 1: "hasPrefix (args ! i) ''-l=dewy.'' \<longleftrightarrow> hasPrefix (args ! i) ''-l='' \<and> hasPrefix (drop 3 (args ! i)) ''dewy.''"
    using label_prefix_cases [of "args ! i" "''-l=''" "''dewy.''"] by (simp add: eval_nat_numeral)
  have 2: "hasPrefix (args ! i) ''--label=dewy.'' \<longleftrightarrow> hasPrefix (args ! i) ''--label='' \<and> hasPrefix (drop 8 (args ! i)) ''dewy.''"
    using label_prefix_cases [of "args ! i" "''--label=''" "''dewy.''"] by (simp add: eval_nat_numeral)
  have 3: "hasPrefix (args ! i) ''-ldewy.'' \<longleftrightarrow> hasPrefix (args ! i) ''-l'' \<and> hasPrefix (drop 2 (args ! i)) ''dewy.''"
    using label_prefix_cases [of "args ! i" "''-l''" "''dewy.''"] by (simp add: eval_nat_numeral)
  show ?thesis
    unfolding extractLabelValue_def Let_def reservedLabelPrefix_def
    by (auto simp: 1 2 3) (auto simp: hasPrefix_iff)
qed

lemma checkExtraArg_iff: "checkExtraArg args i \<noteq> None \<longleftrightarrow> dangerous_arg args i"
  using reserved_label_iff [of args i] matchForbiddenShortFlag_None [of "args ! i"]
    find_None_set [of "\<lambda>f. args ! i = f \<or> hasPrefix (args ! i) (f @ ''='')" forbiddenLongOptions]
  unfolding checkExtraArg_def dangerous_arg_def Let_def
  by (auto split: option.splits)

lemma validateExtraArgs_iff: "validateExtraArgs args \<noteq> None \<longleftrightarrow> (\<exists>i<length args. dangerous_arg args i)"
proof (cases "filter (\<lambda>i. checkExtraArg args i \<noteq> None) [0 ..< length args]")
  case Nil
  then have "\<forall>i<length args. \<not> dangerous_arg args i"
    by (simp only: filter_empty_conv checkExtraArg_iff [symmetric]) simp
  with Nil show ?thesis by (simp only: validateExtraArgs_def) simp
next
  case (Cons i rest)
  then have "i \<in> set (filter (\<lambda>i. checkExtraArg args i \<noteq> None) [0 ..< length args])" by simp
  then have "i < length args" "checkExtraArg args i \<noteq> None" by auto
  with Cons show ?thesis using checkExtraArg_iff [of args i]
    by (simp only: validateExtraArgs_def) auto
qed

lemma extractName_subseq: "extractName name args = (n, f) \<Longrightarrow> subseq f args"
  by (induction name args arbitrary: n f rule: extractName.induct)
    (auto split: if_splits prod.splits intro: subseq_Cons')

lemma extractName_no_name:
  "extractName name args = (n, f) \<Longrightarrow> \<forall>a\<in>set f. \<not> hasPrefix a ''--name='' \<and> (a = ''--name'' \<longrightarrow> a = last f)"
proof (induction name args arbitrary: n f rule: extractName.induct)
  case (2 name arg)
  then show ?case by (cases "hasPrefix arg ''--name=''") force+
next
  case (3 name arg val args)
  show ?case
  proof (cases "arg = ''--name'' \<or> hasPrefix arg ''--name=''")
    case False
    obtain f' where e: "extractName name (val # args) = (n, f')" and f: "f = arg # f'"
      using 3(4) False by (cases "extractName name (val # args)") auto
    have "\<forall>a\<in>set f'. \<not> hasPrefix a ''--name='' \<and> (a = ''--name'' \<longrightarrow> a = last f')"
      using 3(3) [OF _ _ e] False by blast
    with f False show ?thesis by auto
  next
    case True
    then show ?thesis using 3(1) [of n f] 3(2) [of n f] 3(4) by (cases "arg = ''--name''") simp_all
  qed
qed simp

section \<open>Lemmas on image references\<close>

lemma imageRepositoryFromRef_strip: "imageRepositoryFromRef ref = stripTag (stripDigest ref)"
  by (cases "lastIndexC (CHR ''/'') (stripDigest ref)"; cases "lastIndexC (CHR '':'') (stripDigest ref)")
    (simp_all add: imageRepositoryFromRef_def stripTag_def Let_def del: lastIndexC_None)

lemma stripDigest_none [simp]: "CHR ''@'' \<notin> set ref \<Longrightarrow> stripDigest ref = ref"
  by (cases "strIndex ref ''@''") (simp_all add: stripDigest_def del: strIndex_char_None flip: strIndex_char_None)

lemma stripDigest_digest [simp]: "CHR ''@'' \<notin> set ref \<Longrightarrow> stripDigest (ref @ CHR ''@'' # digest) = ref"
  by (simp add: stripDigest_def strIndex_charI)

lemma lastIndexC_after:
  assumes "c \<noteq> d" "d \<notin> set t"
  shows "lastIndexC d (s @ c # t) = lastIndexC d s"
  using lastIndexC_append_notin [of d "c # t" s] assms by auto

lemma stripTag_tag:
  assumes "CHR '':'' \<notin> set tag" "CHR ''/'' \<notin> set tag"
  shows "stripTag (repo @ CHR '':'' # tag) = repo"
proof -
  have "lastIndexC (CHR '':'') (repo @ CHR '':'' # tag) = Some (length repo)" using assms by simp
  moreover have "lastIndexC (CHR ''/'') (repo @ CHR '':'' # tag) = lastIndexC (CHR ''/'') repo"
    using assms by (simp add: lastIndexC_after)
  ultimately show ?thesis
    by (auto simp: stripTag_def split: option.splits dest: lastIndexC_Some)
qed

text \<open>A name without tag: no colon after its last slash.\<close>

definition untagged :: "string \<Rightarrow> bool" where
  "untagged repo = (CHR '':'' \<notin> set (last (splitC (CHR ''/'') repo)))"

lemma last_split: "last (splitC c s) = (case lastIndexC c s of None \<Rightarrow> s | Some i \<Rightarrow> drop (Suc i) s)"
proof (induction s)
  case (Cons x xs)
  obtain y ys where y: "splitC c xs = y # ys" by (cases "splitC c xs") auto
  show ?case
  proof (cases "lastIndexC c xs")
    case None
    then have "splitC c xs = [xs]" by simp
    with None show ?thesis by (simp del: lastIndexC_None)
  next
    case (Some i)
    then have "ys \<noteq> []" using y Cons.IH lastIndexC_Some [OF Some] splitC_parts [of y c xs]
      by (metis joinS.simps(2) joinS_splitC list.set_intros(1) nth_mem)
    with Some y Cons.IH show ?thesis by simp
  qed
qed simp

lemma stripTag_untagged: "untagged repo \<Longrightarrow> stripTag repo = repo"
proof -
  assume u: "untagged repo"
  show ?thesis
  proof (cases "lastIndexC (CHR '':'') repo")
    case (Some i)
    note i = lastIndexC_Some [OF Some]
    then show ?thesis
    proof (cases "lastIndexC (CHR ''/'') repo")
      case None
      with u Some i show ?thesis by (auto simp: untagged_def last_split dest: nth_mem)
    next
      case s: (Some j)
      have "\<not> j < i"
      proof
        assume "j < i"
        then have "drop (Suc j) repo ! (i - Suc j) = CHR '':''" "i - Suc j < length (drop (Suc j) repo)"
          using i by auto
        then have "CHR '':'' \<in> set (drop (Suc j) repo)" by (metis nth_mem)
        with u s show False by (simp add: untagged_def last_split)
      qed
      with Some s show ?thesis by (simp add: stripTag_def)
    qed
  qed (simp add: stripTag_def del: lastIndexC_None)
qed

section \<open>Lemmas on commands\<close>

lemma execCommandOutput_log:
  "execCommandOutput h args r = (r', res) \<Longrightarrow> rt_log r' = rt_log r @ [Exec args res] \<and> rt_cmd r' = rt_cmd r"
  by (auto simp: execCommandOutput_def log_event_def Let_def split: prod.splits)

lemma execCommand_log:
  "execCommand h args r = (r', err) \<Longrightarrow> \<exists>res. rt_log r' = rt_log r @ [Exec args res] \<and> err = err_of res"
  by (auto simp: execCommand_def dest: execCommandOutput_log split: prod.splits)

lemma execCombined_log:
  "execCombined h args stdin r = (r', out, err) \<Longrightarrow>
   rt_log r' = rt_log r @ [Exec args (case err of None \<Rightarrow> Inr out | Some e \<Rightarrow> Inl e)]"
  by (auto simp: execCombined_def log_event_def split: prod.splits)

definition commands :: "event list \<Rightarrow> string list list" where
  "commands es = List.map_filter (\<lambda>e. case e of Exec args _ \<Rightarrow> Some args | _ \<Rightarrow> None) es"

lemma commands_simps [simp]:
  "commands [] = []" "commands (Exec args res # es) = args # commands es" "commands (xs @ ys) = commands xs @ commands ys"
  "commands (AddedBackend a b c d # es) = commands es" "commands (RemovedBackend a b c d # es) = commands es"
  by (simp_all add: commands_def List.map_filter_def)

lemma removeImages_commands:
  "commands (rt_log (removeImages h imgs r)) = commands (rt_log r) @ map (\<lambda>i. [''rmi'', ''--force'', im_ID i]) imgs"
proof (induction imgs arbitrary: r)
  case (Cons i imgs)
  obtain r' e where "execCommand h [''rmi'', ''--force'', im_ID i] r = (r', e)" by force
  with Cons execCommand_log [OF this] show ?case by (auto simp: RemoveImage_def split: option.splits)
qed simp

lemma newestFirst_split:
  assumes "x \<in> set (drop n (newestFirst images))" "k \<in> set (take n (newestFirst images))"
  shows "im_Created x \<le> im_Created k"
proof -
  let ?xs = "newestFirst images"
  have "sorted (map (\<lambda>i. - im_Created i) ?xs)" by (simp add: newestFirst_def)
  then have "sorted (map (\<lambda>i. - im_Created i) (take n ?xs) @ map (\<lambda>i. - im_Created i) (drop n ?xs))"
    by (metis append_take_drop_id map_append)
  then show ?thesis using assms by (fastforce simp: sorted_append)
qed

text \<open>The results of the pull commands for ref, in order.\<close>

definition pulls :: "string \<Rightarrow> event list \<Rightarrow> (string + string) list" where
  "pulls ref es = List.map_filter (\<lambda>e. case e of Exec args res \<Rightarrow> if args = [''pull'', ref] then Some res else None | _ \<Rightarrow> None) es"

lemma pulls_simps [simp]:
  "pulls ref [] = []" "pulls ref (xs @ ys) = pulls ref xs @ pulls ref ys"
  "pulls ref (Exec args res # es) = (if args = [''pull'', ref] then [res] else []) @ pulls ref es"
  by (simp_all add: pulls_def List.map_filter_def)

lemma pullImage_log:
  "pullImage h ref r = (r', out, err) \<Longrightarrow> \<exists>res. rt_log r' = rt_log r @ [Exec [''pull'', ref] res] \<and> (err = None \<longleftrightarrow> \<not> isl res)"
  by (auto simp: pullImage_def dest!: execCombined_log split: prod.splits option.splits)

lemma Login_log: "\<exists>l. rt_log (fst (Login h registry r)) = rt_log r @ l \<and> length l \<le> 1 \<and> pulls ref l = []"
  by (auto simp: Login_def dest!: execCombined_log split: prod.splits option.splits)

lemma loginIfNeeded_log: "\<exists>l. rt_log (loginIfNeeded h registry r) = rt_log r @ l \<and> length l \<le> 1 \<and> pulls ref l = []"
  using Login_log [of h registry r ref] by (simp add: loginIfNeeded_def)

lemma retryPull_log:
  "\<exists>rest. rt_log (fst (retryPull h registry ref e r)) = rt_log r @ rest \<and> length rest \<le> 2 \<and> length (pulls ref rest) \<le> 1 \<and>
     (snd (retryPull h registry ref e r) = None \<longleftrightarrow> (\<exists>p\<in>set (pulls ref rest). \<not> isl p))"
proof -
  let ?r = "r\<lparr>rt_loggedInRegistries := (rt_loggedInRegistries r)(registry := False)\<rparr>"
  obtain r1 le where 1: "Login h registry ?r = (r1, le)" by force
  obtain l where l: "rt_log r1 = rt_log r @ l" "length l \<le> 1" "pulls ref l = []"
    using Login_log [of h registry ?r ref] 1 by auto
  obtain r2 out pe where 2: "pullImage h ref r1 = (r2, out, pe)" by (metis prod_cases3)
  show ?thesis
    using pullImage_log [OF 2] 1 2 l by (cases le) (auto simp: retryPull_def)
qed

text \<open>The k-th probe of a health check.\<close>

definition nth_probe :: "('w \<Rightarrow> 'w \<times> http_probe) \<Rightarrow> nat \<Rightarrow> 'w \<Rightarrow> http_probe" where
  "nth_probe probe k w = snd (probe (((fst \<circ> probe) ^^ k) w))"

lemma nth_probe_simps [simp]:
  "nth_probe probe 0 w = snd (probe w)" "nth_probe probe (Suc k) w = nth_probe probe k (fst (probe w))"
  by (simp_all add: nth_probe_def funpow_swap1)

definition healthy :: "http_probe \<Rightarrow> bool" where
  "healthy p = (\<exists>s. p = StatusCode s \<and> 200 \<le> s \<and> s < 300)"

lemma checkHTTP_loop_iff:
  "snd (checkHTTP_loop probe retries n w) = None \<longleftrightarrow>
     (\<exists>k<n. healthy (nth_probe probe k w) \<and> (\<forall>j<k. \<forall>e. nth_probe probe j w \<noteq> BadRequest e))"
proof (induction n arbitrary: w)
  case (Suc n)
  obtain w' p where p: "probe w = (w', p)" by force
  have ex: "(\<exists>k<Suc n. P k) \<longleftrightarrow> P 0 \<or> (\<exists>k<n. P (Suc k))" for P using less_Suc_eq_0_disj by auto
  have all: "(\<forall>j<Suc k. Q j) \<longleftrightarrow> Q 0 \<and> (\<forall>j<k. Q (Suc j))" for k and Q :: "nat \<Rightarrow> bool" using less_Suc_eq_0_disj by auto
  show ?case using Suc [of w'] p
    by (cases p) (auto simp: ex all healthy_def)
qed simp

section \<open>Properties\<close>

text \<open>A host whose commands all succeed with the output ok, for concrete runs.\<close>

definition calm_host :: "unit host" where
  "calm_host = \<lparr>h_output = (\<lambda>w cmd args. (w, Inr ''ok'')), h_combined = (\<lambda>w cmd args stdin. (w, ''denied'', Some ''exit status 1'')),
     h_lookPath = (\<lambda>_. None), h_unixNow = (\<lambda>_. 17), h_rfc3339Now = (\<lambda>_. ''1970-01-01T00:00:17Z''),
     h_uid = 10, h_gid = 10, h_getenv = (\<lambda>_. []), h_rangeLabels = (\<lambda>w ls. (w, rev ls)),
     h_rangePorts = (\<lambda>w ps. (w, rev ps)), h_parseTime = (\<lambda>layout s. atoi_opt s),
     h_jsonImages = (\<lambda>_. Inr []), h_jsonContainers = (\<lambda>_. Inr [])\<rparr>"

definition docker :: "unit Runtime" where
  "docker = \<lparr>rt_cmd = ''docker'', rt_drainTime = 0, rt_loggedInRegistries = (\<lambda>_. False), rt_world = (), rt_log = []\<rparr>"


definition run_web :: "string list \<Rightarrow> RunOptions" where
  "run_web extra = \<lparr>ro_Image = ''web:1'', ro_AppName = ''web'', ro_ReplicaIndex = 0, ro_Labels = [(''dewy.managed'', ''true'')],
     ro_Ports = [''127.0.0.1::80''], ro_Detach = True, ro_Command = [], ro_ExtraArgs = extra\<rparr>"


text \<open>
  The repository of an image reference is what precedes its tag and digest: for a
  name with no colon after its last slash (a registry port is not a tag), adding a tag, a
  digest or both leaves the repository the cleanup works on unchanged.
\<close>

theorem imageRepositoryFromRef_roundtrip:
  assumes "untagged repo" and "CHR ''@'' \<notin> set repo" and "set tag \<inter> {CHR '':'', CHR ''/'', CHR ''@''} = {}"
  shows "imageRepositoryFromRef repo = repo \<and> imageRepositoryFromRef (repo @ '':'' @ tag) = repo \<and>
    imageRepositoryFromRef (repo @ ''@'' @ digest) = repo \<and> imageRepositoryFromRef (repo @ '':'' @ tag @ ''@'' @ digest) = repo"
proof -
  have t: "stripTag (repo @ CHR '':'' # tag) = repo" "CHR ''@'' \<notin> set (repo @ CHR '':'' # tag)"
    using assms by (auto intro: stripTag_tag)
  have "imageRepositoryFromRef (repo @ '':'' @ tag @ ''@'' @ digest) = repo"
    using stripDigest_digest [OF t(2), of digest] t(1) by (simp add: imageRepositoryFromRef_strip)
  with t assms show ?thesis by (simp add: imageRepositoryFromRef_strip stripTag_untagged)
qed

theorem imageRepositoryFromRef_roundtrip_witness:
  "imageRepositoryFromRef ''localhost:5000/team/web:v1.2.3'' = ''localhost:5000/team/web''"
proof -
  have "untagged ''localhost:5000/team/web''" by code_simp
  from imageRepositoryFromRef_roundtrip [OF this, of "''v1.2.3''" "[]"] show ?thesis by simp
qed


definition images_host :: "unit host" where
  "images_host = calm_host\<lparr>h_output := (\<lambda>w cmd args. (w, Inr (if hd args = ''images''
     then ''aa|web|v1|100|9MB'' @ [CHR 0x0A] @ ''bb|web|v2|200|9MB'' @ [CHR 0x0A] @ ''bb|web|latest|200|9MB'' else [])))\<rparr>"


text \<open>
  A pull is retried at most once: after the look for a local copy there are one or
  two pull commands and at most two logins, and Pull reports success exactly when the image
  was already there or one of its pull commands succeeded.
\<close>

theorem Pull_bounded:
  assumes "Pull h ref r = (r', err)"
  shows "\<exists>local rest. rt_log r' = rt_log r @ Exec [''image'', ''inspect'', ref] local # rest \<and>
    length (pulls ref rest) \<in> {1, 2} \<and> length rest \<le> 4 \<and>
    (err = None \<longleftrightarrow> \<not> isl local \<or> (\<exists>p\<in>set (pulls ref rest). \<not> isl p))"
proof -
  obtain r1 o1 e1 where 1: "execCombined h [''image'', ''inspect'', ref] [] r = (r1, o1, e1)" by (metis prod_cases3)
  let ?reg = "extractRegistry ref" and ?r2 = "loginIfNeeded h (extractRegistry ref) r1"
  let ?local = "case e1 of None \<Rightarrow> Inr o1 | Some e \<Rightarrow> Inl e"
  obtain l2 where l2: "rt_log ?r2 = rt_log r1 @ l2" "length l2 \<le> 1" "pulls ref l2 = []"
    using loginIfNeeded_log by blast
  obtain r3 o3 e3 where 3: "pullImage h ref ?r2 = (r3, o3, e3)" by (metis prod_cases3)
  obtain p3 where p3: "rt_log r3 = rt_log ?r2 @ [Exec [''pull'', ref] p3]" "e3 = None \<longleftrightarrow> \<not> isl p3"
    using pullImage_log [OF 3] by blast
  have log: "rt_log r1 = rt_log r @ [Exec [''image'', ''inspect'', ref] ?local]" using execCombined_log [OF 1] .
  have loc: "isl ?local \<longleftrightarrow> e1 \<noteq> None" by (cases e1) auto
  show ?thesis
  proof (cases "e3 \<noteq> None \<and> isAuthError o3")
    case True
    then obtain e where e: "e3 = Some e" by auto
    obtain rest where rest: "rt_log (fst (retryPull h ?reg ref e r3)) = rt_log r3 @ rest" "length rest \<le> 2"
        "length (pulls ref rest) \<le> 1" "snd (retryPull h ?reg ref e r3) = None \<longleftrightarrow> (\<exists>p\<in>set (pulls ref rest). \<not> isl p)"
      using retryPull_log [of h ?reg ref e r3] by metis
    have r': "r' = fst (retryPull h ?reg ref e r3)" "err = None \<longleftrightarrow> e1 = None \<or> snd (retryPull h ?reg ref e r3) = None"
      using assms 1 3 e True by (auto simp: Pull_def Let_def split: if_splits prod.splits)
    have "length (pulls ref (l2 @ Exec [''pull'', ref] p3 # rest)) \<in> {1, 2}"
      using l2(3) rest(3) by (cases "pulls ref rest") auto
    moreover have "rt_log r' = rt_log r @ Exec [''image'', ''inspect'', ref] ?local # l2 @ Exec [''pull'', ref] p3 # rest"
      using r'(1) rest(1) p3(1) l2(1) log by simp
    moreover have "err = None \<longleftrightarrow> \<not> isl ?local \<or> (\<exists>p\<in>set (pulls ref (l2 @ Exec [''pull'', ref] p3 # rest)). \<not> isl p)"
      using r'(2) rest(4) loc l2(3) p3(2) e by auto
    ultimately show ?thesis using l2(2) rest(2) by (intro exI [of _ ?local] exI [of _ "l2 @ Exec [''pull'', ref] p3 # rest"]) simp
  next
    case False
    then have r': "r' = r3" "err = None \<longleftrightarrow> e1 = None \<or> e3 = None"
      using assms 1 3 by (auto simp: Pull_def Let_def split: if_splits prod.splits option.splits)
    have "rt_log r' = rt_log r @ Exec [''image'', ''inspect'', ref] ?local # l2 @ [Exec [''pull'', ref] p3]"
      using r' p3(1) l2(1) log by simp
    then show ?thesis using l2 p3(2) loc r'(2)
      by (intro exI [of _ ?local] exI [of _ "l2 @ [Exec [''pull'', ref] p3]"]) auto
  qed
qed

theorem Pull_bounded_witness:
  "\<exists>r' e local rest. Pull calm_host ''ghcr.io/a/b:v1'' docker = (r', Some e) \<and>
     rt_log r' = Exec [''image'', ''inspect'', ''ghcr.io/a/b:v1''] local # rest \<and> isl local \<and>
     (\<forall>p\<in>set (pulls ''ghcr.io/a/b:v1'' rest). isl p)"
proof -
  obtain r' err where p: "Pull calm_host ''ghcr.io/a/b:v1'' docker = (r', err)" by force
  have "snd (Pull calm_host ''ghcr.io/a/b:v1'' docker) \<noteq> None" by code_simp
  with p obtain e where "err = Some e" by auto
  with Pull_bounded [OF p] p show ?thesis by (auto simp: docker_def)
qed

text \<open>
  The HTTP health check passes exactly when one of the first retries probes gets a
  status from 200 to 299 and no earlier probe had an unusable request.
\<close>

lemma CheckHTTP_healthy:
  "snd (CheckHTTP probe retries w) = None \<longleftrightarrow>
     (\<exists>k<retries. healthy (nth_probe probe k w) \<and> (\<forall>j<k. \<forall>e. nth_probe probe j w \<noteq> BadRequest e))"
  by (simp add: CheckHTTP_def checkHTTP_loop_iff)

text \<open>
  A listing may name one image several times, once per tag, and images are removed by their
  identifier: when the limit separates two tags of one image the forced removal hits the
  image that was to be kept.
\<close>

theorem CleanupOldImages_shared_id:
  "map im_ID (take 1 (newestFirst (projr (snd (ListImages images_host ''web'' docker))))) = [''bb''] \<and>
   [''rmi'', ''--force'', ''bb''] \<in> set (commands (rt_log (fst (CleanupOldImages images_host ''web:v2'' 1 docker))))"
  by code_simp

end
