(* ===== verification/Container_Deploy.thy ===== *)
theory Container_Deploy
  imports Proxy Container_Runtime
begin

text \<open>
  The rolling deployment: container/deploy.go, and the part of dewy that drives it,
  container_deploy.go. The state is the runtime (with its log) and the state of the backend
  updater; the log also records the backend changes, so the order of commands and backend
  changes is visible. The lemmas on the backends are proved once, inside the locale
  \<open>backend_updater\<close>, and used for the proxy of dewy through its interpretation.
\<close>

section \<open>Deployment (deploy.go)\<close>

record PortMapping =
  ProxyPort :: goint
  ContainerPort :: goint

record DeployResult =
  dr_ContainerID :: string
  dr_MappedPorts :: "(goint \<times> goint) list"
  dr_ReplicaIndex :: goint

record 'w RollingDeployOptions =
  do_ImageRef :: string
  do_AppName :: string
  do_Version :: string
  do_Replicas :: goint
  do_PortMappings :: "PortMapping list"
  do_Command :: "string list"
  do_ExtraArgs :: "string list"
  do_HealthCheck :: "(string \<Rightarrow> 'w Runtime \<Rightarrow> 'w Runtime \<times> string option) option"

record 'u BackendUpdater =
  AddBackend :: "string \<Rightarrow> goint \<Rightarrow> goint \<Rightarrow> 'u \<Rightarrow> 'u \<times> string option"
  RemoveBackend :: "string \<Rightarrow> goint \<Rightarrow> goint \<Rightarrow> 'u \<Rightarrow> 'u \<times> string option"

definition noopBackendUpdater :: "'u BackendUpdater" where
  "noopBackendUpdater = \<lparr>AddBackend = (\<lambda>_ _ _ u. (u, None)), RemoveBackend = (\<lambda>_ _ _ u. (u, None))\<rparr>"

type_synonym ('w, 'u) deploy_state = "'w Runtime \<times> 'u"

definition defaultStopTimeoutOld :: int where "defaultStopTimeoutOld = 10"

definition defaultStopTimeoutFailed :: int where "defaultStopTimeoutFailed = 5"

text \<open>An error wrapped with the verb w, for an error that may be nil.\<close>

definition wrapNil :: "string \<Rightarrow> string option \<Rightarrow> string" where
  "wrapNil msg e = msg @ '': '' @ (case e of Some t \<Rightarrow> t | None \<Rightarrow> ''%!w(<nil>)'')"

subsection \<open>Starting one replica\<close>

fun uniqueContainerPorts :: "goint list \<Rightarrow> PortMapping list \<Rightarrow> goint list" where
  "uniqueContainerPorts seen [] = []"
| "uniqueContainerPorts seen (m # ms) =
     (if ContainerPort m \<in> set seen then uniqueContainerPorts seen ms
      else ContainerPort m # uniqueContainerPorts (ContainerPort m # seen) ms)"

definition replicaLabels :: "'w RollingDeployOptions \<Rightarrow> string \<Rightarrow> goint \<Rightarrow> (string \<times> string) list" where
  "replicaLabels opts now replicaIndex =
     [(''dewy.managed'', ''true''), (''dewy.app'', do_AppName opts), (''dewy.deployed_at'', now),
      (''dewy.replica'', itoa replicaIndex), (''dewy.version'', do_Version opts)]"

definition replicaRunOptions :: "'w RollingDeployOptions \<Rightarrow> string \<Rightarrow> goint \<Rightarrow> RunOptions" where
  "replicaRunOptions opts now replicaIndex =
     \<lparr>ro_Image = do_ImageRef opts, ro_AppName = do_AppName opts, ro_ReplicaIndex = replicaIndex,
      ro_Labels = replicaLabels opts now replicaIndex,
      ro_Ports = map (\<lambda>p. ''127.0.0.1::'' @ itoa p) (uniqueContainerPorts [] (do_PortMappings opts)),
      ro_Detach = True, ro_Command = do_Command opts, ro_ExtraArgs = do_ExtraArgs opts\<rparr>"

text \<open>cache is containerPortToMapped, mapped is mappedPorts of the code.\<close>

fun mapPorts :: "'w host \<Rightarrow> string \<Rightarrow> PortMapping list \<Rightarrow> (goint \<times> goint) list \<Rightarrow> (goint \<times> goint) list \<Rightarrow>
    'w Runtime \<Rightarrow> 'w Runtime \<times> (string + (goint \<times> goint) list)" where
  "mapPorts h containerID [] cache mapped r = (r, Inr mapped)"
| "mapPorts h containerID (m # ms) cache mapped r =
     (case map_of cache (ContainerPort m) of
        Some p \<Rightarrow> mapPorts h containerID ms cache (AList.update (ProxyPort m) p mapped) r
      | None \<Rightarrow> (case GetMappedPort h containerID (ContainerPort m) r of
          (r, Inl err) \<Rightarrow> (case Remove h containerID r of (r, rErr) \<Rightarrow>
             (r, Inl (''failed to get mapped port for container port '' @ itoa (ContainerPort m) @ '': '' @ err @
                [CHR 0x0A] @ wrapNil ''runtime remove failed'' rErr)))
        | (r, Inr p) \<Rightarrow> mapPorts h containerID ms (AList.update (ContainerPort m) p cache)
             (AList.update (ProxyPort m) p mapped) r))"

definition startAndCheck :: "'w host \<Rightarrow> 'w RollingDeployOptions \<Rightarrow> goint \<Rightarrow> 'w Runtime \<Rightarrow> 'w Runtime \<times> (string + DeployResult)" where
  "startAndCheck h opts replicaIndex r =
     (case Run h (replicaRunOptions opts (h_rfc3339Now h (rt_world r)) replicaIndex) r of
        (r, Inl err) \<Rightarrow> (r, Inl (''failed to start container: '' @ err))
      | (r, Inr containerID) \<Rightarrow> (case mapPorts h containerID (do_PortMappings opts) [] [] r of
          (r, Inl err) \<Rightarrow> (r, Inl err)
        | (r, Inr mappedPorts) \<Rightarrow>
            let result = \<lparr>dr_ContainerID = containerID, dr_MappedPorts = mappedPorts, dr_ReplicaIndex = replicaIndex\<rparr> in
            (case do_HealthCheck opts of
               None \<Rightarrow> (r, Inr result)
             | Some check \<Rightarrow> (case check containerID r of
                 (r, None) \<Rightarrow> (r, Inr result)
               | (r, Some err) \<Rightarrow> (case Stop h containerID defaultStopTimeoutFailed r of (r, sErr) \<Rightarrow>
                   (case Remove h containerID r of (r, rErr) \<Rightarrow>
                     (r, Inl (''health check failed: '' @ err @ [CHR 0x0A] @ wrapNil ''runtime stop failed'' sErr @
                        [CHR 0x0A] @ wrapNil ''runtime remove failed'' rErr))))))))"

subsection \<open>Backends\<close>

definition add_backend :: "'u BackendUpdater \<Rightarrow> goint \<Rightarrow> goint \<Rightarrow> ('w, 'u) deploy_state \<Rightarrow> ('w, 'u) deploy_state \<times> string option" where
  "add_backend up proxyPort mappedPort s =
     (case AddBackend up ''localhost'' mappedPort proxyPort (snd s) of (u, err) \<Rightarrow>
        ((log_event (AddedBackend ''localhost'' mappedPort proxyPort (err = None)) (fst s), u), err))"

definition remove_backend :: "'u BackendUpdater \<Rightarrow> goint \<Rightarrow> goint \<Rightarrow> ('w, 'u) deploy_state \<Rightarrow> ('w, 'u) deploy_state" where
  "remove_backend up proxyPort mappedPort s =
     (case RemoveBackend up ''localhost'' mappedPort proxyPort (snd s) of (u, err) \<Rightarrow>
        (log_event (RemovedBackend ''localhost'' mappedPort proxyPort (err = None)) (fst s), u))"

text \<open>The ports of a result in the order its map is iterated this time.\<close>

definition range_ports :: "'w host \<Rightarrow> (goint \<times> goint) list \<Rightarrow> ('w, 'u) deploy_state \<Rightarrow> ('w, 'u) deploy_state \<times> (goint \<times> goint) list" where
  "range_ports h ports s =
     (case h_rangePorts h (rt_world (fst s)) ports of (w, ps) \<Rightarrow> (((fst s)\<lparr>rt_world := w\<rparr>, snd s), ps))"

fun add_all :: "'u BackendUpdater \<Rightarrow> (goint \<times> goint) list \<Rightarrow> ('w, 'u) deploy_state \<Rightarrow> ('w, 'u) deploy_state \<times> string option" where
  "add_all up [] s = (s, None)"
| "add_all up ((proxyPort, mappedPort) # ps) s =
     (case add_backend up proxyPort mappedPort s of
        (s, Some err) \<Rightarrow> (s, Some err)
      | (s, None) \<Rightarrow> add_all up ps s)"

fun remove_all :: "'u BackendUpdater \<Rightarrow> (goint \<times> goint) list \<Rightarrow> ('w, 'u) deploy_state \<Rightarrow> ('w, 'u) deploy_state" where
  "remove_all up [] s = s"
| "remove_all up ((proxyPort, mappedPort) # ps) s = remove_all up ps (remove_backend up proxyPort mappedPort s)"

fun rollback_backends :: "'w host \<Rightarrow> 'u BackendUpdater \<Rightarrow> DeployResult list \<Rightarrow> ('w, 'u) deploy_state \<Rightarrow> ('w, 'u) deploy_state" where
  "rollback_backends h up [] s = s"
| "rollback_backends h up (res # rest) s =
     (case range_ports h (dr_MappedPorts res) s of (s, ps) \<Rightarrow> rollback_backends h up rest (remove_all up ps s))"

fun rollback_containers :: "'w host \<Rightarrow> DeployResult list \<Rightarrow> 'w Runtime \<Rightarrow> 'w Runtime" where
  "rollback_containers h [] r = r"
| "rollback_containers h (res # rest) r =
     rollback_containers h rest (fst (Remove h (dr_ContainerID res) (fst (Stop h (dr_ContainerID res) defaultStopTimeoutFailed r))))"

definition rollback :: "'w host \<Rightarrow> 'u BackendUpdater \<Rightarrow> DeployResult list \<Rightarrow> ('w, 'u) deploy_state \<Rightarrow> ('w, 'u) deploy_state" where
  "rollback h up results s =
     (let s = rollback_backends h up results s in (rollback_containers h results (fst s), snd s))"

subsection \<open>The rolling update\<close>

fun deployReplicas :: "'w host \<Rightarrow> 'u BackendUpdater \<Rightarrow> 'w RollingDeployOptions \<Rightarrow> nat \<Rightarrow> DeployResult list \<Rightarrow>
    ('w, 'u) deploy_state \<Rightarrow> ('w, 'u) deploy_state \<times> (string + DeployResult list)" where
  "deployReplicas h up opts 0 results s = (s, Inr results)"
| "deployReplicas h up opts (Suc left) results s =
     (case startAndCheck h opts (int (length results)) (fst s) of
        (r, Inl err) \<Rightarrow> (rollback h up results (r, snd s), Inl err)
      | (r, Inr result) \<Rightarrow>
          (case range_ports h (dr_MappedPorts result) (r, snd s) of (s, ps) \<Rightarrow>
             (case add_all up ps s of
                (s, Some err) \<Rightarrow> (rollback h up (results @ [result]) s, Inl err)
              | (s, None) \<Rightarrow> deployReplicas h up opts left (results @ [result]) s)))"

fun removeOldBackends :: "'w host \<Rightarrow> 'u BackendUpdater \<Rightarrow> string \<Rightarrow> PortMapping list \<Rightarrow> ('w, 'u) deploy_state \<Rightarrow> ('w, 'u) deploy_state" where
  "removeOldBackends h up containerID [] s = s"
| "removeOldBackends h up containerID (m # ms) s =
     (case GetMappedPort h containerID (ContainerPort m) (fst s) of
        (r, Inl err) \<Rightarrow> removeOldBackends h up containerID ms (r, snd s)
      | (r, Inr oldPort) \<Rightarrow> removeOldBackends h up containerID ms (remove_backend up (ProxyPort m) oldPort (r, snd s)))"

fun removeOld :: "'w host \<Rightarrow> 'u BackendUpdater \<Rightarrow> PortMapping list \<Rightarrow> string list \<Rightarrow> ('w, 'u) deploy_state \<Rightarrow> ('w, 'u) deploy_state" where
  "removeOld h up mappings [] s = s"
| "removeOld h up mappings (c # cs) s =
     (let s = removeOldBackends h up c mappings s in
      removeOld h up mappings cs (fst (Remove h c (fst (Stop h c defaultStopTimeoutOld (fst s)))), snd s))"

record DeployReport =
  rep_Results :: "DeployResult list"
  rep_RemovedCount :: nat

definition Deploy :: "'w host \<Rightarrow> 'w RollingDeployOptions \<Rightarrow> 'u BackendUpdater option \<Rightarrow> ('w, 'u) deploy_state \<Rightarrow>
    ('w, 'u) deploy_state \<times> (string + DeployReport)" where
  "Deploy h opts updater s =
     (let up = (case updater of None \<Rightarrow> noopBackendUpdater | Some up \<Rightarrow> up);
          replicas = (if do_Replicas opts \<le> 0 then 1 else nat (do_Replicas opts)) in
      case FindContainersByLabel h [(''dewy.managed'', ''true''), (''dewy.app'', do_AppName opts)] (fst s) of
        (r, Inl err) \<Rightarrow> ((r, snd s), Inl (''failed to find existing containers: '' @ err))
      | (r, Inr existingContainers) \<Rightarrow>
          (case deployReplicas h up opts replicas [] (r, snd s) of
             (s, Inl err) \<Rightarrow> (s, Inl err)
           | (s, Inr results) \<Rightarrow>
               (removeOld h up (do_PortMappings opts) existingContainers s,
                Inr \<lparr>rep_Results = results, rep_RemovedCount = length existingContainers\<rparr>)))"

section \<open>Shutdown and port resolution (deploy.go)\<close>

fun stopAll :: "'w host \<Rightarrow> string list \<Rightarrow> nat \<Rightarrow> nat \<Rightarrow> 'w Runtime \<Rightarrow> 'w Runtime \<times> nat \<times> nat" where
  "stopAll h [] stopped removed r = (r, stopped, removed)"
| "stopAll h (c # cs) stopped removed r =
     (case Stop h c defaultStopTimeoutOld r of
        (r, Some err) \<Rightarrow> stopAll h cs stopped removed r
      | (r, None) \<Rightarrow> (case Remove h c r of
          (r, Some err) \<Rightarrow> stopAll h cs (stopped + 1) removed r
        | (r, None) \<Rightarrow> stopAll h cs (stopped + 1) (removed + 1) r))"

definition StopManagedContainers :: "'w host \<Rightarrow> string \<Rightarrow> 'w Runtime \<Rightarrow> 'w Runtime \<times> (string + nat \<times> nat)" where
  "StopManagedContainers h appName r =
     (case FindContainersByLabel h (managedLabels appName) r of
        (r, Inl err) \<Rightarrow> (r, Inl (''failed to find managed containers: '' @ err))
      | (r, Inr ids) \<Rightarrow> (case stopAll h ids 0 0 r of (r, n) \<Rightarrow> (r, Inr n)))"

definition ResolvePortMappings :: "'w host \<Rightarrow> string \<Rightarrow> PortMapping list \<Rightarrow> 'w Runtime \<Rightarrow> 'w Runtime \<times> (string + PortMapping list)" where
  "ResolvePortMappings h imageRef mappings r =
     (if mappings = [] then (r, Inl ''no port mappings configured'')
      else if \<not> list_ex (\<lambda>m. ContainerPort m = 0) mappings then (r, Inr mappings)
      else (case GetImageExposedPorts h imageRef r of
          (r, Inl err) \<Rightarrow> (r, Inl (''failed to detect exposed ports: '' @ err))
        | (r, Inr []) \<Rightarrow> (r, Inl ''container does not expose any ports. Please specify port mappings explicitly using --port proxy:container'')
        | (r, Inr [detectedPort]) \<Rightarrow>
            (r, Inr (map (\<lambda>m. if ContainerPort m = 0 then \<lparr>ProxyPort = ProxyPort m, ContainerPort = detectedPort\<rparr> else m) mappings))
        | (r, Inr ps) \<Rightarrow> (r, Inl (''container exposes multiple ports ['' @ joinS '' '' (map itoa ps) @
            '']. Please specify port mappings explicitly using --port proxy:container''))))"

section \<open>The deployment of an instance (container_deploy.go, proxy_backend.go)\<close>

record ContainerConfig =
  cc_Name :: string
  cc_PortMappings :: "PortMapping list"
  cc_Replicas :: goint
  cc_Command :: "string list"
  cc_ExtraArgs :: "string list"
  cc_HealthPath :: string
  cc_HealthTimeout :: int
  cc_DrainTime :: int
  cc_Runtime :: string
  cc_ProxyIdleTimeout :: int

definition proxyBackendUpdater :: "'p proxies BackendUpdater" where
  "proxyBackendUpdater = \<lparr>AddBackend = addProxyBackend, RemoveBackend = removeProxyBackend\<rparr>"

definition defaultHealthCheckRetries :: nat where "defaultHealthCheckRetries = 5"

text \<open>httpGet stands for the request: a transport error or the status of the response.\<close>

fun healthProbe :: "('w \<Rightarrow> string \<Rightarrow> 'w \<times> (string + goint)) \<Rightarrow> string \<Rightarrow> nat \<Rightarrow> 'w \<Rightarrow> 'w \<times> string option" where
  "healthProbe httpGet url 0 w = (w, Some (''health check failed after '' @ itoa (int defaultHealthCheckRetries) @ '' retries''))"
| "healthProbe httpGet url (Suc left) w =
     (case httpGet w url of
        (w, Inr status) \<Rightarrow> if 200 \<le> status \<and> status < 400 then (w, None) else healthProbe httpGet url left w
      | (w, Inl err) \<Rightarrow> healthProbe httpGet url left w)"

definition createHealthCheckFunc :: "'w host \<Rightarrow> ('w \<Rightarrow> string \<Rightarrow> 'w \<times> (string + goint)) \<Rightarrow> string \<Rightarrow> PortMapping list \<Rightarrow>
    (string \<Rightarrow> 'w Runtime \<Rightarrow> 'w Runtime \<times> string option) option" where
  "createHealthCheckFunc h httpGet healthPath resolvedMappings =
     (if healthPath = [] then None
      else if resolvedMappings = [] then None
      else Some (\<lambda>containerID r.
        (case GetMappedPort h containerID (ContainerPort (hd resolvedMappings)) r of
           (r, Inl err) \<Rightarrow> (r, Some (''failed to get mapped port for health check: '' @ err))
         | (r, Inr mappedPort) \<Rightarrow>
             (case healthProbe httpGet (''http://localhost:'' @ itoa mappedPort @ healthPath) defaultHealthCheckRetries (rt_world r) of
                (w, err) \<Rightarrow> (r\<lparr>rt_world := w\<rparr>, err)))))"

text \<open>cfg is the container section of the configuration, appName the name of the application.\<close>

definition deployContainer :: "'w host \<Rightarrow> ('w \<Rightarrow> string \<Rightarrow> 'w \<times> (string + goint)) \<Rightarrow> ContainerConfig option \<Rightarrow> string \<Rightarrow>
    string \<Rightarrow> string \<Rightarrow> 'w Runtime option \<times> 'p proxies \<Rightarrow> ('w Runtime option \<times> 'p proxies) \<times> (string + nat)" where
  "deployContainer h httpGet cfg appName tag artifactURL s =
     (case cfg of
        None \<Rightarrow> (s, Inl ''container config is nil'')
      | Some cc \<Rightarrow> (case fst s of
          None \<Rightarrow> (s, Inl ''container runtime is nil'')
        | Some r \<Rightarrow>
            let imageRef = trimPrefix artifactURL ''img://'' in
            (case ResolvePortMappings h imageRef (cc_PortMappings cc) r of
               (r, Inl err) \<Rightarrow> ((Some r, snd s), Inl (''failed to resolve port mappings: '' @ err))
             | (r, Inr resolvedMappings) \<Rightarrow>
                 (case Deploy h \<lparr>do_ImageRef = imageRef, do_AppName = appName, do_Version = tag,
                        do_Replicas = cc_Replicas cc, do_PortMappings = resolvedMappings, do_Command = cc_Command cc,
                        do_ExtraArgs = cc_ExtraArgs cc,
                        do_HealthCheck = createHealthCheckFunc h httpGet (cc_HealthPath cc) resolvedMappings\<rparr>
                      (Some proxyBackendUpdater) (r, snd s) of
                    ((r, d), Inl err) \<Rightarrow> ((Some r, d), Inl err)
                  | ((r, d), Inr report) \<Rightarrow>
                      ((Some (fst (RemoveExited h appName r)), d), Inr (length (rep_Results report)))))))"

definition stopManagedContainers :: "'w host \<Rightarrow> string \<Rightarrow> 'w Runtime option \<Rightarrow> 'w Runtime option \<times> string option" where
  "stopManagedContainers h appName rt =
     (case rt of None \<Rightarrow> (None, None)
      | Some r \<Rightarrow> (case StopManagedContainers h appName r of (r, res) \<Rightarrow> (Some r, err_of res)))"

section \<open>Backends of a deployment\<close>

text \<open>The backends that a list of (proxy port, mapped port) stands for, per proxy port.\<close>

definition port_backends :: "(goint \<times> goint) list \<Rightarrow> goint \<Rightarrow> tcpBackend multiset" where
  "port_backends ps pp = image_mset (\<lambda>x. mkBackend ''localhost'' (snd x)) (filter_mset (\<lambda>x. fst x = pp) (mset ps))"

definition result_backends :: "DeployResult list \<Rightarrow> goint \<Rightarrow> tcpBackend multiset" where
  "result_backends results = port_backends (concat (map dr_MappedPorts results))"

lemma port_backends_simps [simp]:
  "port_backends [] pp = {#}"
  "port_backends ((q, m) # ps) pp = (if q = pp then {#mkBackend ''localhost'' m#} else {#}) + port_backends ps pp"
  "port_backends (xs @ ys) pp = port_backends xs pp + port_backends ys pp"
  by (simp_all add: port_backends_def)

lemma result_backends_simps [simp]:
  "result_backends [] pp = {#}"
  "result_backends (x # xs) pp = port_backends (dr_MappedPorts x) pp + result_backends xs pp"
  "result_backends (xs @ ys) pp = result_backends xs pp + result_backends ys pp"
  by (simp_all add: result_backends_def)

lemma port_backends_perm: "mset ps = mset qs \<Longrightarrow> port_backends ps = port_backends qs"
  by (simp add: port_backends_def fun_eq_iff)

definition fair_ranges :: "'w host \<Rightarrow> bool" where
  "fair_ranges h = (\<forall>w ps. mset (snd (h_rangePorts h w ps)) = mset ps)"

lemma range_ports_perm:
  assumes "fair_ranges h" "range_ports h ports s = (s', ps)"
  shows "mset ps = mset ports \<and> snd s' = snd s \<and> rt_log (fst s') = rt_log (fst s)"
proof -
  obtain w qs where "h_rangePorts h (rt_world (fst s)) ports = (w, qs)" by (rule prod.exhaust)
  moreover have "mset (snd (h_rangePorts h (rt_world (fst s)) ports)) = mset ports"
    using assms(1) unfolding fair_ranges_def by blast
  ultimately show ?thesis using assms(2) by (auto simp: range_ports_def)
qed

lemma mapPorts_keys:
  "mapPorts h c ms cache mapped r = (r', Inr ps) \<Longrightarrow> fst ` set ps \<subseteq> ProxyPort ` set ms \<union> fst ` set mapped"
proof (induction ms arbitrary: cache mapped r)
  case (Cons m ms)
  have upd: "fst ` set (AList.update k v al) = insert k (fst ` set al)" for k and v :: goint and al
    by (simp add: dom_update)
  obtain cache' p r1 where "mapPorts h c ms cache' (AList.update (ProxyPort m) p mapped) r1 = (r', Inr ps)"
    using Cons.prems by (auto split: option.splits sum.splits prod.splits)
  from Cons.IH [OF this] show ?case by (auto simp: upd)
qed simp

lemma startAndCheck_ports:
  "startAndCheck h opts i r = (r', Inr res) \<Longrightarrow> fst ` set (dr_MappedPorts res) \<subseteq> ProxyPort ` set (do_PortMappings opts)"
  by (fastforce simp: startAndCheck_def Let_def dest!: mapPorts_keys split: prod.splits sum.splits option.splits)

context backend_updater
begin

abbreviation up :: "'u BackendUpdater" where
  "up \<equiv> \<lparr>AddBackend = add, RemoveBackend = remove\<rparr>"

lemma add_backend_known:
  assumes "pp \<in> ports (snd s)"
  shows "snd (add_backend up pp m s) = None \<and> ports (snd (fst (add_backend up pp m s))) = ports (snd s) \<and>
    backends (snd (fst (add_backend up pp m s))) = (\<lambda>q. backends (snd s) q + port_backends [(pp, m)] q)"
  using add_known [OF assms, of "''localhost''" m] add_ports [of "''localhost''" m pp "snd s"]
  by (auto simp: add_backend_def fun_eq_iff split: prod.splits)

lemma add_all_known:
  "fst ` set ps \<subseteq> ports (snd s) \<Longrightarrow> snd (add_all up ps s) = None \<and> ports (snd (fst (add_all up ps s))) = ports (snd s) \<and>
     backends (snd (fst (add_all up ps s))) = (\<lambda>pp. backends (snd s) pp + port_backends ps pp)"
proof (induction ps arbitrary: s)
  case (Cons x ps)
  obtain pp m where x: "x = (pp, m)" by (rule prod.exhaust)
  obtain s1 e where a: "add_backend up pp m s = (s1, e)" by (rule prod.exhaust)
  have k: "e = None" "ports (snd s1) = ports (snd s)" "backends (snd s1) = (\<lambda>q. backends (snd s) q + port_backends [(pp, m)] q)"
    using add_backend_known [of pp s m] Cons.prems a x by simp_all
  have "fst ` set ps \<subseteq> ports (snd s1)" using Cons.prems k(2) by simp
  from Cons.IH [OF this] k a x show ?case by (simp add: add.assoc)
qed simp

lemma remove_backend_backends:
  "ports (snd (remove_backend up pp m s)) = ports (snd s) \<and>
   backends (snd (remove_backend up pp m s)) = (\<lambda>q. backends (snd s) q - port_backends [(pp, m)] q)"
  using remove_ports [of "''localhost''" m pp "snd s"] remove_backends [of "''localhost''" m pp "snd s"]
  by (auto simp: remove_backend_def fun_eq_iff split: prod.splits)

lemma remove_all_backends:
  "ports (snd (remove_all up ps s)) = ports (snd s) \<and>
   backends (snd (remove_all up ps s)) = (\<lambda>pp. backends (snd s) pp - port_backends ps pp)"
proof (induction ps arbitrary: s)
  case (Cons x ps)
  obtain pp m where x: "x = (pp, m)" by (rule prod.exhaust)
  show ?case using Cons [of "remove_backend up pp m s"] remove_backend_backends [of pp m s] x
    by (simp add: diff_diff_add_mset)
qed simp

lemma rollback_backends_backends:
  assumes "fair_ranges h"
  shows "ports (snd (rollback_backends h up results s)) = ports (snd s) \<and>
    backends (snd (rollback_backends h up results s)) = (\<lambda>pp. backends (snd s) pp - result_backends results pp)"
proof (induction results arbitrary: s)
  case (Cons x results)
  obtain s1 ps where r: "range_ports h (dr_MappedPorts x) s = (s1, ps)" by (rule prod.exhaust)
  note perm = range_ports_perm [OF assms r]
  have "port_backends ps = port_backends (dr_MappedPorts x)" by (rule port_backends_perm [OF conjunct1 [OF perm]])
  then show ?case using Cons [of "remove_all up ps s1"] remove_all_backends [of ps s1] r perm
    by (simp add: diff_diff_add_mset)
qed simp

lemma rollback_restores:
  assumes "fair_ranges h"
  shows "ports (snd (rollback h up results s)) = ports (snd s) \<and>
    backends (snd (rollback h up results s)) = (\<lambda>pp. backends (snd s) pp - result_backends results pp)"
  using rollback_backends_backends [OF assms, of results s] by (simp add: rollback_def Let_def)

lemma deployReplicas_backends:
  assumes "fair_ranges h" "ProxyPort ` set (do_PortMappings opts) \<subseteq> ports (snd s)"
    "deployReplicas h up opts n results s = (s', res)"
  shows "case res of
      Inl e \<Rightarrow> backends (snd s') = (\<lambda>pp. backends (snd s) pp - result_backends results pp)
    | Inr results' \<Rightarrow> ports (snd s') = ports (snd s) \<and> (\<exists>new. results' = results @ new \<and> length new = n \<and>
        backends (snd s') = (\<lambda>pp. backends (snd s) pp + result_backends new pp))"
  using assms(2,3)
proof (induction n arbitrary: results s)
  case (Suc n)
  obtain r1 x where st: "startAndCheck h opts (int (length results)) (fst s) = (r1, x)" by (rule prod.exhaust)
  show ?case
  proof (cases x)
    case (Inl e)
    then show ?thesis using Suc.prems st rollback_restores [OF assms(1), of results "(r1, snd s)"] by auto
  next
    case (Inr result)
    obtain s2 ps where rp: "range_ports h (dr_MappedPorts result) (r1, snd s) = (s2, ps)" by (rule prod.exhaust)
    note perm = range_ports_perm [OF assms(1) rp]
    have pb: "port_backends ps = port_backends (dr_MappedPorts result)" by (rule port_backends_perm [OF conjunct1 [OF perm]])
    have "fst ` set ps = fst ` set (dr_MappedPorts result)" using perm mset_eq_setD by metis
    then have "fst ` set ps \<subseteq> ports (snd s2)"
      using startAndCheck_ports [OF st [unfolded Inr]] Suc.prems(1) perm by auto
    note known = add_all_known [OF this]
    obtain s3 where s3: "add_all up ps s2 = (s3, None)" using known by (metis prod.collapse)
    have b3: "backends (snd s3) = (\<lambda>pp. backends (snd s) pp + port_backends (dr_MappedPorts result) pp)"
      "ports (snd s3) = ports (snd s)" using known perm pb s3 by simp_all
    have "deployReplicas h up opts n (results @ [result]) s3 = (s', res)"
      using Suc.prems(2) st Inr rp s3 by simp
    from Suc.IH [OF _ this] Suc.prems(1) b3 show ?thesis
      by (cases res) (auto simp: add.assoc)
  qed
qed auto

end

section \<open>The log of a deployment\<close>

text \<open>The container a stop or rm command is about, the container a run command started.\<close>

fun target :: "event \<Rightarrow> string option" where
  "target (Exec args res) = (if args \<noteq> [] \<and> (hd args = ''stop'' \<or> hd args = ''rm'') then Some (last args) else None)"
| "target (AddedBackend _ _ _ _) = None"
| "target (RemovedBackend _ _ _ _) = None"

fun started :: "event \<Rightarrow> string option" where
  "started (Exec args (Inr c)) = (if args \<noteq> [] \<and> hd args = ''run'' then Some c else None)"
| "started _ = None"

fun is_added :: "event \<Rightarrow> bool" where
  "is_added (AddedBackend _ _ _ _) = True" | "is_added _ = False"

fun is_removed :: "event \<Rightarrow> bool" where
  "is_removed (RemovedBackend _ _ _ _) = True" | "is_removed _ = False"

definition targets :: "event list \<Rightarrow> string list" where "targets es = List.map_filter target es"

definition starts :: "event list \<Rightarrow> string list" where "starts es = List.map_filter started es"

lemma targets_simps [simp]:
  "targets [] = []" "targets (e # es) = (case target e of None \<Rightarrow> [] | Some c \<Rightarrow> [c]) @ targets es"
  "targets (xs @ ys) = targets xs @ targets ys"
  by (simp_all add: targets_def List.map_filter_def split: option.splits)

lemma starts_simps [simp]:
  "starts [] = []" "starts (e # es) = (case started e of None \<Rightarrow> [] | Some c \<Rightarrow> [c]) @ starts es"
  "starts (xs @ ys) = starts xs @ starts ys"
  by (simp_all add: starts_def List.map_filter_def split: option.splits)

text \<open>Events that change no backend, and events that only add or only remove some.\<close>

definition no_backend_events :: "event list \<Rightarrow> bool" where
  "no_backend_events es = (\<forall>e\<in>set es. \<not> is_added e \<and> \<not> is_removed e)"

lemma no_backend_events_simps [simp]:
  "no_backend_events []" "no_backend_events (e # es) \<longleftrightarrow> \<not> is_added e \<and> \<not> is_removed e \<and> no_backend_events es"
  "no_backend_events (xs @ ys) \<longleftrightarrow> no_backend_events xs \<and> no_backend_events ys"
  by (auto simp: no_backend_events_def)

text \<open>A health check that issues commands, if any, of the kind port only.\<close>

definition harmless_check :: "(string \<Rightarrow> 'w Runtime \<Rightarrow> 'w Runtime \<times> string option) \<Rightarrow> bool" where
  "harmless_check check = (\<forall>c r. \<exists>es. rt_log (fst (check c r)) = rt_log r @ es \<and>
     (\<forall>e\<in>set es. \<exists>args res. e = Exec (''port'' # args) res))"

definition harmless_opts :: "'w RollingDeployOptions \<Rightarrow> bool" where
  "harmless_opts opts = (case do_HealthCheck opts of None \<Rightarrow> True | Some check \<Rightarrow> harmless_check check)"

lemma port_commands:
  "\<forall>e\<in>set es. \<exists>args res. e = Exec (''port'' # args) res \<Longrightarrow> targets es = [] \<and> starts es = [] \<and> no_backend_events es"
proof (induction es)
  case (Cons e es)
  then obtain args res where "e = Exec (''port'' # args) res" by auto
  with Cons show ?case by (cases res) auto
qed simp

lemma Stop_log: "\<exists>t res. rt_log (fst (Stop h c timeout r)) = rt_log r @ [Exec [''stop'', t, c] res]"
  unfolding Stop_def using execCommand_log [OF surjective_pairing] by blast

lemma Remove_log: "\<exists>res. rt_log (fst (Remove h c r)) = rt_log r @ [Exec [''rm'', c] res]"
  unfolding Remove_def using execCommand_log [OF surjective_pairing] by blast

lemma stop_and_remove_log:
  "\<exists>es. rt_log (fst (Remove h c (fst (Stop h c timeout r)))) = rt_log r @ es \<and> targets es = [c, c] \<and>
     starts es = [] \<and> no_backend_events es"
proof -
  obtain t sres where s: "rt_log (fst (Stop h c timeout r)) = rt_log r @ [Exec [''stop'', t, c] sres]" using Stop_log by blast
  obtain rres where r: "rt_log (fst (Remove h c (fst (Stop h c timeout r)))) = rt_log (fst (Stop h c timeout r)) @ [Exec [''rm'', c] rres]"
    using Remove_log by blast
  have "started (Exec [''stop'', t, c] sres) = None" "started (Exec [''rm'', c] rres) = None"
    by (cases sres; simp) (cases rres; simp)
  with s r show ?thesis by (intro exI [of _ "[Exec [''stop'', t, c] sres, Exec [''rm'', c] rres]"]) simp
qed

lemma GetMappedPort_log:
  "GetMappedPort h c p r = (r', res) \<Longrightarrow> \<exists>out. rt_log r' = rt_log r @ [Exec [''port'', c, itoa p @ ''/tcp''] out]"
  by (auto simp: GetMappedPort_def dest: execCommandOutput_log split: prod.splits sum.splits)

lemma Run_log:
  assumes "Run h opts r = (r', res)"
  shows "rt_log r' = rt_log r \<and> isl res \<or> (\<exists>args. rt_log r' = rt_log r @ [Exec (''run'' # args) res])"
proof (cases "validateExtraArgs (ro_ExtraArgs opts)")
  case None
  then obtain labels w where "execCommandOutput h (runArgs h opts (h_unixNow h (rt_world r)) labels) (r\<lparr>rt_world := w\<rparr>) = (r', res)"
    using assms by (auto simp: Run_def Let_def split: prod.splits)
  from execCommandOutput_log [OF this] show ?thesis by (simp add: runArgs_def Let_def)
next
  case (Some e)
  with assms show ?thesis by (auto simp: Run_def)
qed

lemma mapPorts_log:
  "mapPorts h c ms cache mapped r = (r', res) \<Longrightarrow> \<exists>es. rt_log r' = rt_log r @ es \<and> no_backend_events es \<and> starts es = [] \<and>
     set (targets es) \<subseteq> (if isl res then {c} else {})"
proof (induction ms arbitrary: cache mapped r)
  case (Cons m ms)
  show ?case
  proof (cases "map_of cache (ContainerPort m)")
    case None
    obtain r1 g where g: "GetMappedPort h c (ContainerPort m) r = (r1, g)" by (rule prod.exhaust)
    obtain out where log1: "rt_log r1 = rt_log r @ [Exec [''port'', c, itoa (ContainerPort m) @ ''/tcp''] out]"
      using GetMappedPort_log [OF g] by blast
    have s: "started (Exec [''port'', c, itoa (ContainerPort m) @ ''/tcp''] out) = None" by (cases out) auto
    show ?thesis
    proof (cases g)
      case (Inl err)
      obtain rres where "rt_log (fst (Remove h c r1)) = rt_log r1 @ [Exec [''rm'', c] rres]" using Remove_log by blast
      moreover have "started (Exec [''rm'', c] rres) = None" by (cases rres) auto
      moreover have "r' = fst (Remove h c r1)" "isl res" using Cons.prems None g Inl by (auto split: prod.splits)
      ultimately show ?thesis using log1 s by auto
    next
      case (Inr p)
      then have "mapPorts h c ms (AList.update (ContainerPort m) p cache) (AList.update (ProxyPort m) p mapped) r1 = (r', res)"
        using Cons.prems None g by simp
      from Cons.IH [OF this] log1 s show ?thesis by auto
    qed
  next
    case (Some p)
    then show ?thesis using Cons by auto
  qed
qed auto

lemma startAndCheck_log:
  assumes "harmless_opts opts" "startAndCheck h opts i r = (r', res)"
  shows "\<exists>es. rt_log r' = rt_log r @ es \<and> no_backend_events es \<and> set (targets es) \<subseteq> set (starts es) \<and>
    (case res of Inl e \<Rightarrow> True | Inr x \<Rightarrow> targets es = [] \<and> starts es = [dr_ContainerID x])"
proof -
  obtain r1 c where run: "Run h (replicaRunOptions opts (h_rfc3339Now h (rt_world r)) i) r = (r1, c)" by (rule prod.exhaust)
  show ?thesis
  proof (cases c)
    case (Inl e)
    then show ?thesis using run assms(2) Run_log [OF run] by (auto simp: startAndCheck_def)
  next
    case (Inr cid)
    obtain args where log1: "rt_log r1 = rt_log r @ [Exec (''run'' # args) (Inr cid)]"
      using Run_log [OF run] Inr by auto
    obtain r2 p where mp: "mapPorts h cid (do_PortMappings opts) [] [] r1 = (r2, p)" by (rule prod.exhaust)
    obtain es2 where es2: "rt_log r2 = rt_log r1 @ es2" "no_backend_events es2" "starts es2 = []"
        "set (targets es2) \<subseteq> (if isl p then {cid} else {})"
      using mapPorts_log [OF mp] by blast
    show ?thesis
    proof (cases p)
      case (Inl e)
      then show ?thesis using run Inr mp assms(2) log1 es2 by (auto simp: startAndCheck_def)
    next
      case p: (Inr ps)
      let ?x = "\<lparr>dr_ContainerID = cid, dr_MappedPorts = ps, dr_ReplicaIndex = i\<rparr>"
      have base: "rt_log r2 = rt_log r @ Exec (''run'' # args) (Inr cid) # es2" "targets es2 = []" using log1 es2 p by auto
      show ?thesis
      proof (cases "do_HealthCheck opts")
        case None
        then have "r' = r2 \<and> res = Inr ?x" using run Inr mp p assms(2) by (simp add: startAndCheck_def)
        then show ?thesis using base es2 by (intro exI [of _ "Exec (''run'' # args) (Inr cid) # es2"]) simp
      next
        case (Some check)
        obtain r3 e3 where ch: "check cid r2 = (r3, e3)" by (rule prod.exhaust)
        have "harmless_check check" using assms(1) Some by (simp add: harmless_opts_def)
        then have "\<exists>es. rt_log (fst (check cid r2)) = rt_log r2 @ es \<and> (\<forall>e\<in>set es. \<exists>args res. e = Exec (''port'' # args) res)"
          unfolding harmless_check_def by blast
        then obtain es3 where es3: "rt_log r3 = rt_log r2 @ es3" "targets es3 = []" "starts es3 = []" "no_backend_events es3"
          using port_commands ch by auto
        show ?thesis
        proof (cases e3)
          case None
          then have "r' = r3 \<and> res = Inr ?x" using run Inr mp p Some ch assms(2) by (simp add: startAndCheck_def)
          then show ?thesis using base es2 es3 by (intro exI [of _ "Exec (''run'' # args) (Inr cid) # es2 @ es3"]) simp
        next
          case (Some err)
          let ?r4 = "fst (Remove h cid (fst (Stop h cid defaultStopTimeoutFailed r3)))"
          obtain es4 where es4: "rt_log ?r4 = rt_log r3 @ es4" "targets es4 = [cid, cid]" "starts es4 = []" "no_backend_events es4"
            using stop_and_remove_log by blast
          have "r' = ?r4" "isl res"
            using run Inr mp p \<open>do_HealthCheck opts = Some check\<close> ch Some assms(2)
            by (auto simp: startAndCheck_def split: prod.splits)
          then show ?thesis using base es2 es3 es4
            by (intro exI [of _ "Exec (''run'' # args) (Inr cid) # es2 @ es3 @ es4"]) (auto split: sum.splits)
        qed
      qed
    qed
  qed
qed

lemma FindContainersByLabel_log:
  "FindContainersByLabel h labels r = (r', res) \<Longrightarrow>
   \<exists>es. rt_log r' = rt_log r @ es \<and> targets es = [] \<and> starts es = [] \<and> (\<forall>e\<in>set es. \<not> is_removed e)"
proof -
  assume f: "FindContainersByLabel h labels r = (r', res)"
  then obtain args out where "rt_log r' = rt_log r @ [Exec (''ps'' # args) out]"
    by (auto simp: FindContainersByLabel_def findContainerIDs_def dest!: execCommandOutput_log split: prod.splits sum.splits)
  moreover have "started (Exec (''ps'' # args) out) = None" by (cases out) auto
  ultimately show ?thesis by auto
qed

lemma add_all_log:
  "\<exists>es. rt_log (fst (fst (add_all up ps s))) = rt_log (fst s) @ es \<and> (\<forall>e\<in>set es. is_added e)"
proof (induction ps arbitrary: s)
  case (Cons x ps)
  obtain pp m where x: "x = (pp, m)" by (rule prod.exhaust)
  obtain s1 e where a: "add_backend up pp m s = (s1, e)" by (rule prod.exhaust)
  then have l: "\<exists>ev. rt_log (fst s1) = rt_log (fst s) @ [ev] \<and> is_added ev"
    by (auto simp: add_backend_def log_event_def split: prod.splits)
  then show ?case using Cons [of s1] a x by (cases e) auto
qed simp

lemma remove_backend_log: "\<exists>e. rt_log (fst (remove_backend up pp m s)) = rt_log (fst s) @ [e] \<and> is_removed e"
  by (auto simp: remove_backend_def log_event_def split: prod.splits)

lemma remove_all_log:
  "\<exists>es. rt_log (fst (remove_all up ps s)) = rt_log (fst s) @ es \<and> (\<forall>e\<in>set es. is_removed e)"
proof (induction ps arbitrary: s)
  case (Cons x ps)
  obtain pp m where x: "x = (pp, m)" by (rule prod.exhaust)
  from Cons [of "remove_backend up pp m s"] remove_backend_log [of up pp m s] x show ?case by auto
qed simp

lemma backend_events [simp]: "is_added e \<Longrightarrow> target e = None \<and> started e = None \<and> \<not> is_removed e"
  "is_removed e \<Longrightarrow> target e = None \<and> started e = None \<and> \<not> is_added e"
  by (cases e; simp)+

lemma backend_events_only:
  "\<forall>e\<in>set es. is_added e \<or> is_removed e \<Longrightarrow> targets es = [] \<and> starts es = []"
  by (induction es) auto

lemma range_ports_log: "range_ports h ports s = (s', ps) \<Longrightarrow> rt_log (fst s') = rt_log (fst s)"
  by (auto simp: range_ports_def split: prod.splits)

lemma rollback_backends_log:
  "\<exists>es. rt_log (fst (rollback_backends h up results s)) = rt_log (fst s) @ es \<and> (\<forall>e\<in>set es. is_removed e)"
proof (induction results arbitrary: s)
  case (Cons x results)
  obtain s1 ps where r: "range_ports h (dr_MappedPorts x) s = (s1, ps)" by (rule prod.exhaust)
  from Cons [of "remove_all up ps s1"] remove_all_log [of up ps s1] range_ports_log [OF r] r show ?case by auto
qed simp

lemma rollback_containers_log:
  "\<exists>es. rt_log (rollback_containers h results r) = rt_log r @ es \<and> set (targets es) = set (map dr_ContainerID results)"
proof (induction results arbitrary: r)
  case (Cons x results)
  let ?r = "fst (Remove h (dr_ContainerID x) (fst (Stop h (dr_ContainerID x) defaultStopTimeoutFailed r)))"
  obtain es where "rt_log ?r = rt_log r @ es" "targets es = [dr_ContainerID x, dr_ContainerID x]" using stop_and_remove_log by blast
  with Cons [of ?r] show ?case by auto
qed simp

lemma rollback_log:
  "\<exists>es. rt_log (fst (rollback h up results s)) = rt_log (fst s) @ es \<and> set (targets es) = set (map dr_ContainerID results)"
proof -
  obtain es1 where 1: "rt_log (fst (rollback_backends h up results s)) = rt_log (fst s) @ es1" "\<forall>e\<in>set es1. is_removed e"
    using rollback_backends_log by blast
  obtain es2 where 2: "rt_log (rollback_containers h results (fst (rollback_backends h up results s))) =
      rt_log (fst (rollback_backends h up results s)) @ es2" "set (targets es2) = set (map dr_ContainerID results)"
    using rollback_containers_log by blast
  have "targets es1 = []" using backend_events_only 1(2) by blast
  with 1 2 show ?thesis by (intro exI [of _ "es1 @ es2"]) (simp add: rollback_def Let_def)
qed

lemma deployReplicas_log:
  assumes "harmless_opts opts" "deployReplicas h up opts n results s = (s', res)"
  shows "\<exists>es. rt_log (fst s') = rt_log (fst s) @ es \<and> (case res of
      Inl e \<Rightarrow> set (targets es) \<subseteq> set (starts es) \<union> set (map dr_ContainerID results)
    | Inr results' \<Rightarrow> targets es = [] \<and> (\<forall>e\<in>set es. \<not> is_removed e) \<and> map dr_ContainerID results' = map dr_ContainerID results @ starts es)"
  using assms(2)
proof (induction n arbitrary: results s)
  case (Suc n)
  obtain r1 x where st: "startAndCheck h opts (int (length results)) (fst s) = (r1, x)" by (rule prod.exhaust)
  obtain es1 where es1: "rt_log r1 = rt_log (fst s) @ es1" "no_backend_events es1" "set (targets es1) \<subseteq> set (starts es1)"
      "case x of Inl e \<Rightarrow> True | Inr x \<Rightarrow> targets es1 = [] \<and> starts es1 = [dr_ContainerID x]"
    using startAndCheck_log [OF assms(1) st] by blast
  show ?case
  proof (cases x)
    case (Inl e)
    then have "s' = rollback h up results (r1, snd s)" "res = Inl e" using Suc.prems st by auto
    with rollback_log [of h up results "(r1, snd s)"] es1 show ?thesis by auto
  next
    case (Inr result)
    obtain s2 ps where rp: "range_ports h (dr_MappedPorts result) (r1, snd s) = (s2, ps)" by (rule prod.exhaust)
    obtain s3 e where ad: "add_all up ps s2 = (s3, e)" by (rule prod.exhaust)
    obtain es3 where es3: "rt_log (fst s3) = rt_log r1 @ es3" "\<forall>e\<in>set es3. is_added e"
      using add_all_log [of up ps s2] ad range_ports_log [OF rp] by auto
    then have q: "targets es3 = [] \<and> starts es3 = []" using backend_events_only by blast
    have c: "targets es1 = []" "starts es1 = [dr_ContainerID result]" using es1(4) Inr by auto
    show ?thesis
    proof (cases e)
      case None
      then have "deployReplicas h up opts n (results @ [result]) s3 = (s', res)" using Suc.prems st Inr rp ad by simp
      from Suc.IH [OF this] obtain es4 where es4: "rt_log (fst s') = rt_log (fst s3) @ es4"
        "case res of Inl e \<Rightarrow> set (targets es4) \<subseteq> set (starts es4) \<union> set (map dr_ContainerID (results @ [result]))
         | Inr results' \<Rightarrow> targets es4 = [] \<and> (\<forall>e\<in>set es4. \<not> is_removed e) \<and>
             map dr_ContainerID results' = map dr_ContainerID (results @ [result]) @ starts es4" by blast
      show ?thesis
        using es1(1,2) es3 es4 q c
        by (intro exI [of _ "es1 @ es3 @ es4"]) (cases res; auto simp: no_backend_events_def)
    next
      case (Some err)
      then have "s' = rollback h up (results @ [result]) s3" "res = Inl err" using Suc.prems st Inr rp ad by auto
      with rollback_log [of h up "results @ [result]" s3] es1(1) es3 q c show ?thesis by auto
    qed
  qed
qed auto

lemma removeOldBackends_log:
  "\<exists>es. rt_log (fst (removeOldBackends h up c ms s)) = rt_log (fst s) @ es \<and> targets es = [] \<and> (\<forall>e\<in>set es. \<not> is_added e)"
proof (induction ms arbitrary: s)
  case (Cons m ms)
  obtain r1 g where g: "GetMappedPort h c (ContainerPort m) (fst s) = (r1, g)" by (rule prod.exhaust)
  obtain out where l: "rt_log r1 = rt_log (fst s) @ [Exec [''port'', c, itoa (ContainerPort m) @ ''/tcp''] out]"
    using GetMappedPort_log [OF g] by blast
  show ?case
  proof (cases g)
    case (Inl e)
    then show ?thesis using Cons [of "(r1, snd s)"] g l by auto
  next
    case (Inr p)
    obtain e where e: "rt_log (fst (remove_backend up (ProxyPort m) p (r1, snd s))) = rt_log r1 @ [e]" "is_removed e"
      using remove_backend_log [of up "ProxyPort m" p "(r1, snd s)"] by auto
    then show ?thesis using Cons [of "remove_backend up (ProxyPort m) p (r1, snd s)"] g l Inr by auto
  qed
qed simp

lemma removeOld_log:
  "\<exists>es. rt_log (fst (removeOld h up ms cs s)) = rt_log (fst s) @ es \<and> targets es = concat (map (\<lambda>c. [c, c]) cs) \<and> (\<forall>e\<in>set es. \<not> is_added e)"
proof (induction cs arbitrary: s)
  case (Cons c cs)
  let ?s1 = "removeOldBackends h up c ms s"
  let ?r2 = "fst (Remove h c (fst (Stop h c defaultStopTimeoutOld (fst ?s1))))"
  obtain es1 where 1: "rt_log (fst ?s1) = rt_log (fst s) @ es1" "targets es1 = []" "\<forall>e\<in>set es1. \<not> is_added e"
    using removeOldBackends_log by blast
  obtain es2 where 2: "rt_log ?r2 = rt_log (fst ?s1) @ es2" "targets es2 = [c, c]" "no_backend_events es2" using stop_and_remove_log by blast
  obtain es3 where 3: "rt_log (fst (removeOld h up ms cs (?r2, snd ?s1))) = rt_log ?r2 @ es3"
      "targets es3 = concat (map (\<lambda>c. [c, c]) cs)" "\<forall>e\<in>set es3. \<not> is_added e" using Cons [of "(?r2, snd ?s1)"] by auto
  have "rt_log (fst (removeOld h up ms (c # cs) s)) = rt_log (fst s) @ es1 @ es2 @ es3"
    using 1 2 3 by (simp add: Let_def)
  then show ?case using 1 2 3 by (intro exI [of _ "es1 @ es2 @ es3"]) (auto simp: no_backend_events_def)
qed simp

text \<open>The backends that the removals recorded in a log are about.\<close>

definition removed_backends :: "event list \<Rightarrow> goint \<Rightarrow> tcpBackend multiset" where
  "removed_backends es pp = mset (List.map_filter (\<lambda>e. case e of
     RemovedBackend host p q ok \<Rightarrow> if q = pp then Some (mkBackend host p) else None | _ \<Rightarrow> None) es)"

lemma removed_backends_simps [simp]:
  "removed_backends [] pp = {#}" "removed_backends (xs @ ys) pp = removed_backends xs pp + removed_backends ys pp"
  "removed_backends (Exec args res # es) pp = removed_backends es pp"
  "removed_backends (RemovedBackend host p q ok # es) pp = (if q = pp then {#mkBackend host p#} else {#}) + removed_backends es pp"
  by (simp_all add: removed_backends_def List.map_filter_def)

lemma removed_backends_none: "\<forall>e\<in>set es. \<not> is_removed e \<Longrightarrow> removed_backends es pp = {#}"
proof (induction es)
  case (Cons e es)
  then show ?case by (cases e) (auto simp: removed_backends_def List.map_filter_def)
qed simp

lemma stop_and_remove_backends:
  "\<exists>es. rt_log (fst (Remove h c (fst (Stop h c timeout r)))) = rt_log r @ es \<and> (\<forall>pp. removed_backends es pp = {#})"
proof -
  obtain es where "rt_log (fst (Remove h c (fst (Stop h c timeout r)))) = rt_log r @ es" "no_backend_events es"
    using stop_and_remove_log [of h c timeout r] by blast
  moreover from this(2) have "\<forall>pp. removed_backends es pp = {#}" by (simp add: no_backend_events_def removed_backends_none)
  ultimately show ?thesis by blast
qed

lemma remove_backend_event:
  "\<exists>ok. rt_log (fst (remove_backend up pp m s)) = rt_log (fst s) @ [RemovedBackend ''localhost'' m pp ok]"
  by (auto simp: remove_backend_def log_event_def split: prod.splits)

context backend_updater
begin

lemma removeOldBackends_backends:
  "\<exists>es. rt_log (fst (removeOldBackends h up c ms s)) = rt_log (fst s) @ es \<and>
     backends (snd (removeOldBackends h up c ms s)) = (\<lambda>pp. backends (snd s) pp - removed_backends es pp)"
proof (induction ms arbitrary: s)
  case (Cons m ms)
  obtain r1 g where g: "GetMappedPort h c (ContainerPort m) (fst s) = (r1, g)" by (rule prod.exhaust)
  obtain out where l: "rt_log r1 = rt_log (fst s) @ [Exec [''port'', c, itoa (ContainerPort m) @ ''/tcp''] out]"
    using GetMappedPort_log [OF g] by blast
  show ?case
  proof (cases g)
    case (Inl e)
    then show ?thesis using Cons [of "(r1, snd s)"] g l by auto
  next
    case (Inr p)
    let ?s = "remove_backend up (ProxyPort m) p (r1, snd s)"
    obtain ok where e: "rt_log (fst ?s) = rt_log r1 @ [RemovedBackend ''localhost'' p (ProxyPort m) ok]"
      using remove_backend_event [of up "ProxyPort m" p "(r1, snd s)"] by auto
    obtain es where es: "rt_log (fst (removeOldBackends h up c ms ?s)) = rt_log (fst ?s) @ es"
      "backends (snd (removeOldBackends h up c ms ?s)) = (\<lambda>pp. backends (snd ?s) pp - removed_backends es pp)" using Cons by blast
    show ?thesis
      using remove_backend_backends [of "ProxyPort m" p "(r1, snd s)"] e es g l Inr
      by (intro exI [of _ "[Exec [''port'', c, itoa (ContainerPort m) @ ''/tcp''] out, RemovedBackend ''localhost'' p (ProxyPort m) ok] @ es"])
        (simp add: diff_diff_add_mset fun_eq_iff)
  qed
qed simp

lemma removeOld_backends:
  "\<exists>es. rt_log (fst (removeOld h up ms cs s)) = rt_log (fst s) @ es \<and>
     backends (snd (removeOld h up ms cs s)) = (\<lambda>pp. backends (snd s) pp - removed_backends es pp)"
proof (induction cs arbitrary: s)
  case (Cons c cs)
  let ?s1 = "removeOldBackends h up c ms s"
  let ?r2 = "fst (Remove h c (fst (Stop h c defaultStopTimeoutOld (fst ?s1))))"
  obtain es1 where 1: "rt_log (fst ?s1) = rt_log (fst s) @ es1" "backends (snd ?s1) = (\<lambda>pp. backends (snd s) pp - removed_backends es1 pp)"
    using removeOldBackends_backends by blast
  obtain es2 where 2: "rt_log ?r2 = rt_log (fst ?s1) @ es2" "\<forall>pp. removed_backends es2 pp = {#}" using stop_and_remove_backends by blast
  obtain es3 where 3: "rt_log (fst (removeOld h up ms cs (?r2, snd ?s1))) = rt_log ?r2 @ es3"
      "backends (snd (removeOld h up ms cs (?r2, snd ?s1))) = (\<lambda>pp. backends (snd ?s1) pp - removed_backends es3 pp)"
    using Cons [of "(?r2, snd ?s1)"] by auto
  have "rt_log (fst (removeOld h up ms (c # cs) s)) = rt_log (fst s) @ es1 @ es2 @ es3" using 1 2 3 by (simp add: Let_def)
  then show ?case using 1 2 3 by (intro exI [of _ "es1 @ es2 @ es3"]) (simp add: Let_def diff_diff_add_mset)
qed simp

lemma Deploy_cases:
  assumes "fair_ranges h" "harmless_opts opts" "ProxyPort ` set (do_PortMappings opts) \<subseteq> ports u"
    "Deploy h opts (Some up) (r, u) = ((r', u'), res)"
  shows "case res of
      Inl e \<Rightarrow> backends u' = backends u \<and> (\<exists>es. rt_log r' = rt_log r @ es \<and> set (targets es) \<subseteq> set (starts es))
    | Inr report \<Rightarrow> length (rep_Results report) = (if do_Replicas opts \<le> 0 then 1 else nat (do_Replicas opts)) \<and>
        (\<exists>existing pre post. snd (FindContainersByLabel h [(''dewy.managed'', ''true''), (''dewy.app'', do_AppName opts)] r) = Inr existing \<and>
           rt_log r' = rt_log r @ pre @ post \<and> targets pre = [] \<and> (\<forall>e\<in>set pre. \<not> is_removed e) \<and> (\<forall>e\<in>set post. \<not> is_added e) \<and>
           starts pre = map dr_ContainerID (rep_Results report) \<and> targets post = concat (map (\<lambda>c. [c, c]) existing) \<and>
           backends u' = (\<lambda>pp. backends u pp + result_backends (rep_Results report) pp - removed_backends post pp))"
proof -
  let ?labels = "[(''dewy.managed'', ''true''), (''dewy.app'', do_AppName opts)]"
  obtain r1 f where f: "FindContainersByLabel h ?labels r = (r1, f)" by (rule prod.exhaust)
  obtain es0 where es0: "rt_log r1 = rt_log r @ es0" "targets es0 = []" "starts es0 = []" "\<forall>e\<in>set es0. \<not> is_removed e"
    using FindContainersByLabel_log [OF f] by blast
  let ?n = "if do_Replicas opts \<le> 0 then 1 else nat (do_Replicas opts)"
  obtain s2 res2 where d: "deployReplicas h up opts ?n [] (r1, u) = (s2, res2)" by (rule prod.exhaust)
  have "ProxyPort ` set (do_PortMappings opts) \<subseteq> ports (snd (r1, u))" using assms(3) by simp
  note db = deployReplicas_backends [OF assms(1) this d]
  obtain es1 where es1: "rt_log (fst s2) = rt_log r1 @ es1" "case res2 of
      Inl e \<Rightarrow> set (targets es1) \<subseteq> set (starts es1)
    | Inr results' \<Rightarrow> targets es1 = [] \<and> (\<forall>e\<in>set es1. \<not> is_removed e) \<and> map dr_ContainerID results' = starts es1"
    using deployReplicas_log [OF assms(2) d] by (cases res2) auto
  show ?thesis
  proof (cases f)
    case (Inl e)
    then show ?thesis using assms(4) f es0 by (auto simp: Deploy_def)
  next
    case f': (Inr existing)
    show ?thesis
    proof (cases res2)
      case (Inl e)
      then have "s2 = (r', u')" "res = Inl e" using assms(4) f f' d by (auto simp: Deploy_def Let_def)
      with Inl db es0 es1 show ?thesis by auto
    next
      case (Inr results)
      let ?old = "removeOld h up (do_PortMappings opts) existing s2"
      have res: "?old = (r', u')" "res = Inr \<lparr>rep_Results = results, rep_RemovedCount = length existing\<rparr>"
        using assms(4) f f' d Inr by (auto simp: Deploy_def Let_def)
      obtain es2 where es2: "rt_log r' = rt_log (fst s2) @ es2" "targets es2 = concat (map (\<lambda>c. [c, c]) existing)" "\<forall>e\<in>set es2. \<not> is_added e"
        using removeOld_log [of h up "do_PortMappings opts" existing s2] res(1) by auto
      moreover obtain es2' where "rt_log r' = rt_log (fst s2) @ es2'" "backends u' = (\<lambda>pp. backends (snd s2) pp - removed_backends es2' pp)"
        using removeOld_backends [of h "do_PortMappings opts" existing s2] res(1) by auto
      ultimately have b: "backends u' = (\<lambda>pp. backends (snd s2) pp - removed_backends es2 pp)" by simp
      have "length results = ?n" "backends (snd s2) = (\<lambda>pp. backends u pp + result_backends results pp)"
        using db Inr by auto
      then show ?thesis using f f' res(2) es0 es1 es2 b Inr
        by simp (rule exI [of _ "es0 @ es1"], rule exI [of _ es2], auto)
    qed
  qed
qed

end

lemma createHealthCheck_harmless:
  "createHealthCheckFunc h httpGet path mappings = Some check \<Longrightarrow> harmless_check check"
proof -
  assume c: "createHealthCheckFunc h httpGet path mappings = Some check"
  show ?thesis unfolding harmless_check_def
  proof (intro allI)
    fix cid r
    obtain r1 g where g: "GetMappedPort h cid (ContainerPort (hd mappings)) r = (r1, g)" by (rule prod.exhaust)
    have "rt_log (fst (check cid r)) = rt_log r1"
      using c g by (auto simp: createHealthCheckFunc_def split: if_splits sum.splits prod.splits)
    with GetMappedPort_log [OF g] show "\<exists>es. rt_log (fst (check cid r)) = rt_log r @ es \<and> (\<forall>e\<in>set es. \<exists>args res. e = Exec (''port'' # args) res)"
      by auto
  qed
qed

lemma ResolvePortMappings_proxyPorts:
  "ResolvePortMappings h imageRef mappings r = (r', Inr ms) \<Longrightarrow> map ProxyPort ms = map ProxyPort mappings"
  by (auto simp: ResolvePortMappings_def split: if_splits prod.splits sum.splits list.splits)

lemma ResolvePortMappings_log:
  "ResolvePortMappings h imageRef mappings r = (r', res) \<Longrightarrow> \<exists>es. rt_log r' = rt_log r @ es \<and> targets es = [] \<and> starts es = []"
proof -
  assume a: "ResolvePortMappings h imageRef mappings r = (r', res)"
  have q: "started (Exec [''image'', ''inspect'', imageRef] out) = None" for out by (cases out) auto
  obtain r1 g where "GetImageExposedPorts h imageRef r = (r1, g)" by (rule prod.exhaust)
  moreover from this obtain out where "rt_log r1 = rt_log r @ [Exec [''image'', ''inspect'', imageRef] out]"
    by (auto simp: GetImageExposedPorts_def dest!: execCommandOutput_log split: prod.splits sum.splits)
  ultimately have "rt_log r' = rt_log r \<or> rt_log r' = rt_log r @ [Exec [''image'', ''inspect'', imageRef] out]"
    using a by (auto simp: ResolvePortMappings_def split: if_splits prod.splits sum.splits list.splits)
  then show ?thesis using q [of out] by auto
qed

lemma deployContainer_failed:
  assumes "fair_ranges h" and "ProxyPort ` set (cc_PortMappings cc) \<subseteq> proxy_ports d"
    and "deployContainer h httpGet (Some cc) appName tag url (Some r, d) = ((rt', d'), Inl e)"
  shows "proxy_backends d' = proxy_backends d \<and>
    (\<exists>r' es. rt' = Some r' \<and> rt_log r' = rt_log r @ es \<and> set (targets es) \<subseteq> set (starts es))"
proof -
  let ?ref = "trimPrefix url ''img://''"
  obtain r1 m where m: "ResolvePortMappings h ?ref (cc_PortMappings cc) r = (r1, m)" by (rule prod.exhaust)
  obtain es1 where es1: "rt_log r1 = rt_log r @ es1" "targets es1 = []" using ResolvePortMappings_log [OF m] by blast
  show ?thesis
  proof (cases m)
    case (Inl err)
    then show ?thesis using assms(3) m es1 by (auto simp: deployContainer_def)
  next
    case (Inr ms)
    let ?opts = "\<lparr>do_ImageRef = ?ref, do_AppName = appName, do_Version = tag, do_Replicas = cc_Replicas cc,
      do_PortMappings = ms, do_Command = cc_Command cc, do_ExtraArgs = cc_ExtraArgs cc,
      do_HealthCheck = createHealthCheckFunc h httpGet (cc_HealthPath cc) ms\<rparr>"
    obtain r2 d2 res where dep: "Deploy h ?opts (Some proxyBackendUpdater) (r1, d) = ((r2, d2), res)" by (metis surj_pair)
    have fail: "res = Inl e" "d' = d2" "rt' = Some r2"
      using assms(3) m Inr dep by (auto simp: deployContainer_def Let_def split: sum.splits)
    have "harmless_opts ?opts" using createHealthCheck_harmless by (auto simp: harmless_opts_def split: option.splits)
    moreover have "ProxyPort ` set (do_PortMappings ?opts) \<subseteq> proxy_ports d"
      using ResolvePortMappings_proxyPorts [OF m [unfolded Inr]] assms(2) by (metis RollingDeployOptions.select_convs(5) set_map)
    ultimately have "proxy_backends d2 = proxy_backends d \<and> (\<exists>es. rt_log r2 = rt_log r1 @ es \<and> set (targets es) \<subseteq> set (starts es))"
      using dewy_proxy.Deploy_cases [OF assms(1), of ?opts d r1 r2 d2 res] dep fail(1) by (simp add: proxyBackendUpdater_def)
    then show ?thesis using fail es1 by auto
  qed
qed

section \<open>Properties\<close>

text \<open>
  Claim C7. A failed deployment leaves the service as it was: when deployContainer reports an
  error, whatever the stage at which it failed, the proxy has exactly the backends it had
  before, and every container that was stopped or removed on the way had been started by this
  same deployment, so no replica of the previous version is touched. The proxies are those of
  the configured port mappings, as startProxy creates them.
\<close>

theorem deployContainer_failure_safe:
  assumes "fair_ranges h" and "ProxyPort ` set (cc_PortMappings cc) \<subseteq> proxy_ports d"
    and "deployContainer h httpGet (Some cc) appName tag url (Some r, d) = ((rt', d'), Inl e)"
  shows "proxy_backends d' = proxy_backends d \<and>
    (\<exists>r' es. rt' = Some r' \<and> rt_log r' = rt_log r @ es \<and> set (targets es) \<subseteq> set (starts es))"
  by (rule deployContainer_failed [OF assms])

text \<open>
  A host for concrete runs: the world counts the containers started, the n-th run prints cn
  and fails from the limit on, the container old1 is running on port 41, a new one on port
  50, and every request is answered with status 200.
\<close>

definition small_host :: "nat \<Rightarrow> nat host" where
  "small_host limit = \<lparr>h_output = (\<lambda>w cmd args.
        if hd args = ''run'' then (if w < limit then (Suc w, Inr (''c'' @ itoa (int w))) else (w, Inl (ExitError ''exit status 125'' ''no space'')))
        else if hd args = ''ps'' then (w, Inr ''old1'')
        else if hd args = ''port'' then (w, Inr (if args ! 1 = ''old1'' then ''127.0.0.1:41'' else ''127.0.0.1:50''))
        else (w, Inr [])),
     h_combined = (\<lambda>w cmd args stdin. (w, [], None)), h_lookPath = (\<lambda>_. None), h_unixNow = int,
     h_rfc3339Now = (\<lambda>_. ''1970-01-01T00:00:17Z''), h_uid = 10, h_gid = 10, h_getenv = (\<lambda>_. []),
     h_rangeLabels = (\<lambda>w ls. (w, ls)), h_rangePorts = (\<lambda>w ps. (w, rev ps)), h_parseTime = (\<lambda>layout s. None),
     h_jsonImages = (\<lambda>_. Inr []), h_jsonContainers = (\<lambda>_. Inr [])\<rparr>"

definition small_runtime :: "nat Runtime" where
  "small_runtime = \<lparr>rt_cmd = ''docker'', rt_drainTime = 0, rt_loggedInRegistries = (\<lambda>_. False), rt_world = 0, rt_log = []\<rparr>"

definition small_config :: ContainerConfig where
  "small_config = \<lparr>cc_Name = ''web'', cc_PortMappings = [\<lparr>ProxyPort = 80, ContainerPort = 8\<rparr>], cc_Replicas = 2, cc_Command = [],
     cc_ExtraArgs = [], cc_HealthPath = ''/up'', cc_HealthTimeout = 30, cc_DrainTime = 0, cc_Runtime = ''docker'', cc_ProxyIdleTimeout = 0\<rparr>"

definition small_proxies :: "unit proxies" where
  "small_proxies = \<lparr>px_world = (), px_map = Some [(80, \<lparr>tp_proxyPort = 80, tp_backends = [mkBackend ''localhost'' 41],
     tp_backendIndex = 0, tp_idleTimeout = 0, tp_metrics = None, tp_done = False\<rparr>)], px_log = []\<rparr>"

lemma fair_small_host: "fair_ranges (small_host n)"
  by (simp add: fair_ranges_def small_host_def)

theorem deployContainer_failure_safe_witness:
  "\<exists>rt' d' e. deployContainer (small_host 1) (\<lambda>w url. (w, Inr 200)) (Some small_config) ''web'' ''v2'' ''img://web:v2''
       (Some small_runtime, small_proxies) = ((rt', d'), Inl e) \<and>
     proxy_backends d' 80 = {#mkBackend ''localhost'' 41#}"
proof -
  let ?run = "deployContainer (small_host 1) (\<lambda>w url. (w, Inr 200)) (Some small_config) ''web'' ''v2'' ''img://web:v2''
       (Some small_runtime, small_proxies)"
  have "isl (snd ?run)" by code_simp
  then obtain rt' d' e where r: "?run = ((rt', d'), Inl e)" by (metis isl_def surj_pair snd_conv)
  have "ProxyPort ` set (cc_PortMappings small_config) \<subseteq> proxy_ports small_proxies"
    by (simp add: small_config_def proxy_ports_def small_proxies_def tcpProxies_def)
  from deployContainer_failure_safe [OF fair_small_host this r]
  have "proxy_backends d' = proxy_backends small_proxies" by blast
  moreover have "proxy_backends small_proxies 80 = {#mkBackend ''localhost'' 41#}"
    by (simp add: proxy_backends_def small_proxies_def tcpProxies_def)
  ultimately show ?thesis using r by auto
qed

text \<open>
  Claim C8. A successful deployment is rolling: its log splits into a first part in which
  every new replica is started and registered while nothing is stopped, removed or taken out
  of the proxy, and a second part in which nothing is added and exactly the containers found
  at the beginning are stopped and removed, one after the other. As many replicas run as were
  asked for (at least one), and the proxy ends with its old backends plus those of the new
  replicas minus the ones taken out in the second part.
\<close>

theorem Deploy_success_rolling:
  assumes "fair_ranges h" and "harmless_opts opts" and "ProxyPort ` set (do_PortMappings opts) \<subseteq> proxy_ports d"
    and "Deploy h opts (Some proxyBackendUpdater) (r, d) = ((r', d'), Inr report)"
  shows "length (rep_Results report) = (if do_Replicas opts \<le> 0 then 1 else nat (do_Replicas opts)) \<and>
    (\<exists>existing pre post. snd (FindContainersByLabel h [(''dewy.managed'', ''true''), (''dewy.app'', do_AppName opts)] r) = Inr existing \<and>
      rt_log r' = rt_log r @ pre @ post \<and> targets pre = [] \<and> (\<forall>e\<in>set pre. \<not> is_removed e) \<and> (\<forall>e\<in>set post. \<not> is_added e) \<and>
      starts pre = map dr_ContainerID (rep_Results report) \<and> targets post = concat (map (\<lambda>c. [c, c]) existing) \<and>
      proxy_backends d' = (\<lambda>pp. proxy_backends d pp + result_backends (rep_Results report) pp - removed_backends post pp))"
  using dewy_proxy.Deploy_cases [OF assms(1,2,3), of r r' d' "Inr report"] assms(4) by (simp add: proxyBackendUpdater_def)

definition small_opts :: "nat RollingDeployOptions" where
  "small_opts = \<lparr>do_ImageRef = ''web:v2'', do_AppName = ''web'', do_Version = ''v2'', do_Replicas = 2,
     do_PortMappings = [\<lparr>ProxyPort = 80, ContainerPort = 8\<rparr>], do_Command = [], do_ExtraArgs = [], do_HealthCheck = None\<rparr>"

theorem Deploy_success_rolling_witness:
  "\<exists>r' d' report pre post. Deploy (small_host 9) small_opts (Some proxyBackendUpdater) (small_runtime, small_proxies) = ((r', d'), Inr report) \<and>
     map dr_ContainerID (rep_Results report) = [''c0'', ''c1''] \<and> rt_log r' = pre @ post \<and> targets pre = [] \<and> starts pre = [''c0'', ''c1''] \<and>
     targets post = [''old1'', ''old1'']"
proof -
  let ?run = "Deploy (small_host 9) small_opts (Some proxyBackendUpdater) (small_runtime, small_proxies)"
  have c: "isl (snd ?run) = False" "map dr_ContainerID (rep_Results (projr (snd ?run))) = [''c0'', ''c1'']" by code_simp+
  then obtain r' d' report where r: "?run = ((r', d'), Inr report)" by (metis isl_def surj_pair snd_conv sum.exhaust_sel sum.collapse(2))
  have f: "snd (FindContainersByLabel (small_host 9) [(''dewy.managed'', ''true''), (''dewy.app'', do_AppName small_opts)] small_runtime) = Inr [''old1'']"
    by code_simp
  have "harmless_opts small_opts" by (simp add: harmless_opts_def small_opts_def)
  moreover have "ProxyPort ` set (do_PortMappings small_opts) \<subseteq> proxy_ports small_proxies"
    by (simp add: small_opts_def proxy_ports_def small_proxies_def tcpProxies_def)
  ultimately obtain existing pre post where e: "snd (FindContainersByLabel (small_host 9) [(''dewy.managed'', ''true''), (''dewy.app'', do_AppName small_opts)] small_runtime) = Inr existing"
      and p: "rt_log r' = rt_log small_runtime @ pre @ post" "targets pre = []" "starts pre = map dr_ContainerID (rep_Results report)"
        "targets post = concat (map (\<lambda>c. [c, c]) existing)"
    using Deploy_success_rolling [OF fair_small_host _ _ r] by blast
  have "existing = [''old1'']" using e f by simp
  moreover have "map dr_ContainerID (rep_Results report) = [''c0'', ''c1'']" using c(2) r by simp
  moreover have "rt_log small_runtime = []" by (simp add: small_runtime_def)
  ultimately show ?thesis using r p
    by (intro exI [of _ r'] exI [of _ d'] exI [of _ report] exI [of _ pre] exI [of _ post]) simp
qed

end
