(* ===== verification/Slack_Color.thy ===== *)
theory Slack_Color
  imports Dewy_Prelude "HOL-Library.Word" "HOL-Library.Log_Nat"
begin

text \<open>
  The colour of a Slack attachment (slack.go): the conversions between RGB and HSL in the
  arithmetic of type float64. A float64 is the rational number it stands for and every operation
  is the exact one followed by rounding to the nearest number with 53 significant bits, ties to
  even. No value here is larger than 400 or, but for zero, smaller than 2 to the power -80, so that
  overflow, subnormal numbers, infinities and NaN do not occur; products and sums are
  rounded separately, as the compiler has it where it does not fuse them (amd64). A rounding error of
  at most \<open>ulp_err\<close> per operation is all that the lemmas use.
\<close>

section \<open>float64\<close>

text \<open>The binary exponent of a number, the greatest e with 2 to the power e not above its size.\<close>

definition binexp :: "rat \<Rightarrow> int" where
  "binexp x = (case quotient_of \<bar>x\<bar> of (n, d) \<Rightarrow>
     let e = bitlen n - bitlen d in if \<bar>x\<bar> < 2 powi e then e - 1 else e)"

definition roundEven :: "rat \<Rightarrow> int" where
  "roundEven y = (let f = \<lfloor>y\<rfloor>; r = y - of_int f in
     if r < 1 / 2 then f else if r > 1 / 2 then f + 1 else if even f then f else f + 1)"

definition fl64 :: "rat \<Rightarrow> rat" where
  "fl64 x = (if x = 0 then 0 else let u = 2 powi (binexp x - 52) in of_int (roundEven (x / u)) * u)"

definition fadd :: "rat \<Rightarrow> rat \<Rightarrow> rat" where "fadd x y = fl64 (x + y)"
definition fsub :: "rat \<Rightarrow> rat \<Rightarrow> rat" where "fsub x y = fl64 (x - y)"
definition fmul :: "rat \<Rightarrow> rat \<Rightarrow> rat" where "fmul x y = fl64 (x * y)"
definition fdiv :: "rat \<Rightarrow> rat \<Rightarrow> rat" where "fdiv x y = fl64 (x / y)"

text \<open>uint8 of a float64 cuts off the fraction and keeps the low byte.\<close>

definition to_uint8 :: "rat \<Rightarrow> 8 word" where
  "to_uint8 x = word_of_int (if x < 0 then \<lceil>x\<rceil> else \<lfloor>x\<rfloor>)"

section \<open>The conversions\<close>

definition isRed :: "8 word \<Rightarrow> 8 word \<Rightarrow> 8 word \<Rightarrow> bool" where
  "isRed r g b = (r \<ge> 0xCC \<and> g \<le> 0x33 \<and> b \<le> 0x33)"

definition rgbToHSL :: "8 word \<Rightarrow> 8 word \<Rightarrow> 8 word \<Rightarrow> rat \<times> rat \<times> rat" where
  "rgbToHSL r g b =
     (let rf = fdiv (of_nat (unat r)) 255; gf = fdiv (of_nat (unat g)) 255; bf = fdiv (of_nat (unat b)) 255;
          mx = rf; mx = (if gf > mx then gf else mx); mx = (if bf > mx then bf else mx);
          mn = rf; mn = (if gf < mn then gf else mn); mn = (if bf < mn then bf else mn);
          l = fdiv (fadd mx mn) 2
      in if mx = mn then (0, 0, l)
         else let d = fsub mx mn;
                  s = (if l > 1 / 2 then fdiv d (fsub (fsub 2 mx) mn) else fdiv d (fadd mx mn));
                  h = (if mx = rf then (let h = fdiv (fsub gf bf) d in if gf < bf then fadd h 6 else h)
                       else if mx = gf then fadd (fdiv (fsub bf rf) d) 2
                       else fadd (fdiv (fsub rf gf) d) 4)
              in (fmul h 60, s, l))"

definition hueToRGB :: "rat \<Rightarrow> rat \<Rightarrow> rat \<Rightarrow> rat" where
  "hueToRGB p q t =
     (let t = (if t < 0 then fadd t 1 else t); t = (if t > 1 then fsub t 1 else t) in
      if t < fl64 (1 / 6) then fadd p (fmul (fmul (fsub q p) 6) t)
      else if t < 1 / 2 then q
      else if t < fl64 (2 / 3) then fadd p (fmul (fmul (fsub q p) (fsub (fl64 (2 / 3)) t)) 6)
      else p)"

definition hslToRGB :: "rat \<Rightarrow> rat \<Rightarrow> rat \<Rightarrow> 8 word \<times> 8 word \<times> 8 word" where
  "hslToRGB h s l =
     (case (if s = 0 then (l, l, l)
        else let q = (if l < 1 / 2 then fmul l (fadd 1 s) else fsub (fadd l s) (fmul l s));
                 p = fsub (fmul 2 l) q; h = fdiv h 360
             in (hueToRGB p q (fadd h (fl64 (1 / 3))), hueToRGB p q h, hueToRGB p q (fsub h (fl64 (1 / 3))))) of
        (rf, gf, bf) \<Rightarrow> (to_uint8 (fadd (fmul rf 255) (1 / 2)), to_uint8 (fadd (fmul gf 255) (1 / 2)), to_uint8 (fadd (fmul bf 255) (1 / 2))))"

text \<open>The branch of genColor for a colour that looks like a failure.\<close>

definition avoidRed :: "8 word \<times> 8 word \<times> 8 word \<Rightarrow> 8 word \<times> 8 word \<times> 8 word" where
  "avoidRed c = (case c of (r, g, b) \<Rightarrow>
     if isRed r g b then
       (case rgbToHSL r g b of (h, sat, l) \<Rightarrow>
         let h = fadd h 35; h = (if h \<ge> 360 then fsub h 360 else h) in hslToRGB h sat l)
     else (r, g, b))"

section \<open>Rounding\<close>

lemma binexp_le:
  assumes "x \<noteq> 0"
  shows "2 powi binexp x \<le> \<bar>x\<bar>"
proof -
  obtain n d where nd: "quotient_of \<bar>x\<bar> = (n, d)" by (rule prod.exhaust)
  then have d: "d > 0" and x: "\<bar>x\<bar> = of_int n / of_int d" using quotient_of_denom_pos quotient_of_div by auto
  with assms have n: "n > 0" by (metis of_int_0_less_iff zero_less_abs_iff zero_less_divide_iff less_asym)
  have pow: "2 powi (bitlen k - 1) \<le> (of_int k :: rat) \<and> (of_int k :: rat) \<le> 2 powi bitlen k" if "k > 0" for k
  proof -
    from bitlen_bounds [OF that] that have b: "2 ^ nat (bitlen k - 1) \<le> k" "k \<le> 2 ^ nat (bitlen k)" and "bitlen k \<ge> 1"
      by (auto simp: bitlen_alt_def)
    then have "2 powi (bitlen k - 1) = (of_int (2 ^ nat (bitlen k - 1)) :: rat)" "2 powi bitlen k = (of_int (2 ^ nat (bitlen k)) :: rat)"
      by (simp_all add: power_int_def)
    with b show ?thesis by (metis of_int_le_iff)
  qed
  have "(2::rat) powi (bitlen n - bitlen d - 1) = 2 powi (bitlen n - 1) / 2 powi bitlen d"
    by (simp flip: power_int_diff add: algebra_simps)
  also have "\<dots> \<le> of_int n / of_int d" using pow [OF n] pow [OF d] n d by (intro frac_le) auto
  finally show ?thesis using nd x by (simp add: binexp_def Let_def not_less)
qed

lemma roundEven_err: "\<bar>of_int (roundEven y) - y\<bar> \<le> 1 / 2"
proof -
  have "of_int \<lfloor>y\<rfloor> \<le> y" "y < of_int \<lfloor>y\<rfloor> + 1" by linarith+
  then show ?thesis by (auto simp: roundEven_def Let_def abs_le_iff)
qed

lemma fl64_rel: "\<bar>fl64 x - x\<bar> \<le> \<bar>x\<bar> / 2 ^ 53"
proof (cases "x = 0")
  case False
  let ?u = "2 powi (binexp x - 52) :: rat"
  have u: "?u > 0" by simp
  have "fl64 x - x = (of_int (roundEven (x / ?u)) - x / ?u) * ?u" using False u by (simp add: fl64_def Let_def field_simps)
  then have "\<bar>fl64 x - x\<bar> = \<bar>of_int (roundEven (x / ?u)) - x / ?u\<bar> * ?u" using u by (simp add: abs_mult)
  also have "\<dots> \<le> 1 / 2 * ?u" using roundEven_err u by (intro mult_right_mono) auto
  also have "\<dots> = 2 powi binexp x / 2 ^ 53" by (simp add: power_int_diff)
  also have "\<dots> \<le> \<bar>x\<bar> / 2 ^ 53" using binexp_le [OF False] by (intro divide_right_mono) auto
  finally show ?thesis .
qed (simp add: fl64_def)

definition ulp_err :: rat where "ulp_err = 1 / 10000000000000"

lemma fl64_err: "\<bar>x\<bar> \<le> 512 \<Longrightarrow> \<bar>fl64 x - x\<bar> \<le> ulp_err"
  using fl64_rel [of x] by (simp add: ulp_err_def)

lemma fl64_0 [simp]: "fl64 0 = 0" by (simp add: fl64_def)

lemma fl_err:
  "\<bar>x + y\<bar> \<le> 512 \<Longrightarrow> \<bar>fadd x y - (x + y)\<bar> \<le> ulp_err" "\<bar>x - y\<bar> \<le> 512 \<Longrightarrow> \<bar>fsub x y - (x - y)\<bar> \<le> ulp_err"
  "\<bar>x * y\<bar> \<le> 512 \<Longrightarrow> \<bar>fmul x y - x * y\<bar> \<le> ulp_err" "\<bar>x / y\<bar> \<le> 512 \<Longrightarrow> \<bar>fdiv x y - x / y\<bar> \<le> ulp_err"
  using fl64_err by (simp_all add: fadd_def fsub_def fmul_def fdiv_def)

text \<open>The same with operands that are themselves near exact ones.\<close>

lemma near_add: "\<bar>x' - x\<bar> \<le> a \<Longrightarrow> \<bar>y' - y\<bar> \<le> b \<Longrightarrow> \<bar>x + y\<bar> + a + b \<le> 512 \<Longrightarrow> \<bar>fadd x' y' - (x + y)\<bar> \<le> a + b + ulp_err"
  using fl_err(1) [of x' y'] by linarith

lemma near_sub: "\<bar>x' - x\<bar> \<le> a \<Longrightarrow> \<bar>y' - y\<bar> \<le> b \<Longrightarrow> \<bar>x - y\<bar> + a + b \<le> 512 \<Longrightarrow> \<bar>fsub x' y' - (x - y)\<bar> \<le> a + b + ulp_err"
  using fl_err(2) [of x' y'] by linarith

lemma near_mul:
  assumes "\<bar>x' - x\<bar> \<le> a" and "\<bar>y' - y\<bar> \<le> b" and "\<bar>x\<bar> \<le> c" and "\<bar>y\<bar> \<le> d" and "c * b + d * a + a * b \<le> e" and "c * d + e \<le> 512"
  shows "\<bar>fmul x' y' - x * y\<bar> \<le> e + ulp_err"
proof -
  have "x' * y' - x * y = x * (y' - y) + y * (x' - x) + (x' - x) * (y' - y)" by (simp add: algebra_simps)
  moreover have "\<bar>x * (y' - y)\<bar> \<le> c * b" "\<bar>y * (x' - x)\<bar> \<le> d * a" "\<bar>(x' - x) * (y' - y)\<bar> \<le> a * b" "\<bar>x * y\<bar> \<le> c * d"
    using assms(1-4) by (simp_all only: abs_mult) (intro mult_mono; linarith)+
  ultimately have "\<bar>x' * y' - x * y\<bar> \<le> e" "\<bar>x' * y'\<bar> \<le> 512" using assms(5,6) by linarith+
  then show ?thesis using fl_err(3) [of x' y'] by linarith
qed

lemma near_div:
  assumes "\<bar>x' - x\<bar> \<le> e" and "\<bar>y' - y\<bar> \<le> e" and "\<bar>x\<bar> \<le> y" and "1 / 255 \<le> y" and "e \<le> 1 / 1000000"
  shows "\<bar>fdiv x' y' - x / y\<bar> \<le> 512 * e + ulp_err"
proof -
  have y: "y > 0" "y' \<ge> 1 / 256" using assms by linarith+
  have "\<bar>x' * y - x * y'\<bar> = \<bar>(x' - x) * y - x * (y' - y)\<bar>" by (simp add: algebra_simps)
  also have "\<dots> \<le> \<bar>x' - x\<bar> * y + \<bar>x\<bar> * \<bar>y' - y\<bar>" using y by (metis abs_mult abs_of_pos abs_triangle_ineq4)
  also have "\<dots> \<le> e * y + y * e" using assms y by (intro add_mono mult_mono) auto
  finally have n: "\<bar>x' * y - x * y'\<bar> \<le> 2 * e * y" by (simp add: algebra_simps)
  have "x' / y' - x / y = (x' * y - x * y') / (y' * y)" using y by (simp add: field_simps)
  then have "\<bar>x' / y' - x / y\<bar> = \<bar>x' * y - x * y'\<bar> / (y' * y)" using y by (simp add: abs_mult)
  also have "\<dots> \<le> 2 * e * y / (y' * y)" using n y by (intro divide_right_mono) auto
  also have "\<dots> = 2 * e / y'" using y by simp
  also have "\<dots> \<le> 2 * e / (1 / 256)" using y assms(1) by (intro divide_left_mono) auto
  finally have q: "\<bar>x' / y' - x / y\<bar> \<le> 512 * e" by simp
  moreover have "\<bar>x / y\<bar> \<le> 1" using assms(3) y by simp
  ultimately have "\<bar>x' / y'\<bar> \<le> 512" using assms(5) by linarith
  with q show ?thesis using fl_err(4) [of x' y'] by linarith
qed

section \<open>The hue\<close>

text \<open>The share of the largest component at a position of the colour circle.\<close>

definition wheel :: "rat \<Rightarrow> rat" where
  "wheel t = (if t < 0 then 0 else if t < 1 / 6 then 6 * t else if t < 1 / 2 then 1 else if t < 2 / 3 then 4 - 6 * t
     else if t < 1 then 0 else if t < 7 / 6 then 6 * t - 6 else 1)"

lemma wheel_range: "0 \<le> wheel t" "wheel t \<le> 1"
  by (auto simp: wheel_def)

lemma wheel_step: "x - y \<le> e \<Longrightarrow> y - x \<le> e \<Longrightarrow> wheel x - wheel y \<le> 6 * e"
  unfolding wheel_def by (simp split: if_split)

lemma wheel_lipschitz: "\<bar>x - y\<bar> \<le> e \<Longrightarrow> \<bar>wheel x - wheel y\<bar> \<le> 6 * e"
  using wheel_step [of x y e] wheel_step [of y x e] by linarith

lemma wheel_period: "- 1 / 3 \<le> t \<Longrightarrow> t \<le> 1 / 3 \<Longrightarrow> \<bar>wheel (t + 1) - wheel t\<bar> \<le> 6 * max 0 t + 6 * max 0 t"
  by (auto simp: wheel_def max_def)

lemma wheel_period_up: "1 - e \<le> t \<Longrightarrow> t \<le> 4 / 3 \<Longrightarrow> 0 \<le> e \<Longrightarrow> e \<le> 1 / 100 \<Longrightarrow> \<bar>wheel (t - 1) - wheel t\<bar> \<le> 6 * e"
  by (auto simp: wheel_def)

text \<open>The fraction that the code computes at a position between 0 and 1.\<close>

lemma wheel_computed:
  assumes "- e \<le> t" "t \<le> 1 + e" "\<bar>sixth - 1 / 6\<bar> \<le> e" "\<bar>third - 2 / 3\<bar> \<le> e" "e \<le> 1 / 100"
  shows "\<bar>(if t < sixth then 6 * t else if t < 1 / 2 then 1 else if t < third then (third - t) * 6 else 0) - wheel t\<bar> \<le> 6 * e"
  using assms unfolding wheel_def abs_le_iff by (simp split: if_split)

lemma hueToRGB_near:
  assumes "\<bar>t - t0\<bar> \<le> 1 / 1000000000" and "- 1 / 3 \<le> t0" and "t0 \<le> 4 / 3" and "\<bar>p\<bar> \<le> 2" and "\<bar>q\<bar> \<le> 2"
  shows "\<exists>f. \<bar>f - wheel t0\<bar> \<le> 1 / 10000000 \<and> \<bar>hueToRGB p q t - (p + (q - p) * f)\<bar> \<le> 1 / 100000000"
proof -
  define t1 where "t1 = (if t < 0 then fadd t 1 else t)"
  define t2 where "t2 = (if t1 > 1 then fsub t1 1 else t1)"
  define third where "third = fl64 (2 / 3)"
  define sixth where "sixth = fl64 (1 / 6)"
  have u: "\<bar>sixth - 1 / 6\<bar> \<le> ulp_err" "\<bar>third - 2 / 3\<bar> \<le> ulp_err" "ulp_err = 1 / 10000000000000"
    unfolding sixth_def third_def using fl64_err [of "1 / 6"] fl64_err [of "2 / 3"] by (simp_all add: ulp_err_def)
  have t1: "\<bar>t1 - (if t < 0 then t + 1 else t)\<bar> \<le> ulp_err" using fl_err(1) [of t 1] assms u(3) by (auto simp: t1_def)
  have "\<bar>t1 - 1\<bar> \<le> 512" using t1 assms(1-3) u(3) by (cases "t < 0"; simp; linarith)
  then have t2: "\<bar>t2 - (if t1 > 1 then t1 - 1 else t1)\<bar> \<le> ulp_err" using fl_err(2) [of t1 1] u(3) by (simp add: t2_def)
  have r: "- ulp_err \<le> t2 \<and> t2 \<le> 1 + ulp_err \<and> (\<bar>t2 - t0\<bar> \<le> 2 / 1000000000 \<or>
      \<bar>t2 - (t0 + 1)\<bar> \<le> 2 / 1000000000 \<and> t0 \<le> 1 / 1000000000 \<or> \<bar>t2 - (t0 - 1)\<bar> \<le> 2 / 1000000000 \<and> t0 \<ge> 1 - 2 / 1000000000)"
  proof -
    consider "t < 0" "t1 \<le> 1" | "t < 0" "t1 > 1" | "t \<ge> 0" "t1 \<le> 1" | "t \<ge> 0" "t1 > 1" by linarith
    then show ?thesis
    proof cases
      case 1
      with t1 t2 have "\<bar>t1 - (t + 1)\<bar> \<le> ulp_err" "\<bar>t2 - t1\<bar> \<le> ulp_err" by auto
      with 1 have "\<bar>t2 - (t0 + 1)\<bar> \<le> 2 / 1000000000" "t0 \<le> 1 / 1000000000" "- ulp_err \<le> t2" "t2 \<le> 1 + ulp_err"
        using assms(1-3) u(3) by linarith+
      then show ?thesis by blast
    next
      case 2
      with t1 t2 have "\<bar>t1 - (t + 1)\<bar> \<le> ulp_err" "\<bar>t2 - (t1 - 1)\<bar> \<le> ulp_err" by auto
      with 2 have "\<bar>t2 - t0\<bar> \<le> 2 / 1000000000" "- ulp_err \<le> t2" "t2 \<le> 1 + ulp_err"
        using assms(1-3) u(3) by linarith+
      then show ?thesis by blast
    next
      case 3
      then have "t1 = t" "t2 = t1" by (simp_all add: t1_def t2_def)
      with 3 have "\<bar>t2 - t0\<bar> \<le> 2 / 1000000000" "- ulp_err \<le> t2" "t2 \<le> 1 + ulp_err"
        using assms(1-3) u(3) by linarith+
      then show ?thesis by blast
    next
      case 4
      with t1 t2 have "\<bar>t1 - t\<bar> \<le> ulp_err" "\<bar>t2 - (t1 - 1)\<bar> \<le> ulp_err" by auto
      with 4 have "\<bar>t2 - (t0 - 1)\<bar> \<le> 2 / 1000000000" "t0 \<ge> 1 - 2 / 1000000000" "- ulp_err \<le> t2" "t2 \<le> 1 + ulp_err"
        using assms(1-3) u(3) by linarith+
      then show ?thesis by blast
    qed
  qed
  then have r3: "\<bar>t2\<bar> \<le> 2" using u(3) by linarith
  define f where "f = (if t2 < sixth then 6 * t2 else if t2 < 1 / 2 then 1 else if t2 < third then (third - t2) * 6 else 0)"
  have "\<bar>f - wheel t2\<bar> \<le> 6 * ulp_err" unfolding f_def using r u by (intro wheel_computed) auto
  moreover have "\<bar>wheel t2 - wheel t0\<bar> \<le> 3 / 100000000"
    using r
  proof (elim conjE disjE)
    assume "\<bar>t2 - t0\<bar> \<le> 2 / 1000000000"
    from wheel_lipschitz [OF this] show ?thesis by linarith
  next
    assume n: "\<bar>t2 - (t0 + 1)\<bar> \<le> 2 / 1000000000" "t0 \<le> 1 / 1000000000"
    then have "max 0 t0 \<le> 1 / 1000000000" by simp
    with wheel_lipschitz [OF n(1)] wheel_period [of t0] n(2) assms(2) show ?thesis by linarith
  next
    assume n: "\<bar>t2 - (t0 - 1)\<bar> \<le> 2 / 1000000000" "1 - 2 / 1000000000 \<le> t0"
    from wheel_lipschitz [OF n(1)] wheel_period_up [OF n(2) assms(3)] show ?thesis by linarith
  qed
  ultimately have "\<bar>f - wheel t0\<bar> \<le> 1 / 10000000" using u(3) by linarith
  moreover have h: "hueToRGB p q t = (if t2 < sixth then fadd p (fmul (fmul (fsub q p) 6) t2) else if t2 < 1 / 2 then q
      else if t2 < third then fadd p (fmul (fmul (fsub q p) (fsub third t2)) 6) else p)"
    unfolding hueToRGB_def t2_def t1_def sixth_def third_def Let_def by (rule refl)
  have qp: "\<bar>fsub q p - (q - p)\<bar> \<le> ulp_err" "\<bar>q - p\<bar> \<le> 4" using fl_err(2) [of q p] assms(4,5) by linarith+
  have "\<bar>hueToRGB p q t - (p + (q - p) * f)\<bar> \<le> 1 / 100000000"
  proof -
    have "\<bar>fmul (fsub q p) 6 - (q - p) * 6\<bar> \<le> 6 * ulp_err + ulp_err"
      by (rule near_mul [where b = 0 and c = 4 and d = 6]) (use qp u(3) in auto)
    then have "\<bar>fmul (fmul (fsub q p) 6) t2 - (q - p) * 6 * t2\<bar> \<le> 14 * ulp_err + ulp_err"
      by (rule near_mul [where b = 0 and c = 24 and d = 2]) (use qp u(3) r3 in auto)
    then have 1: "\<bar>fadd p (fmul (fmul (fsub q p) 6) t2) - (p + (q - p) * 6 * t2)\<bar> \<le> 0 + (14 * ulp_err + ulp_err) + ulp_err" if "t2 < sixth"
    proof (rule near_add [rotated])
      have "\<bar>(q - p) * 6 * t2\<bar> \<le> 4 * 6 * 2" using qp(2) r3 unfolding abs_mult by (intro mult_mono) auto
      then show "\<bar>p + (q - p) * 6 * t2\<bar> + 0 + (14 * ulp_err + ulp_err) \<le> 512" using assms(4) u(3) by linarith
    qed simp
    have "\<bar>fsub third t2 - (third - t2)\<bar> \<le> ulp_err" using fl_err(2) [of third t2] r3 u by linarith
    with qp(1) have "\<bar>fmul (fsub q p) (fsub third t2) - (q - p) * (third - t2)\<bar> \<le> 10 * ulp_err + ulp_err"
      by (rule near_mul [where c = 4 and d = 4]) (use qp u r3 in \<open>auto simp: abs_le_iff\<close>)
    moreover have m: "\<bar>(q - p) * (third - t2)\<bar> \<le> 4 * 4" using qp(2) r3 u unfolding abs_mult by (intro mult_mono) auto
    ultimately have "\<bar>fmul (fmul (fsub q p) (fsub third t2)) 6 - (q - p) * (third - t2) * 6\<bar> \<le> 66 * ulp_err + ulp_err"
      by (intro near_mul [where b = 0 and c = 16 and d = 6]) (use u(3) in auto)
    then have 3: "\<bar>fadd p (fmul (fmul (fsub q p) (fsub third t2)) 6) - (p + (q - p) * (third - t2) * 6)\<bar> \<le> 0 + (66 * ulp_err + ulp_err) + ulp_err"
    proof (rule near_add [rotated])
      show "\<bar>p + (q - p) * (third - t2) * 6\<bar> + 0 + (66 * ulp_err + ulp_err) \<le> 512" using m assms(4) u(3) by linarith
    qed simp
    show ?thesis
    proof (cases "t2 < sixth")
      case True
      with 1 u(3) show ?thesis by (simp add: h f_def algebra_simps)
    next
      case F: False
      show ?thesis
      proof (cases "t2 < 1 / 2")
        case True
        with F show ?thesis by (simp add: h f_def)
      next
        case False
        with F 3 u(3) show ?thesis by (simp add: h f_def algebra_simps)
      qed
    qed
  qed
  ultimately show ?thesis by blast
qed

section \<open>Saturation and lightness\<close>

definition hsl_q :: "rat \<Rightarrow> rat \<Rightarrow> rat" where
  "hsl_q l s = (if l < 1 / 2 then fmul l (fadd 1 s) else fsub (fadd l s) (fmul l s))"

definition hsl_p :: "rat \<Rightarrow> rat \<Rightarrow> rat" where
  "hsl_p l s = fsub (fmul 2 l) (hsl_q l s)"

lemma ulp: "ulp_err = 1 / 10000000000000" by (simp add: ulp_err_def)

lemma light_near:
  assumes "\<bar>mx - M\<bar> \<le> ulp_err" and "\<bar>mn - m\<bar> \<le> ulp_err" and "0 \<le> m" and "m \<le> M" and "M \<le> 1"
  shows "\<bar>fdiv (fadd mx mn) 2 - (M + m) / 2\<bar> \<le> 5 * ulp_err"
proof -
  have "\<bar>fadd mx mn - (M + m)\<bar> \<le> ulp_err + ulp_err + ulp_err"
    by (rule near_add [OF assms(1,2)]) (use assms(3-5) ulp in linarith)
  moreover from this have "\<bar>fdiv (fadd mx mn) 2 - fadd mx mn / 2\<bar> \<le> ulp_err"
    by (intro fl_err(4)) (use assms(3-5) ulp in linarith)
  ultimately show ?thesis using ulp unfolding abs_le_iff by (simp add: add_divide_distrib)
qed

lemma sat_near:
  assumes "\<bar>mx - M\<bar> \<le> ulp_err" and "\<bar>mn - m\<bar> \<le> ulp_err" and "0 \<le> m" and "M \<le> 1" and "1 / 255 \<le> M - m"
  defines "l \<equiv> fdiv (fadd mx mn) 2" and "d \<equiv> fsub mx mn"
  defines "s \<equiv> (if l > 1 / 2 then fdiv d (fsub (fsub 2 mx) mn) else fdiv d (fadd mx mn))"
  shows "s \<noteq> 0" and "\<bar>hsl_q l s - M\<bar> \<le> 1 / 1000000000" and "\<bar>hsl_p l s - m\<bar> \<le> 1 / 1000000000"
proof -
  have l: "\<bar>l - (M + m) / 2\<bar> \<le> 5 * ulp_err" unfolding l_def using assms(1-5) by (intro light_near) auto
  have small: "\<bar>M - m\<bar> + ulp_err + ulp_err \<le> 512" "\<bar>M + m\<bar> + ulp_err + ulp_err \<le> 512" "\<bar>2 - M\<bar> + 0 + ulp_err \<le> 512"
      "\<bar>2 - M - m\<bar> + (0 + ulp_err + ulp_err) + ulp_err \<le> 512" "\<bar>2 - 2 :: rat\<bar> \<le> 0"
    using assms(3-5) ulp by linarith+
  have d: "\<bar>d - (M - m)\<bar> \<le> 4 * ulp_err" using near_sub [OF assms(1,2) small(1)] ulp unfolding d_def by linarith
  have low: "\<bar>fadd mx mn - (M + m)\<bar> \<le> 4 * ulp_err" using near_add [OF assms(1,2) small(2)] ulp by linarith
  have high: "\<bar>fsub (fsub 2 mx) mn - (2 - M - m)\<bar> \<le> 4 * ulp_err"
    using near_sub [OF near_sub [OF small(5) assms(1) small(3)] assms(2) small(4)] by linarith
  have "\<exists>e. \<bar>s - e\<bar> \<le> 2049 * ulp_err \<and> 1 / 510 \<le> e \<and> e \<le> 1 \<and>
      (if l > 1 / 2 then e * (2 - M - m) = M - m else e * (M + m) = M - m)"
  proof (cases "l > 1 / 2")
    case True
    have "\<bar>fdiv d (fsub (fsub 2 mx) mn) - (M - m) / (2 - M - m)\<bar> \<le> 512 * (4 * ulp_err) + ulp_err"
      by (rule near_div [OF d high]) (use assms(3-5) ulp in linarith)+
    moreover have "(M - m) / (2 - M - m) * (2 - M - m) = M - m" "(M - m) / (2 - M - m) \<le> 1" "1 / 510 \<le> (M - m) / (2 - M - m)"
      using assms(3-5) by (simp_all add: field_simps)
    ultimately show ?thesis using True by (intro exI [of _ "(M - m) / (2 - M - m)"]) (simp add: s_def)
  next
    case False
    have "\<bar>fdiv d (fadd mx mn) - (M - m) / (M + m)\<bar> \<le> 512 * (4 * ulp_err) + ulp_err"
      by (rule near_div [OF d low]) (use assms(3-5) ulp in linarith)+
    moreover have "(M - m) / (M + m) * (M + m) = M - m" "(M - m) / (M + m) \<le> 1" "1 / 510 \<le> (M - m) / (M + m)"
      using assms(3-5) by (simp_all add: field_simps)
    ultimately show ?thesis using False by (intro exI [of _ "(M - m) / (M + m)"]) (simp add: s_def)
  qed
  then obtain e where e: "\<bar>s - e\<bar> \<le> 2049 * ulp_err" "1 / 510 \<le> e" "e \<le> 1"
      "if l > 1 / 2 then e * (2 - M - m) = M - m else e * (M + m) = M - m" by blast
  show "s \<noteq> 0" using e(1,2) ulp by (auto simp: abs_le_iff)
  have q: "\<bar>hsl_q l s - M\<bar> \<le> 1 / 2000000000"
  proof (cases "l < 1 / 2")
    case True
    have "\<bar>fadd 1 s - (1 + e)\<bar> \<le> 0 + 2049 * ulp_err + ulp_err" by (rule near_add) (use e ulp in auto)
    with l have "\<bar>fmul l (fadd 1 s) - (M + m) / 2 * (1 + e)\<bar> \<le> 2100 * ulp_err + ulp_err"
      by (rule near_mul [where c = 1 and d = 2]) (use e assms(3-5) ulp in auto)
    moreover have "(M + m) / 2 * (1 + e) = M" using e(4) True by (simp add: field_simps)
    ultimately show ?thesis using True ulp by (simp add: hsl_q_def)
  next
    case False
    define L where "L = (if l > 1 / 2 then (M + m) / 2 else 1 / 2)"
    have L: "\<bar>l - L\<bar> \<le> 5 * ulp_err" "\<bar>L - (M + m) / 2\<bar> \<le> 5 * ulp_err" "0 \<le> L" "L \<le> 1"
      using l False assms(3-5) ulp by (auto simp: L_def)
    have "\<bar>fadd l s - (L + e)\<bar> \<le> 5 * ulp_err + 2049 * ulp_err + ulp_err" by (rule near_add [OF L(1) e(1)]) (use e L ulp in linarith)
    moreover have "\<bar>fmul l s - L * e\<bar> \<le> 2100 * ulp_err + ulp_err"
      by (rule near_mul [OF L(1) e(1), where c = 1 and d = 1]) (use e L ulp in auto)
    moreover have "\<bar>L * e\<bar> \<le> 1 * 1" using e L unfolding abs_mult by (intro mult_mono) auto
    moreover from this have "\<bar>L + e - L * e\<bar> + (5 * ulp_err + 2049 * ulp_err + ulp_err) + (2100 * ulp_err + ulp_err) \<le> 512"
      using e(2,3) L(3,4) ulp by linarith
    ultimately have n: "\<bar>fsub (fadd l s) (fmul l s) - (L + e - L * e)\<bar> \<le> 4200 * ulp_err"
      using near_sub ulp by fastforce
    have "\<bar>L + e - L * e - M\<bar> \<le> 10 * ulp_err"
    proof (cases "l > 1 / 2")
      case True
      then have "L + e - L * e = M" using e(4) by (simp add: L_def field_simps)
      then show ?thesis using ulp by simp
    next
      case False
      then have "L + e - L * e - M = (L - (M + m) / 2) * (1 + e)" using e(4) \<open>\<not> l < 1 / 2\<close> by (simp add: L_def field_simps)
      moreover have "\<bar>(L - (M + m) / 2) * (1 + e)\<bar> \<le> 5 * ulp_err * 2" using e L unfolding abs_mult by (intro mult_mono) auto
      ultimately show ?thesis by simp
    qed
    with n ulp have "\<bar>fsub (fadd l s) (fmul l s) - M\<bar> \<le> 1 / 2000000000" by linarith
    with False show ?thesis by (simp add: hsl_q_def)
  qed
  then show "\<bar>hsl_q l s - M\<bar> \<le> 1 / 1000000000" by linarith
  have "\<bar>fmul 2 l - 2 * ((M + m) / 2)\<bar> \<le> 10 * ulp_err + ulp_err"
    by (rule near_mul [OF _ l, where a = 0 and c = 2 and d = 1]) (use assms(3-5) ulp in auto)
  from near_sub [OF this q] show "\<bar>hsl_p l s - m\<bar> \<le> 1 / 1000000000"
    using assms(3-5) ulp by (simp add: hsl_p_def field_simps)
qed

section \<open>From a colour to its hue\<close>

definition shade :: "8 word \<Rightarrow> rat" where "shade c = of_nat (unat c) / 255"

definition fshade :: "8 word \<Rightarrow> rat" where "fshade c = fdiv (of_nat (unat c)) 255"

lemma shade_range: "0 \<le> shade c" "shade c \<le> 1"
proof -
  have "unat c < 256" using unsigned_less [of c] by simp
  then show "0 \<le> shade c" "shade c \<le> 1" by (simp_all add: shade_def del: of_nat_unat)
qed

lemma shade_less: "shade a < shade b \<longleftrightarrow> a < b" "shade a \<le> shade b \<longleftrightarrow> a \<le> b" "shade a = shade b \<longleftrightarrow> a = b"
  by (simp_all add: shade_def word_less_nat_alt word_le_nat_alt divide_less_cancel divide_le_cancel word_unat_eq_iff del: of_nat_unat)

lemma shade_gap: "a < b \<Longrightarrow> 1 / 255 \<le> shade b - shade a"
proof -
  assume "a < b"
  then have "of_nat (unat a + 1) \<le> (of_nat (unat b) :: rat)" by (simp only: of_nat_le_iff word_less_nat_alt)
  then show ?thesis by (simp add: shade_def field_simps)
qed

lemma fshade_near: "\<bar>fshade c - shade c\<bar> \<le> ulp_err"
  using shade_range [of c] fl_err(4) [of "of_nat (unat c)" 255] unfolding fshade_def shade_def by linarith

lemma fshade_less: "fshade a < fshade b \<longleftrightarrow> a < b" "fshade a = fshade b \<longleftrightarrow> a = b"
proof -
  have l: "fshade a < fshade b" if "a < b" for a b
    using shade_gap [OF that] fshade_near [of a] fshade_near [of b] ulp by linarith
  show "fshade a < fshade b \<longleftrightarrow> a < b" using l [of a b] l [of b a] by (metis linorder_neqE less_asym)
  show "fshade a = fshade b \<longleftrightarrow> a = b" using l [of a b] l [of b a] by (metis linorder_neqE less_irrefl)
qed

lemma rgbToHSL_words:
  "rgbToHSL r g b =
     (let M = max r (max g b); m = min r (min g b); l = fdiv (fadd (fshade M) (fshade m)) 2; d = fsub (fshade M) (fshade m)
      in if M = m then (0, 0, l)
         else (fmul (if M = r then (if g < b then fadd (fdiv (fsub (fshade g) (fshade b)) d) 6 else fdiv (fsub (fshade g) (fshade b)) d)
                 else if M = g then fadd (fdiv (fsub (fshade b) (fshade r)) d) 2 else fadd (fdiv (fsub (fshade r) (fshade g)) d) 4) 60,
               if l > 1 / 2 then fdiv d (fsub (fsub 2 (fshade M)) (fshade m)) else fdiv d (fadd (fshade M) (fshade m)), l))"
proof -
  have "(if fshade b > (if fshade g > fshade r then fshade g else fshade r) then fshade b else if fshade g > fshade r then fshade g else fshade r) = fshade (max r (max g b))"
    by (auto simp: fshade_less max_def)
  note mx = this
  have mn: "(if fshade b < (if fshade g < fshade r then fshade g else fshade r) then fshade b else if fshade g < fshade r then fshade g else fshade r) = fshade (min r (min g b))"
    by (auto simp: fshade_less min_def)
  show ?thesis unfolding rgbToHSL_def Let_def fshade_def [symmetric] mx mn unfolding fshade_less by (rule refl)
qed

text \<open>The exact hue, as a fraction of the circle.\<close>

definition exact_hue :: "8 word \<Rightarrow> 8 word \<Rightarrow> 8 word \<Rightarrow> rat" where
  "exact_hue r g b = (let M = max r (max g b); d = shade M - shade (min r (min g b)) in
     if M = r then (if g < b then (shade g - shade b) / d / 6 + 1 else (shade g - shade b) / d / 6)
     else if M = g then (shade b - shade r) / d / 6 + 1 / 3 else (shade r - shade g) / d / 6 + 2 / 3)"

lemma wheel_red: "- 1 \<le> z \<Longrightarrow> z \<le> 1 \<Longrightarrow> h = (if z < 0 then z / 6 + 1 else z / 6) \<Longrightarrow> wheel (h + 1 / 3) = 1 \<and> wheel h = max 0 z \<and> wheel (h - 1 / 3) = max 0 (- z) \<and> 0 \<le> h \<and> h \<le> 1"
  by (auto simp: wheel_def)

lemma wheel_green: "- 1 \<le> z \<Longrightarrow> z \<le> 1 \<Longrightarrow> h = z / 6 + 1 / 3 \<Longrightarrow> wheel (h + 1 / 3) = max 0 (- z) \<and> wheel h = 1 \<and> wheel (h - 1 / 3) = max 0 z \<and> 0 \<le> h \<and> h \<le> 1"
  by (auto simp: wheel_def)

lemma wheel_blue: "- 1 \<le> z \<Longrightarrow> z \<le> 1 \<Longrightarrow> h = z / 6 + 2 / 3 \<Longrightarrow> wheel (h + 1 / 3) = max 0 z \<and> wheel h = max 0 (- z) \<and> wheel (h - 1 / 3) = 1 \<and> 0 \<le> h \<and> h \<le> 1"
  by (auto simp: wheel_def)

lemma share: "(d :: rat) > 0 \<Longrightarrow> d * max 0 (x / d) = max 0 x" "(d :: rat) > 0 \<Longrightarrow> d * max 0 (- (x / d)) = max 0 (- x)"
  by (auto simp: max_def zero_le_divide_iff divide_le_0_iff)

text \<open>The exact hue leads back to the three components.\<close>

lemma hue_back:
  assumes "max r (max g b) \<noteq> min r (min g b)"
  defines "M \<equiv> shade (max r (max g b))" and "m \<equiv> shade (min r (min g b))"
  shows "m + (M - m) * wheel (exact_hue r g b + 1 / 3) = shade r" and "m + (M - m) * wheel (exact_hue r g b) = shade g"
    and "m + (M - m) * wheel (exact_hue r g b - 1 / 3) = shade b" and "0 \<le> exact_hue r g b" and "exact_hue r g b \<le> 1"
proof -
  have "min r (min g b) < max r (max g b)" using assms(1) by (auto simp: max_def min_def)
  then have d: "M - m > 0" by (simp add: M_def m_def shade_less)
  have le: "m \<le> shade r" "shade r \<le> M" "m \<le> shade g" "shade g \<le> M" "m \<le> shade b" "shade b \<le> M"
    by (simp_all add: M_def m_def shade_less le_max_iff_disj min_le_iff_disj)
  have z: "- 1 \<le> (shade x - shade y) / (M - m)" "(shade x - shade y) / (M - m) \<le> 1" if "shade x \<le> M" "m \<le> shade x" "shade y \<le> M" "m \<le> shade y" for x y
    using that d by (simp_all add: field_simps)
  have "(m + (M - m) * wheel (exact_hue r g b + 1 / 3) = shade r \<and> m + (M - m) * wheel (exact_hue r g b) = shade g \<and> m + (M - m) * wheel (exact_hue r g b - 1 / 3) = shade b) \<and>
      0 \<le> exact_hue r g b \<and> exact_hue r g b \<le> 1"
  proof (cases "max r (max g b) = r")
    case True
    let ?z = "(shade g - shade b) / (M - m)"
    have "?z < 0 \<longleftrightarrow> g < b" using d by (simp add: divide_less_0_iff shade_less)
    then have h: "exact_hue r g b = (if ?z < 0 then ?z / 6 + 1 else ?z / 6)"
      by (simp only: exact_hue_def Let_def M_def m_def if_P [OF True])
    have mm: "m = shade (min g b)" "M = shade r" using True by (auto simp: m_def M_def shade_less max_def min_def split: if_splits)
    have "max 0 (shade g - shade b) = shade g - m" "max 0 (- (shade g - shade b)) = shade b - m"
      unfolding mm by (auto simp: max_def min_def shade_less)
    with wheel_red [OF z(1) [OF le(4,3,6,5)] z(2) [OF le(4,3,6,5)] h] share [OF d] mm(2) show ?thesis by auto
  next
    case F: False
    show ?thesis
    proof (cases "max r (max g b) = g")
      case True
      let ?z = "(shade b - shade r) / (M - m)"
      have h: "exact_hue r g b = ?z / 6 + 1 / 3" using True F by (simp add: exact_hue_def Let_def M_def m_def)
      have mm: "m = shade (min r b)" "M = shade g" using True by (auto simp: m_def M_def shade_less max_def min_def split: if_splits)
      have "max 0 (shade b - shade r) = shade b - m" "max 0 (- (shade b - shade r)) = shade r - m"
        unfolding mm by (auto simp: max_def min_def shade_less)
      with wheel_green [OF z(1) [OF le(6,5,2,1)] z(2) [OF le(6,5,2,1)] h] share [OF d] mm(2) show ?thesis by auto
    next
      case False
      let ?z = "(shade r - shade g) / (M - m)"
      have h: "exact_hue r g b = ?z / 6 + 2 / 3" using False F by (simp add: exact_hue_def Let_def M_def m_def)
      have mm: "m = shade (min r g)" "M = shade b" using False F by (auto simp: m_def M_def shade_less max_def min_def split: if_splits)
      have "max 0 (shade r - shade g) = shade r - m" "max 0 (- (shade r - shade g)) = shade g - m"
        unfolding mm by (auto simp: max_def min_def shade_less)
      with wheel_blue [OF z(1) [OF le(2,1,4,3)] z(2) [OF le(2,1,4,3)] h] share [OF d] mm(2) show ?thesis by auto
    qed
  qed
  then show "m + (M - m) * wheel (exact_hue r g b + 1 / 3) = shade r" "m + (M - m) * wheel (exact_hue r g b) = shade g"
    "m + (M - m) * wheel (exact_hue r g b - 1 / 3) = shade b" "0 \<le> exact_hue r g b" "exact_hue r g b \<le> 1" by blast+
qed

lemma hue_ratio_near:
  assumes "\<bar>D' - D\<bar> \<le> 4 * ulp_err" and "1 / 255 \<le> D" and "\<bar>shade x - shade y\<bar> \<le> D"
  shows "\<bar>fdiv (fsub (fshade x) (fshade y)) D' - (shade x - shade y) / D\<bar> \<le> 2049 * ulp_err"
    and "0 \<le> k \<Longrightarrow> k \<le> 6 \<Longrightarrow> \<bar>fadd (fdiv (fsub (fshade x) (fshade y)) D') k - ((shade x - shade y) / D + k)\<bar> \<le> 2050 * ulp_err"
proof -
  have "\<bar>shade x - shade y\<bar> + ulp_err + ulp_err \<le> 512" using shade_range [of x] shade_range [of y] ulp by linarith
  from near_sub [OF fshade_near fshade_near this] ulp have n: "\<bar>fsub (fshade x) (fshade y) - (shade x - shade y)\<bar> \<le> 4 * ulp_err" by linarith
  have "4 * ulp_err \<le> 1 / 1000000" using ulp by simp
  from near_div [OF n assms(1,3,2) this] show q: "\<bar>fdiv (fsub (fshade x) (fshade y)) D' - (shade x - shade y) / D\<bar> \<le> 2049 * ulp_err" by linarith
  assume k: "0 \<le> k" "k \<le> 6"
  have "\<bar>(shade x - shade y) / D\<bar> \<le> 1" using assms(2,3) by simp
  then have "\<bar>(shade x - shade y) / D + k\<bar> + 2049 * ulp_err + 0 \<le> 512" using k ulp by linarith
  from near_add [OF q _ this] show "\<bar>fadd (fdiv (fsub (fshade x) (fshade y)) D') k - ((shade x - shade y) / D + k)\<bar> \<le> 2050 * ulp_err" by fastforce
qed

lemma rgbToHSL_near:
  assumes "max r (max g b) \<noteq> min r (min g b)"
  shows "\<exists>h s l. rgbToHSL r g b = (h, s, l) \<and> \<bar>h - 360 * exact_hue r g b\<bar> \<le> 1 / 50000000 \<and> s \<noteq> 0 \<and>
    \<bar>hsl_q l s - shade (max r (max g b))\<bar> \<le> 1 / 1000000000 \<and> \<bar>hsl_p l s - shade (min r (min g b))\<bar> \<le> 1 / 1000000000"
proof -
  define M where "M = max r (max g b)"
  define m where "m = min r (min g b)"
  have le: "\<bar>shade x - shade y\<bar> \<le> shade M - shade m" if "x \<in> {r, g, b}" "y \<in> {r, g, b}" for x y
  proof -
    have "x \<le> M" "m \<le> x" "y \<le> M" "m \<le> y" using that by (auto simp: M_def m_def le_max_iff_disj min_le_iff_disj)
    then have "shade x \<le> shade M" "shade m \<le> shade x" "shade y \<le> shade M" "shade m \<le> shade y" by (simp_all add: shade_less)
    then show ?thesis by linarith
  qed
  have ne: "M \<noteq> m" and less: "m < M" using assms by (auto simp: M_def m_def max_def min_def)
  from shade_gap [OF less] have D: "1 / 255 \<le> shade M - shade m" .
  define d where "d = fsub (fshade M) (fshade m)"
  define h0 where "h0 = (if M = r then (if g < b then fadd (fdiv (fsub (fshade g) (fshade b)) d) 6 else fdiv (fsub (fshade g) (fshade b)) d)
                 else if M = g then fadd (fdiv (fsub (fshade b) (fshade r)) d) 2 else fadd (fdiv (fsub (fshade r) (fshade g)) d) 4)"
  have "\<bar>shade M - shade m\<bar> + ulp_err + ulp_err \<le> 512" using shade_range [of M] shade_range [of m] ulp by linarith
  from near_sub [OF fshade_near fshade_near this] ulp have d: "\<bar>d - (shade M - shade m)\<bar> \<le> 4 * ulp_err" unfolding d_def by linarith
  note n = hue_ratio_near [OF d D le]
  have hue: "exact_hue r g b = (if M = r then (if g < b then (shade g - shade b) / (shade M - shade m) / 6 + 1 else (shade g - shade b) / (shade M - shade m) / 6)
      else if M = g then (shade b - shade r) / (shade M - shade m) / 6 + 1 / 3 else (shade r - shade g) / (shade M - shade m) / 6 + 2 / 3)"
    by (simp only: exact_hue_def Let_def M_def m_def)
  have six: "6 * (z / 6 + 1) = z + 6" "6 * (z / 6 + 1 / 3) = z + 2" "6 * (z / 6 + 2 / 3) = z + 4" "6 * (z / 6) = z" for z :: rat
    by simp_all
  have h0: "\<bar>h0 - 6 * exact_hue r g b\<bar> \<le> 2050 * ulp_err"
  proof -
    consider "M = r" "g < b" | "M = r" "\<not> g < b" | "M \<noteq> r" "M = g" | "M \<noteq> r" "M \<noteq> g" by blast
    then show ?thesis
    proof cases
      case 1
      then have h: "exact_hue r g b = (shade g - shade b) / (shade M - shade m) / 6 + 1" "h0 = fadd (fdiv (fsub (fshade g) (fshade b)) d) 6" by (simp_all add: hue h0_def)
      from n(2) [of g b 6] ulp show ?thesis unfolding h six by simp
    next
      case 2
      then have h: "exact_hue r g b = (shade g - shade b) / (shade M - shade m) / 6" "h0 = fdiv (fsub (fshade g) (fshade b)) d" by (simp_all add: hue h0_def)
      from n(1) [of g b] ulp show ?thesis unfolding h six by simp
    next
      case 3
      then have h: "exact_hue r g b = (shade b - shade r) / (shade M - shade m) / 6 + 1 / 3" "h0 = fadd (fdiv (fsub (fshade b) (fshade r)) d) 2" by (simp_all add: hue h0_def)
      from n(2) [of b r 2] ulp show ?thesis unfolding h six by simp
    next
      case 4
      then have h: "exact_hue r g b = (shade r - shade g) / (shade M - shade m) / 6 + 2 / 3" "h0 = fadd (fdiv (fsub (fshade r) (fshade g)) d) 4" by (simp_all add: hue h0_def)
      from n(2) [of r g 4] ulp show ?thesis unfolding h six by simp
    qed
  qed
  have "\<bar>6 * exact_hue r g b\<bar> \<le> 6" using hue_back(4,5) [OF assms] by simp
  from near_mul [OF h0 _ this, of 60 60 0 60 "123000 * ulp_err"] ulp have h: "\<bar>fmul h0 60 - 360 * exact_hue r g b\<bar> \<le> 1 / 50000000" by simp
  note sl = sat_near [OF fshade_near fshade_near shade_range(1) shade_range(2) D]
  show ?thesis
    using h sl ne unfolding rgbToHSL_words Let_def h0_def d_def M_def [symmetric] m_def [symmetric] by (simp only: if_False) blast
qed

lemma hslToRGB_near:
  assumes "s \<noteq> 0" and "\<bar>h - 360 * t\<bar> \<le> 1 / 10000000" and "0 \<le> t" and "t \<le> 1" and "\<bar>hsl_q l s - M\<bar> \<le> 1 / 1000000000"
    and "\<bar>hsl_p l s - m\<bar> \<le> 1 / 1000000000" and "0 \<le> m" and "m \<le> M" and "M \<le> 1"
  shows "\<exists>x y z. hslToRGB h s l = (to_uint8 (fadd (fmul x 255) (1 / 2)), to_uint8 (fadd (fmul y 255) (1 / 2)), to_uint8 (fadd (fmul z 255) (1 / 2))) \<and>
    \<bar>x - (m + (M - m) * wheel (t + 1 / 3))\<bar> \<le> 1 / 1000000 \<and> \<bar>y - (m + (M - m) * wheel t)\<bar> \<le> 1 / 1000000 \<and>
    \<bar>z - (m + (M - m) * wheel (t - 1 / 3))\<bar> \<le> 1 / 1000000"
proof -
  let ?p = "hsl_p l s" and ?q = "hsl_q l s" and ?h = "fdiv h 360" and ?k = "fl64 (1 / 3)"
  have k: "\<bar>?k - 1 / 3\<bar> \<le> ulp_err" using fl64_err [of "1 / 3"] by simp
  have "\<bar>h / 360\<bar> \<le> 512" using assms(2-4) by linarith
  then have "\<bar>?h - h / 360\<bar> \<le> ulp_err" by (rule fl_err(4))
  then have h: "\<bar>?h - t\<bar> \<le> 1 / 2000000000" using assms(2) ulp by linarith
  have "\<bar>fadd ?h ?k - (t + 1 / 3)\<bar> \<le> 1 / 2000000000 + ulp_err + ulp_err"
    by (rule near_add [OF h k]) (use assms(3,4) ulp in linarith)
  then have 1: "\<bar>fadd ?h ?k - (t + 1 / 3)\<bar> \<le> 1 / 1000000000" using ulp by linarith
  have "\<bar>fsub ?h ?k - (t - 1 / 3)\<bar> \<le> 1 / 2000000000 + ulp_err + ulp_err"
    by (rule near_sub [OF h k]) (use assms(3,4) ulp in linarith)
  then have 3: "\<bar>fsub ?h ?k - (t - 1 / 3)\<bar> \<le> 1 / 1000000000" using ulp by linarith
  have pq: "\<bar>?p\<bar> \<le> 2" "\<bar>?q\<bar> \<le> 2" using assms(5-9) by linarith+
  have near: "\<bar>hueToRGB ?p ?q t' - (m + (M - m) * wheel t0)\<bar> \<le> 1 / 1000000" if "\<bar>t' - t0\<bar> \<le> 1 / 1000000000" "- 1 / 3 \<le> t0" "t0 \<le> 4 / 3" for t' t0
  proof -
    from hueToRGB_near [OF that pq] obtain f where f: "\<bar>f - wheel t0\<bar> \<le> 1 / 10000000" "\<bar>hueToRGB ?p ?q t' - (?p + (?q - ?p) * f)\<bar> \<le> 1 / 100000000" by blast
    have "(?q - ?p) * f - (M - m) * wheel t0 = (?q - ?p) * (f - wheel t0) + ((?q - M) - (?p - m)) * wheel t0" by (simp add: algebra_simps)
    moreover have "\<bar>?q - ?p\<bar> \<le> 2" using assms(5-9) by linarith
    then have "\<bar>(?q - ?p) * (f - wheel t0)\<bar> \<le> 2 * (1 / 10000000)" unfolding abs_mult by (rule mult_mono) (use f(1) in auto)
    moreover have "\<bar>(?q - M) - (?p - m)\<bar> \<le> 2 / 1000000000" using assms(5,6) by linarith
    then have "\<bar>((?q - M) - (?p - m)) * wheel t0\<bar> \<le> (2 / 1000000000) * 1" unfolding abs_mult by (rule mult_mono) (use wheel_range [of t0] in auto)
    ultimately show ?thesis using f(2) assms(6) by linarith
  qed
  have "hslToRGB h s l = (to_uint8 (fadd (fmul (hueToRGB ?p ?q (fadd ?h ?k)) 255) (1 / 2)), to_uint8 (fadd (fmul (hueToRGB ?p ?q ?h) 255) (1 / 2)),
      to_uint8 (fadd (fmul (hueToRGB ?p ?q (fsub ?h ?k)) 255) (1 / 2)))"
    using assms(1) by (simp add: hslToRGB_def hsl_q_def hsl_p_def Let_def)
  moreover have "\<bar>?h - t\<bar> \<le> 1 / 1000000000" using h by linarith
  ultimately show ?thesis using near [OF 1] near [of ?h t] near [OF 3] assms(3,4) by fastforce
qed

section \<open>Back to bytes\<close>

lemma uint8_near:
  assumes "\<bar>x - X\<bar> \<le> 1 / 1000000" and "0 \<le> X" and "X \<le> 1"
  shows "\<exists>k. to_uint8 (fadd (fmul x 255) (1 / 2)) = word_of_int k \<and> 255 * X - 6 / 10 \<le> of_int k \<and> of_int k \<le> 255 * X + 6 / 10"
proof -
  let ?y = "fadd (fmul x 255) (1 / 2)"
  have "\<bar>x * 255\<bar> \<le> 512" using assms by linarith
  then have m: "\<bar>fmul x 255 - x * 255\<bar> \<le> ulp_err" by (rule fl_err(3))
  then have "\<bar>fmul x 255 + 1 / 2\<bar> \<le> 512" using assms ulp by linarith
  then have "\<bar>?y - (fmul x 255 + 1 / 2)\<bar> \<le> ulp_err" by (rule fl_err(1))
  then have y: "\<bar>?y - (255 * X + 1 / 2)\<bar> \<le> 1 / 1000" using m assms ulp by linarith
  then have "\<not> ?y < 0" using assms(2) by linarith
  then have "to_uint8 ?y = word_of_int \<lfloor>?y\<rfloor>" by (simp add: to_uint8_def)
  moreover have "of_int \<lfloor>?y\<rfloor> \<le> ?y" "?y < of_int \<lfloor>?y\<rfloor> + 1" by linarith+
  ultimately show ?thesis using y by (intro exI [of _ "\<lfloor>?y\<rfloor>"] conjI) linarith+
qed

lemma uint8_part:
  assumes "\<bar>x - shade c\<bar> \<le> 1 / 1000000"
  shows "to_uint8 (fadd (fmul x 255) (1 / 2)) = c"
proof -
  obtain k where k: "to_uint8 (fadd (fmul x 255) (1 / 2)) = word_of_int k" "255 * shade c - 6 / 10 \<le> of_int k" "of_int k \<le> 255 * shade c + 6 / 10"
    using uint8_near [OF assms shade_range] by blast
  have "255 * shade c = of_int (uint c)" by (simp add: shade_def)
  with k(2,3) have "of_int (uint c) < (of_int (k + 1) :: rat)" "(of_int k :: rat) < of_int (uint c + 1)" by (simp_all only: of_int_add of_int_1)
  then have "k = uint c" by (simp only: of_int_less_iff)
  with k(1) show ?thesis by simp
qed

lemma uint8_above:
  assumes "\<bar>x - X\<bar> \<le> 1 / 1000000" and "26 / 100 \<le> X" and "X \<le> 1"
  shows "0x33 < to_uint8 (fadd (fmul x 255) (1 / 2))"
proof -
  obtain k where k: "to_uint8 (fadd (fmul x 255) (1 / 2)) = word_of_int k" "255 * X - 6 / 10 \<le> of_int k" "of_int k \<le> 255 * X + 6 / 10"
    using uint8_near [OF assms(1) _ assms(3)] assms(2) by fastforce
  have "(of_int 51 :: rat) < of_int k" "(of_int k :: rat) < of_int 256" using k(2,3) assms(2,3) by simp_all
  then have "51 < k" "k < 256" by (simp_all only: of_int_less_iff)
  then show ?thesis unfolding k(1) by (simp add: word_less_def uint_word_of_int)
qed

section \<open>Properties\<close>

lemma not_gray: "max r (max g b) = min r (min g b) \<Longrightarrow> g = r \<and> b = (r :: 8 word)"
  by (auto simp: max_def min_def split: if_splits)

text \<open>
  Claim C35. The conversions of colours are inverse to each other on every one of the 2 to the power
  24 colours, in the floating point arithmetic they are computed in: what a colour is converted to
  leads back to exactly that colour.
\<close>

theorem hsl_roundtrip: "(case rgbToHSL r g b of (h, s, l) \<Rightarrow> hslToRGB h s l) = (r, g, b)"
proof (cases "max r (max g b) = min r (min g b)")
  case True
  note e = not_gray [OF this]
  let ?l = "fdiv (fadd (fshade r) (fshade r)) 2"
  have "\<bar>?l - (shade r + shade r) / 2\<bar> \<le> 5 * ulp_err" using light_near [OF fshade_near fshade_near] shade_range [of r] by blast
  then have "\<bar>?l - shade r\<bar> \<le> 1 / 1000000" using ulp by simp
  from uint8_part [OF this] e show ?thesis by (simp add: rgbToHSL_words hslToRGB_def Let_def)
next
  case False
  let ?M = "max r (max g b)" and ?m = "min r (min g b)"
  obtain h s l where n: "rgbToHSL r g b = (h, s, l)" "\<bar>h - 360 * exact_hue r g b\<bar> \<le> 1 / 50000000" "s \<noteq> 0"
      "\<bar>hsl_q l s - shade ?M\<bar> \<le> 1 / 1000000000" "\<bar>hsl_p l s - shade ?m\<bar> \<le> 1 / 1000000000"
    using rgbToHSL_near [OF False] by blast
  note e = hue_back [OF False]
  have "shade ?m \<le> shade ?M" unfolding shade_less by (simp add: min_le_iff_disj le_max_iff_disj)
  moreover from n(2) have "\<bar>h - 360 * exact_hue r g b\<bar> \<le> 1 / 10000000" by linarith
  ultimately obtain x y z where "hslToRGB h s l = (to_uint8 (fadd (fmul x 255) (1 / 2)), to_uint8 (fadd (fmul y 255) (1 / 2)), to_uint8 (fadd (fmul z 255) (1 / 2)))"
      "\<bar>x - shade r\<bar> \<le> 1 / 1000000" "\<bar>y - shade g\<bar> \<le> 1 / 1000000" "\<bar>z - shade b\<bar> \<le> 1 / 1000000"
    using hslToRGB_near [OF n(3) _ e(4,5) n(4,5) shade_range(1) _ shade_range(2)] unfolding e(1-3) by blast
  then show ?thesis by (simp add: n(1) uint8_part)
qed

text \<open>A red colour, turned: where its hue comes to lie, and how much green that gives.\<close>

lemma red_parts:
  assumes "isRed r g b"
  shows "4 / 5 \<le> shade r" and "shade g \<le> 1 / 5" and "shade b \<le> 1 / 5" and "max r (max g b) = r" and "min r (min g b) = min g b" and "r \<noteq> min g b"
proof -
  have "204 \<le> unat r" "unat g \<le> 51" "unat b \<le> 51" using assms by (simp_all add: isRed_def word_le_nat_alt)
  then have "(204 :: rat) \<le> of_nat (unat r)" "of_nat (unat g) \<le> (51 :: rat)" "of_nat (unat b) \<le> (51 :: rat)" by linarith+
  then show p: "4 / 5 \<le> shade r" "shade g \<le> 1 / 5" "shade b \<le> 1 / 5" by (simp_all add: shade_def)
  then have "g < r" "b < r" by (simp_all flip: shade_less)
  then show "max r (max g b) = r" "min r (min g b) = min g b" "r \<noteq> min g b" by (auto simp: max_def min_def)
qed

lemma red_turned:
  assumes "isRed r g b" and "\<bar>h - 360 * exact_hue r g b\<bar> \<le> 1 / 50000000"
  defines "h' \<equiv> (let h = fadd h 35 in if h \<ge> 360 then fsub h 360 else h)"
  shows "\<exists>t. \<bar>h' - 360 * t\<bar> \<le> 1 / 10000000 \<and> 0 \<le> t \<and> t \<le> 1 \<and>
    26 / 100 \<le> shade (min g b) + (shade r - shade (min g b)) * wheel t \<and> shade (min g b) + (shade r - shade (min g b)) * wheel t \<le> 1"
proof -
  note p = red_parts [OF assms(1)]
  define d where "d = shade r - shade (min g b)"
  define z where "z = (shade g - shade b) / d"
  have d: "3 / 5 \<le> d" "d \<le> 1" "shade (min g b) \<le> 1 / 5" "0 \<le> shade (min g b)"
    using p(1-3) shade_range [of "min g b"] shade_range [of r] by (auto simp: d_def min_def)
  have dz: "d * z = shade g - shade b" using d(1) by (simp add: z_def)
  have hue: "exact_hue r g b = (if g < b then z / 6 + 1 else z / 6)" by (simp add: exact_hue_def p(4,5) z_def d_def)
  have h: "0 \<le> exact_hue r g b" "exact_hue r g b \<le> 1" using hue_back(4,5) [of r g b] p(4-6) by simp_all
  have "\<bar>h + 35\<bar> \<le> 512" using assms(2) h by linarith
  then have "\<bar>fadd h 35 - (h + 35)\<bar> \<le> ulp_err" by (rule fl_err(1))
  then have f: "\<bar>fadd h 35 - (360 * exact_hue r g b + 35)\<bar> \<le> 1 / 20000000" using assms(2) ulp by linarith
  have top: "shade (min g b) + d * wheel t \<le> 1" for t
  proof -
    have "d * wheel t \<le> d * 1" using d(1) wheel_range by (intro mult_left_mono) auto
    then show ?thesis using shade_range [of r] by (simp add: d_def)
  qed
  show ?thesis
  proof (cases "g < b")
    case True
    have z: "- (1 / 4) \<le> z" "z \<le> 0" using True p shade_range [of g] d
      by (auto simp: z_def d_def field_simps min_def shade_less [symmetric])
    have g: "shade g - shade b + 7 / 12 * d + shade (min g b) \<ge> 26 / 100" proof -
      have m: "min g b = g" using True by simp
      show ?thesis unfolding d_def m using p(1-3) shade_range(1) [of g] by (simp add: field_simps)
    qed
    let ?t = "z / 6 + 7 / 72"
    have t: "360 * ?t = 60 * z + 35" by simp
    have f: "\<bar>fadd h 35 - (395 + 60 * z)\<bar> \<le> 1 / 20000000" using f True by (simp add: hue)
    then have "fadd h 35 \<ge> 360" "\<bar>fadd h 35 - 360\<bar> \<le> 512" using z by linarith+
    then have "\<bar>h' - (fadd h 35 - 360)\<bar> \<le> ulp_err" using fl_err(2) [of "fadd h 35" 360] by (simp add: h'_def Let_def)
    then have "\<bar>h' - 360 * ?t\<bar> \<le> 1 / 10000000" unfolding t using f ulp by linarith
    moreover have "wheel ?t = z + 7 / 12" using z by (simp add: wheel_def)
    moreover from this have "d * wheel ?t = shade g - shade b + 7 / 12 * d" using dz by (simp add: algebra_simps)
    ultimately show ?thesis using z g top [of ?t] unfolding d_def [symmetric] by (intro exI [of _ ?t]) auto
  next
    case False
    have z: "0 \<le> z" "z \<le> 1 / 4" using False p shade_range [of b] d
      by (auto simp: z_def d_def field_simps min_def shade_less [symmetric])
    have g: "shade g - shade b + 7 / 12 * d + shade (min g b) \<ge> 26 / 100" proof -
      have m: "min g b = b" and le: "shade b \<le> shade g" using False by (simp_all add: shade_less)
      show ?thesis unfolding d_def m using le p(1-3) shade_range(1) [of b] by (simp add: field_simps)
    qed
    let ?t = "z / 6 + 7 / 72"
    have t: "360 * ?t = 60 * z + 35" by simp
    have f: "\<bar>fadd h 35 - (60 * z + 35)\<bar> \<le> 1 / 20000000" using f False by (simp add: hue)
    then have "\<not> fadd h 35 \<ge> 360" using z by linarith
    then have "h' = fadd h 35" by (simp add: h'_def Let_def)
    then have "\<bar>h' - 360 * ?t\<bar> \<le> 1 / 10000000" unfolding t using f by linarith
    moreover have "wheel ?t = z + 7 / 12" using z by (simp add: wheel_def)
    moreover from this have "d * wheel ?t = shade g - shade b + 7 / 12 * d" using dz by (simp add: algebra_simps)
    ultimately show ?thesis using z g top [of ?t] unfolding d_def [symmetric] by (intro exI [of _ ?t]) auto
  qed
qed

text \<open>What is left after the turn is not red.\<close>

lemma avoidRed_not_red: "case avoidRed (r, g, b) of (r', g', b') \<Rightarrow> \<not> isRed r' g' b'"
proof (cases "isRed r g b")
  case False
  then show ?thesis by (simp add: avoidRed_def)
next
  case True
  note p = red_parts [OF True]
  have "max r (max g b) \<noteq> min r (min g b)" using p(4-6) by simp
  from rgbToHSL_near [OF this] obtain h s l where n: "rgbToHSL r g b = (h, s, l)" "\<bar>h - 360 * exact_hue r g b\<bar> \<le> 1 / 50000000" "s \<noteq> 0"
      "\<bar>hsl_q l s - shade r\<bar> \<le> 1 / 1000000000" "\<bar>hsl_p l s - shade (min g b)\<bar> \<le> 1 / 1000000000"
    unfolding p(4,5) by blast
  let ?h = "let h = fadd h 35 in if h \<ge> 360 then fsub h 360 else h"
  obtain t where t: "\<bar>?h - 360 * t\<bar> \<le> 1 / 10000000" "0 \<le> t" "t \<le> 1" "26 / 100 \<le> shade (min g b) + (shade r - shade (min g b)) * wheel t"
      "shade (min g b) + (shade r - shade (min g b)) * wheel t \<le> 1"
    using red_turned [OF True n(2)] by blast
  have "shade (min g b) \<le> shade r" using p(1-3) by (auto simp: min_def)
  then obtain x y z where "hslToRGB ?h s l = (to_uint8 (fadd (fmul x 255) (1 / 2)), to_uint8 (fadd (fmul y 255) (1 / 2)), to_uint8 (fadd (fmul z 255) (1 / 2)))"
      "\<bar>y - (shade (min g b) + (shade r - shade (min g b)) * wheel t)\<bar> \<le> 1 / 1000000"
    using hslToRGB_near [OF n(3) t(1-3) n(4,5) shade_range(1) _ shade_range(2)] by blast
  with uint8_above [OF _ t(4,5)] True n(1) show ?thesis by (force simp: avoidRed_def isRed_def Let_def)
qed

end
