(* ===== verification/Notifier.thy ===== *)
theory Notifier
  imports Slack_Color
begin

text \<open>
  The notifier package: notifier.go (error limiting, construction), slack.go, mail.go and
  null.go. A sender of the package is a value of \<open>sender\<close>; what it hands to the outside
  (a Slack post, a mail, nothing) is a \<open>delivery\<close>, and the error limiting sender keeps the
  list of its deliveries. Host name, user, working directory, clock and environment are the
  fields of the record \<open>env\<close>; parsing of URLs (net/url) and decoding of their query into
  struct fields (gorilla/schema) are parameters.
\<close>

section \<open>Environment and messages\<close>

record env =
  e_hostname :: "string + string"
  e_username :: "string + string"
  e_cwd :: "string + string"
  e_unixNow :: int
  e_getenv :: "string \<Rightarrow> string"
  e_showDuration :: "int \<Rightarrow> string"
  e_md5 :: "string \<Rightarrow> 8 word list"

text \<open>The three names are what the system answers, or the text of its error (the verb #v of fmt).\<close>

definition host_name :: "env \<Rightarrow> string" where
  "host_name e = (case e_hostname e of Inl err \<Rightarrow> err | Inr n \<Rightarrow> n)"

definition working_dir :: "env \<Rightarrow> string" where
  "working_dir e = (case e_cwd e of Inl err \<Rightarrow> err | Inr c \<Rightarrow> c)"

definition user_name :: "env \<Rightarrow> string" where
  "user_name e = (case e_username e of Inl err \<Rightarrow> err | Inr u \<Rightarrow> u)"

record HookResult =
  hr_Command :: string
  hr_Stdout :: string
  hr_Stderr :: string
  hr_ExitCode :: goint
  hr_Duration :: int
  hr_Success :: bool

definition nl :: string where "nl = [CHR 0x0A]"

definition code_block :: "string \<Rightarrow> string" where
  "code_block s = ''```'' @ nl @ s @ nl @ ''```''"

section \<open>Slack (slack.go)\<close>

record Slack =
  sl_Channel :: string
  sl_Title :: string
  sl_TitleURL :: string
  sl_Quiet :: bool
  sl_Thread :: bool
  sl_token :: string
  sl_threadTS :: string

record AttachmentField =
  af_Title :: string
  af_Value :: string
  af_Short :: bool

record Attachment =
  at_Color :: string
  at_Title :: string
  at_Text :: string
  at_Fields :: "AttachmentField list"
  at_Footer :: string
  at_FooterIcon :: string
  at_Ts :: string

datatype msg_option = MsgUsername string | MsgIconURL string | MsgAttachments Attachment | MsgTS string | MsgBroadcast

definition SlackUsername :: string where "SlackUsername = ''Dewy''"

definition SlackIconURL :: string where
  "SlackIconURL = ''https://raw.githubusercontent.com/linyows/dewy/main/misc/dewy-icon.512.png''"

definition SlackFooterIcon :: string where
  "SlackFooterIcon = ''https://raw.githubusercontent.com/linyows/dewy/main/misc/dewy-icon.32.png''"

definition setThreadTS :: "string \<Rightarrow> Slack \<Rightarrow> Slack" where
  "setThreadTS ts s = s\<lparr>sl_threadTS := ts\<rparr>"

text \<open>file is the content of the thread file of the deployed directory, None when unreadable.\<close>

definition Slack_OnDeploy :: "string option \<Rightarrow> Slack \<Rightarrow> Slack" where
  "Slack_OnDeploy file s =
     (if \<not> sl_Thread s then s
      else (case file of None \<Rightarrow> s
        | Some data \<Rightarrow> let ts = trimSpace data in if ts \<noteq> [] then setThreadTS ts s else s))"

definition buildBaseOptions :: "msg_option list" where
  "buildBaseOptions = [MsgUsername SlackUsername, MsgIconURL SlackIconURL]"

definition appendThreadOptions :: "Slack \<Rightarrow> msg_option list \<Rightarrow> bool \<Rightarrow> msg_option list" where
  "appendThreadOptions s opts broadcast =
     (if sl_Thread s \<and> sl_threadTS s \<noteq> [] then opts @ [MsgTS (sl_threadTS s)] @ (if broadcast then [MsgBroadcast] else [])
      else opts)"

definition hexDigit :: "nat \<Rightarrow> char" where
  "hexDigit n = (if n < 10 then char_of (48 + n) else char_of (55 + n))"

definition hex02 :: "8 word \<Rightarrow> string" where
  "hex02 w = [hexDigit (unat w div 16), hexDigit (unat w mod 16)]"

definition genColor :: "env \<Rightarrow> string" where
  "genColor e =
     (let hash = e_md5 e (host_name e); r = hash ! 0; g = hash ! 1; b = hash ! 2 in
      case avoidRed (r, g, b) of (r, g, b) \<Rightarrow> toUpper (''#'' @ hex02 r @ hex02 g @ hex02 b))"

text \<open>The position where the output is cut: the last line break at or before i, 0 if there is none.\<close>

fun truncate_at :: "string \<Rightarrow> nat \<Rightarrow> nat" where
  "truncate_at s i = (if i > 0 \<and> s ! i \<noteq> CHR 0x0A then truncate_at s (i - 1) else i)"

declare truncate_at.simps [simp del]

definition formatOutput :: "string \<Rightarrow> string" where
  "formatOutput output =
     (let maxFieldLength = 2000; maxLines = 50;
          lines = splitC (CHR 0x0A) output;
          lines' = (if length lines > maxLines
            then take maxLines lines @ [''... ('' @ itoa (int (length lines) - int maxLines) @ '' more lines truncated)'']
            else lines);
          truncatedOutput = joinS nl lines';
          truncatedOutput' = (if length truncatedOutput > maxFieldLength
            then let t = truncate_at truncatedOutput (maxFieldLength - 100);
                     t' = (if t = 0 then maxFieldLength - 100 else t)
                 in take t' truncatedOutput @ nl @ ''... ('' @ itoa (int (length output) - int t') @ '' more characters truncated)''
            else truncatedOutput)
      in code_block truncatedOutput')"

definition slackFooter :: "env \<Rightarrow> Slack \<Rightarrow> string" where
  "slackFooter e s =
     (if sl_Title s \<noteq> [] \<and> sl_TitleURL s \<noteq> [] then ''<'' @ sl_TitleURL s @ ''|'' @ sl_Title s @ ''>/'' @ host_name e
      else if sl_Title s \<noteq> [] then sl_Title s @ ''/'' @ host_name e
      else host_name e)"

definition outputField :: "string \<Rightarrow> string \<Rightarrow> AttachmentField list" where
  "outputField title out = (if out \<noteq> [] then [\<lparr>af_Title = title, af_Value = formatOutput out, af_Short = False\<rparr>] else [])"

definition BuildHookAttachment :: "env \<Rightarrow> Slack \<Rightarrow> string \<Rightarrow> HookResult \<Rightarrow> Attachment" where
  "BuildHookAttachment e s hookType result =
     \<lparr>at_Color = (if hr_Success result then ''#36a64f'' else ''#dd0000''), at_Title = hookType @ '' Hook'',
      at_Text = code_block (hr_Command result),
      at_Fields = outputField ''Stdout'' (hr_Stdout result) @ outputField ''Stderr'' (hr_Stderr result) @
        [\<lparr>af_Title = ''Exit Code'', af_Value = ''`'' @ itoa (hr_ExitCode result) @ ''`'', af_Short = True\<rparr>,
         \<lparr>af_Title = ''Duration'', af_Value = e_showDuration e (hr_Duration result), af_Short = True\<rparr>],
      at_Footer = slackFooter e s, at_FooterIcon = SlackFooterIcon, at_Ts = itoa (e_unixNow e)\<rparr>"

definition BuildAttachment :: "env \<Rightarrow> Slack \<Rightarrow> string \<Rightarrow> Attachment" where
  "BuildAttachment e s message =
     \<lparr>at_Color = genColor e, at_Title = [], at_Text = message, at_Fields = [],
      at_Footer = slackFooter e s, at_FooterIcon = SlackFooterIcon, at_Ts = itoa (e_unixNow e)\<rparr>"

text \<open>What is posted: the options of the message for the channel of the sender.\<close>

definition Slack_post :: "env \<Rightarrow> Slack \<Rightarrow> string \<Rightarrow> bool \<Rightarrow> msg_option list" where
  "Slack_post e s message broadcast =
     appendThreadOptions s (buildBaseOptions @ [MsgAttachments (BuildAttachment e s message)]) broadcast"

definition Slack_SendHookResult :: "env \<Rightarrow> Slack \<Rightarrow> string \<Rightarrow> HookResult \<Rightarrow> msg_option list" where
  "Slack_SendHookResult e s hookType result =
     appendThreadOptions s (buildBaseOptions @ [MsgAttachments (BuildHookAttachment e s hookType result)]) False"

text \<open>decode fills struct fields from the query of the URL.\<close>

definition NewSlack :: "env \<Rightarrow> (string \<Rightarrow> string + purl) \<Rightarrow> (Slack \<Rightarrow> (string \<times> string) list \<Rightarrow> string + Slack) \<Rightarrow> string \<Rightarrow> string + Slack" where
  "NewSlack e urlParse decode schema =
     (case urlParse schema of
        Inl err \<Rightarrow> Inl err
      | Inr u \<Rightarrow> (case decode \<lparr>sl_Channel = pu_Path u, sl_Title = [], sl_TitleURL = [], sl_Quiet = False, sl_Thread = False,
                     sl_token = [], sl_threadTS = []\<rparr> (pu_Query u) of
          Inl err \<Rightarrow> Inl err
        | Inr s \<Rightarrow>
            let s = (if sl_Channel s = [] then s\<lparr>sl_Channel := ''randam''\<rparr> else s);
                t = e_getenv e ''SLACK_TOKEN'';
                s = (if t \<noteq> [] then s\<lparr>sl_token := t\<rparr> else s)
            in if sl_token s = [] then Inl ''slack token is required'' else Inr s))"

section \<open>Mail (mail.go)\<close>

record Mail =
  ml_Host :: string
  ml_Port :: goint
  ml_Username :: string
  ml_Password :: string
  ml_From :: string
  ml_To :: string
  ml_Subject :: string
  ml_TLS :: bool
  ml_Quiet :: bool

definition orEnv :: "env \<Rightarrow> string \<Rightarrow> string \<Rightarrow> string" where
  "orEnv e var v = (if v = [] then e_getenv e var else v)"

definition mail_port :: "string \<Rightarrow> string + goint" where
  "mail_port p = (if p = [] then Inr 587
     else case atoi_opt p of None \<Rightarrow> Inl (''invalid port: '' @ p) | Some n \<Rightarrow> Inr n)"

definition mail_fill :: "env \<Rightarrow> purl \<Rightarrow> Mail \<Rightarrow> Mail" where
  "mail_fill e u m =
     (let m = m\<lparr>ml_Username := orEnv e ''MAIL_USERNAME'' (ml_Username m)\<rparr>;
          m = m\<lparr>ml_Password := orEnv e ''MAIL_PASSWORD'' (ml_Password m)\<rparr>;
          m = m\<lparr>ml_From := orEnv e ''MAIL_FROM'' (ml_From m)\<rparr>;
          m = (if pu_Path u \<noteq> [] \<and> pu_Path u \<noteq> ''/'' then m\<lparr>ml_To := trimPrefix (pu_Path u) ''/''\<rparr> else m)
      in if ml_From m = [] \<and> ml_Username m \<noteq> [] then m\<lparr>ml_From := ml_Username m\<rparr> else m)"

definition mail_check :: "Mail \<Rightarrow> string + Mail" where
  "mail_check m =
     (if ml_Host m = [] then Inl ''mail host is required''
      else if ml_Username m = [] then Inl ''mail username is required''
      else if ml_Password m = [] then Inl ''mail password is required''
      else if ml_From m = [] then Inl ''mail from address is required''
      else if ml_To m = [] then Inl ''mail to address is required''
      else Inr m)"

definition NewMail :: "env \<Rightarrow> (string \<Rightarrow> string + purl) \<Rightarrow> (Mail \<Rightarrow> (string \<times> string) list \<Rightarrow> string + Mail) \<Rightarrow> string \<Rightarrow> string + Mail" where
  "NewMail e urlParse decode schema =
     (case urlParse (''smtp://'' @ schema) of
        Inl err \<Rightarrow> Inl err
      | Inr u \<Rightarrow> (case mail_port (url_Port u) of
          Inl err \<Rightarrow> Inl err
        | Inr port \<Rightarrow> (case decode \<lparr>ml_Host = url_Hostname u, ml_Port = port, ml_Username = [], ml_Password = [], ml_From = [],
                ml_To = [], ml_Subject = ''Dewy Notification'', ml_TLS = True, ml_Quiet = False\<rparr> (pu_Query u) of
            Inl err \<Rightarrow> Inl err
          | Inr m \<Rightarrow> mail_check (mail_fill e u m))))"

definition mailTrailer :: "env \<Rightarrow> string" where
  "mailTrailer e = ''Host: '' @ host_name e @ nl @ ''User: '' @ user_name e @ nl @ ''Working dir: '' @ working_dir e @ nl @ nl @
     ''--'' @ nl @ ''Dewy: https://github.com/linyows/dewy''"

definition formatMessage :: "env \<Rightarrow> string \<Rightarrow> string" where
  "formatMessage e message = message @ nl @ nl @ mailTrailer e"

definition formatHookResult :: "env \<Rightarrow> string \<Rightarrow> HookResult \<Rightarrow> string" where
  "formatHookResult e hookType result =
     hookType @ '' Hook '' @ (if hr_Success result then ''SUCCESS'' else ''FAILED'') @ nl @ nl @
     ''Command: '' @ hr_Command result @ nl @ ''Exit Code: '' @ itoa (hr_ExitCode result) @ nl @
     ''Duration: '' @ e_showDuration e (hr_Duration result) @ nl @ nl @
     (if hr_Stdout result \<noteq> [] then ''STDOUT:'' @ nl @ hr_Stdout result @ nl @ nl else []) @
     (if hr_Stderr result \<noteq> [] then ''STDERR:'' @ nl @ hr_Stderr result @ nl @ nl else []) @ mailTrailer e"

record message =
  mm_From :: string
  mm_To :: string
  mm_Subject :: string
  mm_Body :: string

definition Mail_Send :: "env \<Rightarrow> Mail \<Rightarrow> string \<Rightarrow> message" where
  "Mail_Send e m msg = \<lparr>mm_From = ml_From m, mm_To = ml_To m, mm_Subject = ml_Subject m, mm_Body = formatMessage e msg\<rparr>"

definition Mail_SendHookResult :: "env \<Rightarrow> Mail \<Rightarrow> string \<Rightarrow> HookResult \<Rightarrow> message" where
  "Mail_SendHookResult e m hookType result =
     \<lparr>mm_From = ml_From m, mm_To = ml_To m,
      mm_Subject = ''Dewy '' @ hookType @ '' Hook '' @ (if hr_Success result then ''SUCCESS'' else ''FAILED''),
      mm_Body = formatHookResult e hookType result\<rparr>"

section \<open>Error limiting (notifier.go)\<close>

datatype sender = NullSender | SlackSender Slack | MailSender Mail

text \<open>
  What the wrapper hands on: a message, a message with broadcast, a hook result. The flag of
  a message tells the texts of SendError from the others.
\<close>

datatype delivery = Delivered bool string | DeliveredHook string HookResult

record ErrorLimitingSender =
  el_underlying :: sender
  el_errorCount :: goint
  el_quiet :: bool
  el_sent :: "delivery list"

definition maxNotifyErrors :: goint where "maxNotifyErrors = 3"

definition maxErrorCount :: goint where "maxErrorCount = 1000"

definition deliver :: "delivery \<Rightarrow> ErrorLimitingSender \<Rightarrow> ErrorLimitingSender" where
  "deliver d s = s\<lparr>el_sent := el_sent s @ [d]\<rparr>"

definition Send :: "string \<Rightarrow> ErrorLimitingSender \<Rightarrow> ErrorLimitingSender" where
  "Send message s = (if el_errorCount s = 0 \<and> \<not> el_quiet s then deliver (Delivered False message) s else s)"

definition SendImportant :: "string \<Rightarrow> ErrorLimitingSender \<Rightarrow> ErrorLimitingSender" where
  "SendImportant message s = (if el_errorCount s = 0 then deliver (Delivered False message) s else s)"

definition warningSign :: string where
  "warningSign = [CHR 0xE2, CHR 0x9A, CHR 0xA0, CHR 0xEF, CHR 0xB8, CHR 0x8F]"

definition errorText :: "goint \<Rightarrow> string \<Rightarrow> string" where
  "errorText n err = ''Error occurred (count: '' @ itoa n @ ''): '' @ err"

definition SendError :: "string \<Rightarrow> ErrorLimitingSender \<Rightarrow> ErrorLimitingSender" where
  "SendError err s =
     (let s = (if el_errorCount s < maxErrorCount then s\<lparr>el_errorCount := el_errorCount s + 1\<rparr> else s); n = el_errorCount s in
      if n < maxNotifyErrors then deliver (Delivered True (errorText n err)) s
      else if n = maxNotifyErrors
      then deliver (Delivered True (warningSign @ '' No more error notifications will be sent until errors are resolved.'' @ nl @ nl @ errorText n err)) s
      else s)"

definition ResetErrorCount :: "ErrorLimitingSender \<Rightarrow> ErrorLimitingSender" where
  "ResetErrorCount s = (if el_errorCount s > 0 then s\<lparr>el_errorCount := 0\<rparr> else s)"

text \<open>All three senders of the package accept hook results.\<close>

definition SendHookResult :: "string \<Rightarrow> HookResult \<Rightarrow> ErrorLimitingSender \<Rightarrow> ErrorLimitingSender" where
  "SendHookResult hookType result s =
     (if el_errorCount s = 0 \<and> \<not> (el_quiet s \<and> hr_Success result) then deliver (DeliveredHook hookType result) s else s)"

definition OnDeploy :: "string option \<Rightarrow> ErrorLimitingSender \<Rightarrow> ErrorLimitingSender" where
  "OnDeploy file s = (case el_underlying s of SlackSender sl \<Rightarrow> s\<lparr>el_underlying := SlackSender (Slack_OnDeploy file sl)\<rparr> | _ \<Rightarrow> s)"

text \<open>strconv.ParseBool; the value returned with an error is false.\<close>

definition parseBool :: "string \<Rightarrow> bool" where
  "parseBool s = (s \<in> {''1'', ''t'', ''T'', ''TRUE'', ''true'', ''True''})"

definition parseQuietFlag :: "(string \<Rightarrow> string + purl) \<Rightarrow> string \<Rightarrow> bool" where
  "parseQuietFlag urlParse rawPart =
     (case urlParse rawPart of Inl _ \<Rightarrow> False
      | Inr u \<Rightarrow> parseBool (case map_of (pu_Query u) ''quiet'' of Some v \<Rightarrow> v | None \<Rightarrow> []))"

text \<open>The index expression on the second part panics when the URL has no scheme separator.\<close>

datatype new_result = Panic | NewError string | NewNotifier ErrorLimitingSender

definition New_notifier :: "env \<Rightarrow> (string \<Rightarrow> string + purl) \<Rightarrow> (Slack \<Rightarrow> (string \<times> string) list \<Rightarrow> string + Slack) \<Rightarrow>
    (Mail \<Rightarrow> (string \<times> string) list \<Rightarrow> string + Mail) \<Rightarrow> string \<Rightarrow> new_result" where
  "New_notifier e urlParse decodeSlack decodeMail url =
     (let splitted = splitN2 url ''://''; scheme = splitted ! 0;
          wrap = (\<lambda>u. NewNotifier \<lparr>el_underlying = u, el_errorCount = 0,
                    el_quiet = (length splitted > 1 \<and> parseQuietFlag urlParse (splitted ! 1)), el_sent = []\<rparr>) in
      if scheme = [] then wrap NullSender
      else if scheme = ''slack'' then
        (if length splitted < 2 then Panic
         else case NewSlack e urlParse decodeSlack (splitted ! 1) of Inl _ \<Rightarrow> wrap NullSender | Inr sl \<Rightarrow> wrap (SlackSender sl))
      else if scheme = ''mail'' \<or> scheme = ''smtp'' then
        (if length splitted < 2 then Panic
         else case NewMail e urlParse decodeMail (splitted ! 1) of Inl _ \<Rightarrow> wrap NullSender | Inr ml \<Rightarrow> wrap (MailSender ml))
      else NewError (''unsupported notify: '' @ url))"

section \<open>Histories\<close>

datatype notify_op = OpSend string | OpImportant string | OpError string | OpReset | OpHook string HookResult | OpDeploy "string option"

fun notify :: "notify_op \<Rightarrow> ErrorLimitingSender \<Rightarrow> ErrorLimitingSender" where
  "notify (OpSend m) = Send m"
| "notify (OpImportant m) = SendImportant m"
| "notify (OpError e) = SendError e"
| "notify OpReset = ResetErrorCount"
| "notify (OpHook t r) = SendHookResult t r"
| "notify (OpDeploy f) = OnDeploy f"

fun is_error :: "notify_op \<Rightarrow> bool" where
  "is_error (OpError _) = True" | "is_error _ = False"

fun error_delivery :: "delivery \<Rightarrow> bool" where
  "error_delivery (Delivered b _) = b" | "error_delivery (DeliveredHook _ _) = False"

definition errors_sent :: "ErrorLimitingSender \<Rightarrow> nat" where
  "errors_sent s = length (filter error_delivery (el_sent s))"

definition errors_in :: "notify_op list \<Rightarrow> nat" where
  "errors_in ops = length (filter is_error ops)"

lemma errors_in_simps [simp]: "errors_in [] = 0" "errors_in (op # ops) = (if is_error op then 1 else 0) + errors_in ops"
  by (simp_all add: errors_in_def)

text \<open>n errors since the last reset: the counter, and how many of them were delivered since then.\<close>

definition limited :: "nat \<Rightarrow> nat \<Rightarrow> ErrorLimitingSender \<Rightarrow> bool" where
  "limited base n s = (el_errorCount s = int (min n 1000) \<and> errors_sent s = base + min n 3)"

lemmas notify_defs = Send_def SendImportant_def SendError_def ResetErrorCount_def SendHookResult_def OnDeploy_def deliver_def
  maxErrorCount_def maxNotifyErrors_def

lemma limited_step:
  assumes "limited base n s" "op \<noteq> OpReset"
  shows "limited base (if is_error op then Suc n else n) (notify op s)"
  using assms
  by (cases op) (auto simp: limited_def errors_sent_def notify_defs Let_def min_def split: sender.splits)

lemma limited_run:
  "limited base n s \<Longrightarrow> OpReset \<notin> set ops \<Longrightarrow> limited base (n + errors_in ops) (fold notify ops s)"
proof (induction ops arbitrary: n s)
  case (Cons op ops)
  have "limited base (if is_error op then Suc n else n) (notify op s)" using Cons.prems by (intro limited_step) auto
  from Cons.IH [OF this] Cons.prems(2) show ?case by (cases "is_error op") auto
qed simp

lemma silent_after_error:
  assumes "el_errorCount s > 0" "OpReset \<notin> set ops"
  shows "\<exists>ds. el_sent (fold notify ops s) = el_sent s @ ds \<and> (\<forall>d\<in>set ds. error_delivery d) \<and> el_errorCount (fold notify ops s) > 0"
  using assms
proof (induction ops arbitrary: s)
  case (Cons op ops)
  have pos: "el_errorCount (notify op s) > 0"
    using Cons.prems by (cases op) (auto simp: notify_defs Let_def split: sender.splits)
  have "\<exists>ds. el_sent (notify op s) = el_sent s @ ds \<and> (\<forall>d\<in>set ds. error_delivery d)"
    using Cons.prems by (cases op) (auto simp: notify_defs Let_def split: sender.splits)
  with Cons.IH [OF pos] Cons.prems(2) show ?case by auto
qed simp

section \<open>Length of formatted output\<close>

lemma length_show_nat: "n < 10 ^ k \<Longrightarrow> 0 < k \<Longrightarrow> length (show_nat n) \<le> k"
proof (induction k arbitrary: n)
  case (Suc k)
  show ?case
  proof (cases "n < 10")
    case True
    then show ?thesis by (subst show_nat.simps) simp
  next
    case False
    with Suc.prems have "n div 10 < 10 ^ k" "0 < k" by (auto simp: gr0_conv_Suc, cases k) auto
    with Suc.IH False show ?thesis by (subst show_nat.simps) simp
  qed
qed simp

lemma length_itoa: "in_int64 i \<Longrightarrow> length (itoa i) \<le> 20"
proof -
  assume "in_int64 i"
  then have "nat i < 10 ^ 19" "nat (- i) < 10 ^ 19" by (auto simp: int64_defs)
  then have "length (show_nat (nat i)) \<le> 19" "length (show_nat (nat (- i))) \<le> 19" by (simp_all add: length_show_nat)
  then show ?thesis by (simp add: itoa_def)
qed

lemma truncate_at_le: "truncate_at s i \<le> i"
proof (induction i)
  case (Suc i)
  then show ?case by (subst truncate_at.simps) simp
qed (subst truncate_at.simps, simp)

lemma length_code_block [simp]: "length (code_block s) = length s + 8"
  by (simp add: code_block_def nl_def)

section \<open>Properties\<close>

text \<open>
  Claim C38. Errors cannot flood the channel: in a history without a success (no reset) that
  starts with the counter at 0, exactly the first three errors are delivered, the counter is
  the number of errors capped at 1000, and after the first error nothing but errors is
  delivered any more.
\<close>

theorem SendError_limited:
  assumes "el_errorCount s = 0" and "OpReset \<notin> set ops"
  shows "errors_sent (fold notify ops s) = errors_sent s + min (errors_in ops) 3 \<and>
    el_errorCount (fold notify ops s) = int (min (errors_in ops) 1000) \<and>
    (\<forall>pre post. ops = pre @ post \<longrightarrow> 0 < errors_in pre \<longrightarrow>
       (\<exists>ds. el_sent (fold notify ops s) = el_sent (fold notify pre s) @ ds \<and> (\<forall>d\<in>set ds. error_delivery d)))"
proof -
  have lim: "limited (errors_sent s) 0 s" using assms(1) by (simp add: limited_def)
  from limited_run [OF this assms(2)] have "limited (errors_sent s) (errors_in ops) (fold notify ops s)" by simp
  moreover have "\<exists>ds. el_sent (fold notify ops s) = el_sent (fold notify pre s) @ ds \<and> (\<forall>d\<in>set ds. error_delivery d)"
    if "ops = pre @ post" "0 < errors_in pre" for pre post
  proof -
    have "OpReset \<notin> set pre" "OpReset \<notin> set post" using assms(2) that(1) by auto
    with limited_run [OF lim] that(2) have "el_errorCount (fold notify pre s) > 0" by (fastforce simp: limited_def)
    from silent_after_error [OF this \<open>OpReset \<notin> set post\<close>] that(1) show ?thesis by auto
  qed
  ultimately show ?thesis by (auto simp: limited_def)
qed

definition quiet_null :: ErrorLimitingSender where
  "quiet_null = \<lparr>el_underlying = NullSender, el_errorCount = 0, el_quiet = False, el_sent = []\<rparr>"

theorem SendError_limited_witness:
  "errors_sent (fold notify [OpError ''a'', OpSend ''m'', OpError ''b'', OpError ''c'', OpError ''d''] quiet_null) = 3 \<and>
   el_errorCount (fold notify [OpError ''a'', OpSend ''m'', OpError ''b'', OpError ''c'', OpError ''d''] quiet_null) = 4"
proof -
  let ?ops = "[OpError ''a'', OpSend ''m'', OpError ''b'', OpError ''c'', OpError ''d'']"
  have "el_errorCount quiet_null = 0" "OpReset \<notin> set ?ops" "errors_in ?ops = 4" "errors_sent quiet_null = 0"
    by (simp_all add: quiet_null_def errors_sent_def)
  with SendError_limited [of quiet_null ?ops] show ?thesis by simp
qed

text \<open>
  The text of a hook's output always fits a Slack field: it has at most 2008 bytes,
  and an output of at most 50 lines and 2000 bytes is kept unchanged in its code block.
\<close>

lemma formatOutput_bounded:
  assumes "int (length output) \<le> max_int64"
  shows "length (formatOutput output) \<le> 2008 \<and>
    (length (splitC (CHR 0x0A) output) \<le> 50 \<and> length output \<le> 2000 \<longrightarrow> formatOutput output = code_block output)"
proof -
  define lines where "lines = splitC (CHR 0x0A) output"
  define t where "t = joinS nl (if length lines > 50 then take 50 lines @
      [''... ('' @ itoa (int (length lines) - int 50) @ '' more lines truncated)''] else lines)"
  define p where "p = (let q = truncate_at t 1900 in if q = 0 then 1900 else q)"
  define d where "d = itoa (int (length output) - int p)"
  have p: "p \<le> 1900" using truncate_at_le [of t 1900] by (simp add: p_def Let_def)
  have "in_int64 (int (length output) - int p)" using assms p by (auto simp: int64_defs)
  then have d: "length d \<le> 20" unfolding d_def by (rule length_itoa)
  have f: "formatOutput output = code_block (if 2000 < length t then take p t @ nl @ ''... ('' @ d @ '' more characters truncated)'' else t)"
    by (simp add: formatOutput_def t_def p_def d_def lines_def Let_def)
  have "formatOutput output = code_block output" if "length (splitC (CHR 0x0A) output) \<le> 50" "length output \<le> 2000"
  proof -
    have "t = output" using that(1) joinS_splitC [of "CHR 0x0A" "output"] by (simp add: t_def lines_def nl_def)
    with f that(2) show ?thesis by simp
  qed
  with f p d show ?thesis by (simp add: nl_def)
qed

section \<open>The colour\<close>

lemma toUpperC_hexDigit: "n < 16 \<Longrightarrow> toUpperC (hexDigit n) = hexDigit n"
  by (auto simp: toUpperC_def hexDigit_def Let_def)

lemma toUpper_hex02: "toUpper (hex02 w) = hex02 w"
proof -
  have "unat w < 256" using unsigned_less [of w] by simp
  then have "unat w div 16 < 16" by simp
  then show ?thesis by (simp add: toUpper_def hex02_def toUpperC_hexDigit)
qed


end
