(* ===== verification/Lifecycle.thy ===== *)
theory Lifecycle
  imports Registry_Sources Container_Deploy Notifier "HOL-Library.Char_ord" "HOL-Library.List_Lexorder" "HOL-Library.Product_Lexorder"
begin

text \<open>
  The tick of an instance: the phases of a server or assets deployment (dewy.go, lifecycle.go),
  the release directories and the switch of the current link (release.go), hooks (hooks.go), the
  limit of downloads (connio.go) and the name of the application (app_name.go).

  The registry, the cache and the artifact are the interfaces of their packages; they, the
  operating system and the process starter are functions on the state of the world. Links are
  explicit, and a log records what a tick did to the deployment.
\<close>

section \<open>Configuration and state\<close>

datatype Command = SERVER | ASSETS | CONTAINER

fun Command_String :: "Command \<Rightarrow> string" where
  "Command_String SERVER = ''server''" | "Command_String ASSETS = ''assets''" | "Command_String CONTAINER = ''container''"

datatype CacheType = NONE | FILE

fun CacheType_String :: "CacheType \<Rightarrow> string" where
  "CacheType_String NONE = ''none''" | "CacheType_String FILE = ''file''"

record CacheConfig =
  kc_Type :: CacheType
  kc_Expiration :: goint
  kc_URL :: string

text \<open>The settings of the process starter (starter.go); Interval is in seconds.\<close>

record StarterConfig =
  sc_args :: "string list"
  sc_command :: string
  sc_dir :: string
  sc_interval :: goint
  sc_logformat :: string
  sc_pidfile :: string
  sc_ports :: "string list"
  sc_paths :: "string list"
  sc_sigonhup :: string
  sc_sigonterm :: string
  sc_statusfile :: string

definition StarterConfig_Interval :: "StarterConfig \<Rightarrow> duration" where
  "StarterConfig_Interval c = wrap64 (seconds (sc_interval c))"

record Config =
  cg_Command :: Command
  cg_Registry :: string
  cg_Notifier :: string
  cg_AdminPort :: goint
  cg_Cache :: CacheConfig
  cg_Starter :: "StarterConfig option"
  cg_Container :: "ContainerConfig option"
  cg_BeforeDeployHook :: string
  cg_AfterDeployHook :: string
  cg_Slot :: string
  cg_CalVer :: string
  cg_Version :: string

definition DefaultConfig :: Config where
  "DefaultConfig = \<lparr>cg_Command = SERVER, cg_Registry = [], cg_Notifier = [], cg_AdminPort = 0,
     cg_Cache = \<lparr>kc_Type = FILE, kc_Expiration = 10, kc_URL = []\<rparr>, cg_Starter = None, cg_Container = None,
     cg_BeforeDeployHook = [], cg_AfterDeployHook = [], cg_Slot = [], cg_CalVer = [], cg_Version = []\<rparr>"

datatype life_event =
    EvCurrentKey string
  | EvDownloaded string
  | EvHook string
  | EvExtracted string string
  | EvSwitched string
  | EvStarted
  | EvRestarted
  | EvReported ReportRequest
  | EvPruned string
  | EvPulled string
  | EvDeployed string nat

record deploy_metrics =
  dm_DeploymentsTotal :: nat
  dm_DeploymentErrors :: nat
  dm_ServerRestarts :: "string list"

record 'w Dewy =
  dw_config :: Config
  dw_isServerRunning :: bool
  dw_disableReport :: bool
  dw_root :: string
  dw_notifier :: ErrorLimitingSender
  dw_cVer :: string
  dw_metrics :: "deploy_metrics option"
  dw_links :: "string \<Rightarrow> string option"
  dw_world :: 'w
  dw_log :: "life_event list"

record hook_outcome =
  ho_Stdout :: string
  ho_Stderr :: string
  ho_Err :: "goint option option"
  ho_Duration :: duration

text \<open>
  ho_Err is None for a hook that succeeded, the exit code if the shell ended with one, and no
  code if it could not be run. dp_Download yields the writes of a download in order and its own
  error; dp_Chunks stop at the first write that is refused.
\<close>

record 'w deps =
  dp_Current :: "'w \<Rightarrow> 'w \<times> (registry_error + CurrentResponse)"
  dp_Report :: "ReportRequest \<Rightarrow> 'w \<Rightarrow> 'w \<times> string option"
  dp_Now :: "'w \<Rightarrow> 'w \<times> instant"
  dp_Read :: "string \<Rightarrow> 'w \<Rightarrow> 'w \<times> (string + string)"
  dp_Write :: "string \<Rightarrow> string \<Rightarrow> 'w \<Rightarrow> 'w \<times> string option"
  dp_List :: "'w \<Rightarrow> 'w \<times> (string + string list)"
  dp_GetDir :: string
  dp_NewArtifact :: "string \<Rightarrow> string option"
  dp_Download :: "string \<Rightarrow> 'w \<Rightarrow> 'w \<times> string list \<times> string option"
  dp_Hook :: "string \<Rightarrow> string \<Rightarrow> 'w \<Rightarrow> 'w \<times> (string + hook_outcome)"
  dp_Stamp :: "'w \<Rightarrow> 'w \<times> string"
  dp_MkdirAll :: "string \<Rightarrow> 'w \<Rightarrow> 'w \<times> string option"
  dp_Exists :: "string \<Rightarrow> 'w \<Rightarrow> bool"
  dp_Entries :: "'w \<Rightarrow> archive_format \<Rightarrow> string \<Rightarrow> string + archive_entry list"
  dp_Apply :: "extracted \<Rightarrow> 'w \<Rightarrow> 'w \<times> string option"
  dp_SlackFile :: "string \<Rightarrow> 'w \<Rightarrow> string option"
  dp_Remove :: "string \<Rightarrow> 'w \<Rightarrow> 'w \<times> string option"
  dp_Symlink :: "string \<Rightarrow> string \<Rightarrow> 'w \<Rightarrow> 'w \<times> string option"
  dp_Rename :: "string \<Rightarrow> string \<Rightarrow> 'w \<Rightarrow> 'w \<times> string option"
  dp_Signal :: "'w \<Rightarrow> 'w \<times> string option"
  dp_NewStarter :: "'w \<Rightarrow> 'w \<times> string option"
  dp_ReadDir :: "string \<Rightarrow> 'w \<Rightarrow> 'w \<times> (string + (string \<times> instant option) list)"
  dp_RemoveAll :: "string \<Rightarrow> 'w \<Rightarrow> 'w \<times> string option"

definition record_event :: "life_event \<Rightarrow> 'w Dewy \<Rightarrow> 'w Dewy" where
  "record_event e d = d\<lparr>dw_log := dw_log d @ [e]\<rparr>"

definition tell :: "(ErrorLimitingSender \<Rightarrow> ErrorLimitingSender) \<Rightarrow> 'w Dewy \<Rightarrow> 'w Dewy" where
  "tell f d = d\<lparr>dw_notifier := f (dw_notifier d)\<rparr>"

text \<open>A call on the world from within a phase.\<close>

definition call :: "('w \<Rightarrow> 'w \<times> 'a) \<Rightarrow> 'w Dewy \<Rightarrow> 'w Dewy \<times> 'a" where
  "call f d = (case f (dw_world d) of (w, x) \<Rightarrow> (d\<lparr>dw_world := w\<rparr>, x))"

definition backtick :: "string \<Rightarrow> string" where "backtick s = ''`'' @ s @ ''`''"

definition currentkeyName :: string where "currentkeyName = ''current''"

definition keepReleasesCount :: nat where "keepReleasesCount = 7"

definition MaxArtifactSize :: int where "MaxArtifactSize = 512 * 1024 * 1024"

definition defaultArtifactGracePeriod :: duration where "defaultArtifactGracePeriod = seconds 1800"

section \<open>Names\<close>

definition deriveAppNameFromRegistry :: "string \<Rightarrow> string" where
  "deriveAppNameFromRegistry registryURL =
     (case splitN2 registryURL ''://'' of
        [_, rest] \<Rightarrow> hd (splitC (CHR '':'') (hd (splitC (CHR ''?'') (last (splitC (CHR ''/'') rest)))))
      | _ \<Rightarrow> [])"

definition appName :: "Config \<Rightarrow> string" where
  "appName c = (case cg_Container c of
     Some cc \<Rightarrow> if cc_Name cc \<noteq> [] then cc_Name cc else deriveAppNameFromRegistry (cg_Registry c)
   | None \<Rightarrow> deriveAppNameFromRegistry (cg_Registry c))"

definition cachekeyName :: "CurrentResponse \<Rightarrow> string" where
  "cachekeyName res = cr_Tag res @ ''--'' @ basePath (hd (splitN2 (cr_ArtifactURL res) ''?''))"

section \<open>The limit of a download (connio.go)\<close>

record limitedWriter =
  lw_W :: string
  lw_N :: int
  lw_written :: int

definition limited_Write :: "string \<Rightarrow> limitedWriter \<Rightarrow> limitedWriter \<times> string option" where
  "limited_Write p lw =
     (if wrap64 (lw_written lw + int (length p)) > lw_N lw
      then (lw, Some (''write limit exceeded: maximum '' @ itoa (lw_N lw) @ '' bytes''))
      else (lw\<lparr>lw_W := lw_W lw @ p, lw_written := wrap64 (lw_written lw + int (length p))\<rparr>, None))"

fun limited_writes :: "string list \<Rightarrow> limitedWriter \<Rightarrow> limitedWriter \<times> string option" where
  "limited_writes [] lw = (lw, None)"
| "limited_writes (p # ps) lw = (case limited_Write p lw of
     (lw, Some err) \<Rightarrow> (lw, Some err) | (lw, None) \<Rightarrow> limited_writes ps lw)"

section \<open>Hooks (hooks.go)\<close>

definition execHook :: "'w deps \<Rightarrow> string \<Rightarrow> 'w Dewy \<Rightarrow> 'w Dewy \<times> HookResult option \<times> bool" where
  "execHook dp cmd d =
     (if cmd = [] then (d, None, False)
      else case call (dp_Hook dp (dw_root d) cmd) d of
        (d, Inl err) \<Rightarrow> (d, None, True)
      | (d, Inr r) \<Rightarrow> (record_event (EvHook cmd) d,
          Some \<lparr>hr_Command = cmd, hr_Stdout = trimSpace (ho_Stdout r), hr_Stderr = trimSpace (ho_Stderr r),
            hr_ExitCode = (case ho_Err r of None \<Rightarrow> 0 | Some (Some code) \<Rightarrow> code | Some None \<Rightarrow> 1),
            hr_Duration = ho_Duration r, hr_Success = (ho_Err r = None)\<rparr>, ho_Err r \<noteq> None))"

text \<open>The use every caller makes of a hook: send its result on, log and ignore its failure.\<close>

definition runHook :: "'w deps \<Rightarrow> string \<Rightarrow> string \<Rightarrow> 'w Dewy \<Rightarrow> 'w Dewy" where
  "runHook dp name cmd d = (case execHook dp cmd d of
     (d, Some result, _) \<Rightarrow> tell (SendHookResult name result) d | (d, None, _) \<Rightarrow> d)"

section \<open>Releases (release.go)\<close>

definition preserve :: "'w deps \<Rightarrow> string \<Rightarrow> 'w Dewy \<Rightarrow> 'w Dewy \<times> (string + string)" where
  "preserve dp p d =
     (case call (dp_Stamp dp) d of (d, stamp) \<Rightarrow>
       let dst = joinPath (joinPath (dw_root d) ''releases'') stamp in
       (case call (dp_MkdirAll dp dst) d of
          (d, Some err) \<Rightarrow> (d, Inl err)
        | (d, None) \<Rightarrow>
            (case ExtractArchive (dp_Entries dp (dw_world d)) (dp_Apply dp) (dp_Exists dp p (dw_world d)) p dst (dw_world d) of
               (w, _, Some err) \<Rightarrow> (d\<lparr>dw_world := w\<rparr>, Inl err)
             | (w, _, None) \<Rightarrow> (record_event (EvExtracted p dst) (d\<lparr>dw_world := w\<rparr>), Inr dst))))"

definition linkPath :: "'w Dewy \<Rightarrow> string" where "linkPath d = joinPath (dw_root d) ''current''"

text \<open>os.Remove, os.Symlink and os.Rename on links; Symlink refuses an existing name.\<close>

definition link_Remove :: "'w deps \<Rightarrow> string \<Rightarrow> 'w Dewy \<Rightarrow> 'w Dewy" where
  "link_Remove dp l d = (case call (dp_Remove dp l) d of
     (d, Some _) \<Rightarrow> d | (d, None) \<Rightarrow> d\<lparr>dw_links := (dw_links d)(l := None)\<rparr>)"

definition link_Symlink :: "'w deps \<Rightarrow> string \<Rightarrow> string \<Rightarrow> 'w Dewy \<Rightarrow> 'w Dewy \<times> string option" where
  "link_Symlink dp tgt l d =
     (if dw_links d l \<noteq> None then (d, Some ''file exists'')
      else case call (dp_Symlink dp tgt l) d of
        (d, Some err) \<Rightarrow> (d, Some err) | (d, None) \<Rightarrow> (d\<lparr>dw_links := (dw_links d)(l := Some tgt)\<rparr>, None))"

definition link_Rename :: "'w deps \<Rightarrow> string \<Rightarrow> string \<Rightarrow> 'w Dewy \<Rightarrow> 'w Dewy \<times> string option" where
  "link_Rename dp l l' d = (case call (dp_Rename dp l l') d of
     (d, Some err) \<Rightarrow> (d, Some err)
   | (d, None) \<Rightarrow> (d\<lparr>dw_links := (dw_links d)(l := None, l' := dw_links d l)\<rparr>, None))"

definition switchLink :: "'w deps \<Rightarrow> string \<Rightarrow> 'w Dewy \<Rightarrow> 'w Dewy \<times> string option" where
  "switchLink dp linkFrom d =
     (let linkTo = linkPath d; tmpLink = linkTo @ ''.tmp'' in
      (case link_Symlink dp linkFrom tmpLink (link_Remove dp tmpLink d) of
         (d, Some err) \<Rightarrow> (d, Some err)
       | (d, None) \<Rightarrow> (case link_Rename dp tmpLink linkTo d of
           (d, Some err) \<Rightarrow> (link_Remove dp tmpLink d, Some err)
         | (d, None) \<Rightarrow> (record_event (EvSwitched linkFrom) d, None))))"

definition deploy :: "'w deps \<Rightarrow> string \<Rightarrow> 'w Dewy \<Rightarrow> 'w Dewy \<times> string option" where
  "deploy dp key d =
     (let d = runHook dp ''Before Deploy'' (cg_BeforeDeployHook (dw_config d)) d in
      (case preserve dp (joinPath (dp_GetDir dp) key) d of
         (d, Inl err) \<Rightarrow> (d, Some err)
       | (d, Inr linkFrom) \<Rightarrow>
           let d = tell (OnDeploy (dp_SlackFile dp linkFrom (dw_world d))) d in
           (case switchLink dp linkFrom d of
              (d, Some err) \<Rightarrow> (d, Some err)
            | (d, None) \<Rightarrow> (runHook dp ''After Deploy'' (cg_AfterDeployHook (dw_config d)) d, None))))"

definition newestReleases :: "(string \<times> instant option) list \<Rightarrow> (string \<times> instant) list" where
  "newestReleases files = sort_key (\<lambda>(name, t). (- t, name)) (List.map_filter (\<lambda>(name, t). map_option (Pair name) t) files)"

definition selectStaleReleases :: "(string \<times> instant option) list \<Rightarrow> nat \<Rightarrow> string list" where
  "selectStaleReleases files keep =
     (let stat = newestReleases files in if length stat \<le> keep then [] else map fst (drop keep stat))"

fun removeReleases :: "'w deps \<Rightarrow> string \<Rightarrow> string list \<Rightarrow> 'w Dewy \<Rightarrow> 'w Dewy \<times> string option" where
  "removeReleases dp dir [] d = (d, None)"
| "removeReleases dp dir (name # names) d =
     (case call (dp_RemoveAll dp (joinPath dir name)) d of
        (d, Some err) \<Rightarrow> (d, Some err) | (d, None) \<Rightarrow> removeReleases dp dir names (record_event (EvPruned name) d))"

definition keepReleases :: "'w deps \<Rightarrow> 'w Dewy \<Rightarrow> 'w Dewy \<times> string option" where
  "keepReleases dp d =
     (let dir = joinPath (dw_root d) ''releases'' in
      (case call (dp_ReadDir dp dir) d of
         (d, Inl err) \<Rightarrow> (d, Some err)
       | (d, Inr files) \<Rightarrow> removeReleases dp dir (selectStaleReleases files keepReleasesCount) d))"

definition restartServer :: "'w deps \<Rightarrow> 'w Dewy \<Rightarrow> 'w Dewy \<times> string option" where
  "restartServer dp d = (case call (dp_Signal dp) d of
     (d, Some err) \<Rightarrow> (d, Some err) | (d, None) \<Rightarrow> (record_event EvRestarted d, None))"

text \<open>The goroutine that runs the server clears the flag when the server fails: a step of its own, below.\<close>

definition startServer :: "'w deps \<Rightarrow> 'w Dewy \<Rightarrow> 'w Dewy \<times> string option" where
  "startServer dp d = (case call (dp_NewStarter dp) d of
     (d, Some err) \<Rightarrow> (d, Some err) | (d, None) \<Rightarrow> (record_event EvStarted (d\<lparr>dw_isServerRunning := True\<rparr>), None))"

definition serverFailed :: "'w Dewy \<Rightarrow> 'w Dewy" where
  "serverFailed d = d\<lparr>dw_isServerRunning := False\<rparr>"

section \<open>Metrics (server_metrics.go)\<close>

definition recordDeployment :: "bool \<Rightarrow> 'w Dewy \<Rightarrow> 'w Dewy" where
  "recordDeployment failed d = d\<lparr>dw_metrics := map_option (\<lambda>m.
     if failed then m\<lparr>dm_DeploymentErrors := Suc (dm_DeploymentErrors m)\<rparr>
     else m\<lparr>dm_DeploymentsTotal := Suc (dm_DeploymentsTotal m)\<rparr>) (dw_metrics d)\<rparr>"

definition recordServerRestart :: "string \<Rightarrow> 'w Dewy \<Rightarrow> 'w Dewy" where
  "recordServerRestart reason d = d\<lparr>dw_metrics := map_option (\<lambda>m. m\<lparr>dm_ServerRestarts := dm_ServerRestarts m @ [reason]\<rparr>) (dw_metrics d)\<rparr>"

section \<open>The phases of a tick (lifecycle.go)\<close>

text \<open>The text of an error of the registry.\<close>

fun registry_error_text :: "registry_error \<Rightarrow> string" where
  "registry_error_text (ArtifactNotFoundError name t msg) = msg"
| "registry_error_text (RegistryError msg) = msg"
| "registry_error_text RegistryPanic = ''panic''"

definition resolveCurrent :: "'w deps \<Rightarrow> 'w Dewy \<Rightarrow> 'w Dewy \<times> (string + CurrentResponse option)" where
  "resolveCurrent dp d =
     (case call (dp_Current dp) d of
        (d, Inl err) \<Rightarrow> (case call (dp_Now dp) d of (d, now) \<Rightarrow>
            if IsWithinGracePeriod now defaultArtifactGracePeriod err then (d, Inr None) else (d, Inl (registry_error_text err)))
      | (d, Inr res) \<Rightarrow>
          if \<not> SlotMatcher_Matches (cg_Slot (dw_config d)) (cr_Slot res) then (d, Inr None) else (d, Inr (Some res)))"

record cacheState =
  cs_key :: string
  cs_foundInCache :: bool
  cs_skip :: bool

definition setCurrentKey :: "'w deps \<Rightarrow> string \<Rightarrow> 'w Dewy \<Rightarrow> 'w Dewy \<times> string option" where
  "setCurrentKey dp key d = (case call (dp_Write dp currentkeyName key) d of
     (d, Some err) \<Rightarrow> (d, Some err) | (d, None) \<Rightarrow> (record_event (EvCurrentKey key) d, None))"

definition resolveCacheState :: "'w deps \<Rightarrow> CurrentResponse \<Rightarrow> 'w Dewy \<Rightarrow> 'w Dewy \<times> (string + cacheState)" where
  "resolveCacheState dp res d =
     (let key = cachekeyName res; st = \<lparr>cs_key = key, cs_foundInCache = False, cs_skip = False\<rparr> in
      (case call (dp_Read dp currentkeyName) d of (d, current) \<Rightarrow>
        let currentkeyValue = (case current of Inr v \<Rightarrow> v | Inl _ \<Rightarrow> []) in
        (case call (dp_List dp) d of
           (d, Inl err) \<Rightarrow> (d, Inl err)
         | (d, Inr keys) \<Rightarrow>
             if key \<notin> set keys then (d, Inr st)
             else if currentkeyValue = key \<and> (cg_Command (dw_config d) = SERVER \<and> dw_isServerRunning d \<or> cg_Command (dw_config d) = ASSETS)
             then (d, Inr (st\<lparr>cs_foundInCache := True, cs_skip := True\<rparr>))
             else (case (if currentkeyValue = key then (d, None) else setCurrentKey dp key d) of
                 (d, Some err) \<Rightarrow> (d, Inl err)
               | (d, None) \<Rightarrow> (case call (dp_Read dp key) d of
                   (d, Inl err) \<Rightarrow> (d, Inl (''failed to load cached artifact: '' @ err))
                 | (d, Inr _) \<Rightarrow> (d, Inr (st\<lparr>cs_foundInCache := True\<rparr>)))))))"

definition fetchArtifact :: "'w deps \<Rightarrow> string \<Rightarrow> 'w Dewy \<Rightarrow> 'w Dewy \<times> (string + string)" where
  "fetchArtifact dp url d =
     (case call (\<lambda>w. case dp_Download dp url w of (w, chunks, err) \<Rightarrow> (w, chunks, err)) d of
        (d, chunks, err) \<Rightarrow>
          (case limited_writes chunks \<lparr>lw_W = [], lw_N = MaxArtifactSize, lw_written = 0\<rparr> of
             (lw, Some werr) \<Rightarrow> (d, Inl werr)
           | (lw, None) \<Rightarrow> (d, case err of Some e \<Rightarrow> Inl e | None \<Rightarrow> Inr (lw_W lw))))"

definition downloadAndCache :: "'w deps \<Rightarrow> CurrentResponse \<Rightarrow> cacheState \<Rightarrow> 'w Dewy \<Rightarrow> 'w Dewy \<times> string option" where
  "downloadAndCache dp res st d =
     (if cs_foundInCache st then (d, None)
      else case dp_NewArtifact dp (cr_ArtifactURL res) of
        Some err \<Rightarrow> (d, Some (''failed artifact.New: '' @ err))
      | None \<Rightarrow> (case fetchArtifact dp (cr_ArtifactURL res) d of
          (d, Inl err) \<Rightarrow> (d, Some (''failed artifact.Download: '' @ err))
        | (d, Inr bytes) \<Rightarrow> (case call (dp_Write dp (cs_key st) bytes) d of
            (d, Some err) \<Rightarrow> (d, Some (''failed cache.Write cachekeyName: '' @ err))
          | (d, None) \<Rightarrow> (case setCurrentKey dp (cs_key st) (record_event (EvDownloaded (cs_key st)) d) of
              (d, Some err) \<Rightarrow> (d, Some (''failed cache.Write currentkeyName: '' @ err))
            | (d, None) \<Rightarrow> (d, None)))))"

definition applyDeployment :: "'w deps \<Rightarrow> CurrentResponse \<Rightarrow> string \<Rightarrow> 'w Dewy \<Rightarrow> 'w Dewy \<times> string option" where
  "applyDeployment dp res key d = deploy dp key (tell (Send (''Downloaded artifact for '' @ backtick (cr_Tag res))) d)"

text \<open>The server command, the only one that starts a server, always has a starter configuration.\<close>

definition withoutPort :: "'w Dewy \<Rightarrow> string" where
  "withoutPort d = (case cg_Starter (dw_config d) of
     Some sc \<Rightarrow> if sc_ports sc = [] then '' without port'' else [] | None \<Rightarrow> [])"

definition startOrRestartServer :: "'w deps \<Rightarrow> 'w Dewy \<Rightarrow> 'w Dewy \<times> string option" where
  "startOrRestartServer dp d =
     (if dw_isServerRunning d then
        (case restartServer dp d of
           (d, Some err) \<Rightarrow> (d, Some err)
         | (d, None) \<Rightarrow> (tell (SendImportant (''Server restarted for '' @ backtick (dw_cVer d) @ withoutPort d)) (recordServerRestart ''deploy'' d), None))
      else
        (case startServer dp d of
           (d, Some err) \<Rightarrow> (d, Some err)
         | (d, None) \<Rightarrow> (tell (SendImportant (''Server started for '' @ backtick (dw_cVer d) @ withoutPort d)) d, None)))"

definition reportDeployment :: "'w deps \<Rightarrow> CurrentResponse \<Rightarrow> 'w Dewy \<Rightarrow> 'w Dewy" where
  "reportDeployment dp res d =
     (if dw_disableReport d then d
      else let req = \<lparr>rr_ID = cr_ID res, rr_Tag = cr_Tag res, rr_Command = Command_String (cg_Command (dw_config d)), rr_Err = None\<rparr>
           in record_event (EvReported req) (fst (call (dp_Report dp req) d)))"

definition promoteAndReport :: "'w deps \<Rightarrow> CurrentResponse \<Rightarrow> 'w Dewy \<Rightarrow> 'w Dewy \<times> string option" where
  "promoteAndReport dp res d =
     (let d = d\<lparr>dw_cVer := cr_Tag res\<rparr> in
      (case (if cg_Command (dw_config d) = SERVER then startOrRestartServer dp d else (d, None)) of
         (d, Some err) \<Rightarrow> (d, Some err)
       | (d, None) \<Rightarrow> (fst (keepReleases dp (reportDeployment dp res d)), None)))"

section \<open>The tick (dewy.go)\<close>

definition runDeploy :: "'w deps \<Rightarrow> CurrentResponse \<Rightarrow> cacheState \<Rightarrow> 'w Dewy \<Rightarrow> 'w Dewy \<times> string option" where
  "runDeploy dp res st d =
     (case downloadAndCache dp res st d of
        (d, Some err) \<Rightarrow> (d, Some err)
      | (d, None) \<Rightarrow> (case applyDeployment dp res (cs_key st) d of
          (d, Some err) \<Rightarrow> (d, Some err)
        | (d, None) \<Rightarrow> promoteAndReport dp res d))"

definition dewy_Run :: "'w deps \<Rightarrow> 'w Dewy \<Rightarrow> 'w Dewy \<times> string option" where
  "dewy_Run dp d =
     (case resolveCurrent dp d of
        (d, Inl err) \<Rightarrow> (d, Some err)
      | (d, Inr None) \<Rightarrow> (d, None)
      | (d, Inr (Some res)) \<Rightarrow> (case resolveCacheState dp res d of
          (d, Inl err) \<Rightarrow> (d, Some err)
        | (d, Inr st) \<Rightarrow>
            if cs_skip st then (d, None)
            else (case runDeploy dp res st d of (d, err) \<Rightarrow> (recordDeployment (err \<noteq> None) d, err))))"

end
