(* ===== verification/Lifecycle_Props.thy ===== *)
theory Lifecycle_Props
  imports Lifecycle
begin

text \<open>
  The properties of a tick of the commands server and assets: what each phase adds to the log of
  effects, when the link is switched, when a tick changes nothing, which releases are removed.
\<close>

section \<open>What a phase adds to the log\<close>

text \<open>From d to d' only events with P are added; root, configuration and links stay.\<close>

definition adds :: "(life_event \<Rightarrow> bool) \<Rightarrow> 'w Dewy \<Rightarrow> 'w Dewy \<Rightarrow> bool" where
  "adds P d d' = (dw_root d' = dw_root d \<and> dw_config d' = dw_config d \<and> dw_disableReport d' = dw_disableReport d \<and>
     dw_links d' (linkPath d) = dw_links d (linkPath d) \<and> (\<exists>evs. dw_log d' = dw_log d @ evs \<and> list_all P evs))"

fun is_hook :: "life_event \<Rightarrow> bool" where "is_hook (EvHook c) = True" | "is_hook _ = False"

fun is_early :: "life_event \<Rightarrow> bool" where
  "is_early (EvCurrentKey k) = True" | "is_early (EvDownloaded k) = True" | "is_early (EvHook c) = True"
| "is_early (EvExtracted p q) = True" | "is_early _ = False"

fun is_late :: "life_event \<Rightarrow> bool" where
  "is_late EvStarted = True" | "is_late EvRestarted = True" | "is_late (EvReported r) = True" | "is_late (EvPruned n) = True"
| "is_late (EvHook c) = True" | "is_late _ = False"

lemma linkPath_cong: "dw_root d = dw_root d' \<Longrightarrow> linkPath d = linkPath d'"
  by (simp add: linkPath_def)

lemma adds_refl [simp, intro]: "adds P d d"
  by (simp add: adds_def)

lemma adds_trans [trans]: "adds P a b \<Longrightarrow> adds P b c \<Longrightarrow> adds P a c"
  using linkPath_cong [of a b] by (fastforce simp: adds_def)

lemma adds_mono: "adds P a b \<Longrightarrow> (\<And>e. P e \<Longrightarrow> Q e) \<Longrightarrow> adds Q a b"
  by (auto simp: adds_def list_all_iff)

lemma adds_call [simp]: "adds P a (fst (call f d)) = adds P a d"
  by (simp add: adds_def call_def split: prod.splits)

lemma adds_call_eq: "call f d = (d', x) \<Longrightarrow> adds P a d' = adds P a d"
  using adds_call [of P a f d] by simp

lemma adds_tell [simp]: "adds P a (tell f d) = adds P a d"
  by (simp add: adds_def tell_def)

lemma adds_record: "adds P a d \<Longrightarrow> P e \<Longrightarrow> adds P a (record_event e d)"
  by (auto simp: adds_def record_event_def)

lemma adds_flags [simp]:
  "adds P a (d\<lparr>dw_isServerRunning := b\<rparr>) = adds P a d" "adds P a (d\<lparr>dw_cVer := v\<rparr>) = adds P a d"
  "adds P a (recordServerRestart s d) = adds P a d" "adds P a (recordDeployment f d) = adds P a d"
  "adds P a (d\<lparr>dw_world := w\<rparr>) = adds P a d"
  by (simp_all add: adds_def recordServerRestart_def recordDeployment_def)

lemma adds_execHook: "execHook dp cmd d = (d', r) \<Longrightarrow> adds is_hook d d'"
  by (auto simp: execHook_def adds_call_eq split: if_splits prod.splits sum.splits intro: adds_record)

lemma adds_runHook: "adds is_hook d (runHook dp name cmd d)"
  by (auto simp: runHook_def split: prod.splits option.splits dest: adds_execHook)

lemma adds_False: "adds (\<lambda>_. False) d d' \<Longrightarrow> dw_log d' = dw_log d"
  by (auto simp: adds_def list_all_iff)

lemma preserve_adds:
  assumes "preserve dp p d = (d', r)"
  shows "(\<forall>e. r = Inl e \<longrightarrow> adds (\<lambda>_. False) d d') \<and> (\<forall>dst. r = Inr dst \<longrightarrow> adds is_early d d' \<and> dw_log d' = dw_log d @ [EvExtracted p dst])"
proof -
  obtain d1 stamp where 1: "call (dp_Stamp dp) d = (d1, stamp)" by (rule prod.exhaust)
  let ?dst = "joinPath (joinPath (dw_root d1) ''releases'') stamp"
  obtain d2 e where 2: "call (dp_MkdirAll dp ?dst) d1 = (d2, e)" by (rule prod.exhaust)
  have a: "adds (\<lambda>_. False) d d2" using adds_call_eq [OF 1, of "\<lambda>_. False" d] adds_call_eq [OF 2, of "\<lambda>_. False" d] by simp
  then have "adds (\<lambda>_. False) d (d2\<lparr>dw_world := w\<rparr>)" for w by simp
  moreover have "adds is_early d (record_event (EvExtracted p ?dst) (d2\<lparr>dw_world := w\<rparr>))" for w
    using adds_mono [OF a, of is_early] by (intro adds_record) simp_all
  moreover have "dw_log (record_event (EvExtracted p ?dst) (d2\<lparr>dw_world := w\<rparr>)) = dw_log d @ [EvExtracted p ?dst]" for w
    using adds_False [OF a] by (simp add: record_event_def)
  ultimately show ?thesis using assms 1 2 a by (auto simp: preserve_def Let_def split: option.splits prod.splits)
qed

lemma link_Remove_adds: "l \<noteq> linkPath d \<Longrightarrow> adds P d (link_Remove dp l d)"
  by (auto simp: link_Remove_def adds_def call_def split: prod.splits option.splits)

lemma link_Remove_root [simp]: "dw_root (link_Remove dp l d) = dw_root d" "linkPath (link_Remove dp l d) = linkPath d"
  by (auto simp: link_Remove_def call_def linkPath_def split: prod.splits option.splits)

lemma link_Symlink_adds:
  "link_Symlink dp t l d = (d', e) \<Longrightarrow> l \<noteq> linkPath d \<Longrightarrow> adds P d d' \<and> (e = None \<longrightarrow> dw_links d' l = Some t)"
  by (auto simp: link_Symlink_def adds_def call_def split: prod.splits option.splits if_splits)

lemma tmp_not_link: "linkPath d @ ''.tmp'' \<noteq> linkPath d'" if "dw_root d = dw_root d'"
  using linkPath_cong [OF that] by simp

lemma switchLink_adds:
  assumes "switchLink dp t d = (d', e)"
  shows "(e \<noteq> None \<longrightarrow> adds (\<lambda>_. False) d d') \<and>
    (e = None \<longrightarrow> dw_root d' = dw_root d \<and> dw_config d' = dw_config d \<and> dw_disableReport d' = dw_disableReport d \<and>
       dw_links d' (linkPath d) = Some t \<and> dw_log d' = dw_log d @ [EvSwitched t])"
proof -
  let ?tmp = "linkPath d @ ''.tmp''"
  define d0 where "d0 = link_Remove dp ?tmp d"
  have 0: "adds (\<lambda>_. False) d d0" "linkPath d0 = linkPath d" "?tmp \<noteq> linkPath d0" unfolding d0_def by (simp_all add: link_Remove_adds)
  obtain d1 e1 where 1: "link_Symlink dp t ?tmp d0 = (d1, e1)" by (rule prod.exhaust)
  note s = link_Symlink_adds [OF 1 0(3), of "\<lambda>_. False"]
  have a1: "adds (\<lambda>_. False) d d1" using adds_trans [OF 0(1)] s by blast
  then have l1: "linkPath d1 = linkPath d" by (simp add: adds_def linkPath_def)
  obtain d2 e2 where 2: "call (dp_Rename dp ?tmp (linkPath d)) d1 = (d2, e2)" by (rule prod.exhaust)
  have a2: "adds (\<lambda>_. False) d d2" using adds_call_eq [OF 2, of "\<lambda>_. False" d] a1 by simp
  then have l2: "linkPath d2 = linkPath d" by (simp add: adds_def linkPath_def)
  have a3: "adds (\<lambda>_. False) d (link_Remove dp ?tmp d2)" using adds_trans [OF a2 link_Remove_adds] l2 by simp
  have links: "dw_links d2 = dw_links d1" using 2 by (auto simp: call_def split: prod.splits)
  show ?thesis
  proof (cases e1)
    case (Some x)
    then have "d' = d1 \<and> e = Some x" using assms 1 by (simp add: switchLink_def Let_def d0_def)
    then show ?thesis using a1 by simp
  next
    case None
    show ?thesis
    proof (cases e2)
      case (Some x)
      then have "d' = link_Remove dp ?tmp d2 \<and> e = Some x" using assms 1 None 2 by (simp add: switchLink_def Let_def d0_def link_Rename_def)
      then show ?thesis using a3 by simp
    next
      case N2: None
      have "d' = record_event (EvSwitched t) (d2\<lparr>dw_links := (dw_links d2)(?tmp := None, linkPath d := dw_links d2 ?tmp)\<rparr>) \<and> e = None"
        using assms 1 None 2 N2 by (simp add: switchLink_def Let_def d0_def link_Rename_def)
      moreover have "dw_links d2 ?tmp = Some t" using s None links by simp
      ultimately show ?thesis using a2 by (auto simp: record_event_def adds_def list_all_iff)
    qed
  qed
qed


lemma early_hook: "is_hook e \<Longrightarrow> is_early e" "is_hook e \<Longrightarrow> is_late e"
  by (cases e; simp)+

text \<open>
  The log of a deployment that switched the link to t: early events up to the extraction of t,
  the switch, and then only late ones.
\<close>

definition switched :: "'w Dewy \<Rightarrow> 'w Dewy \<Rightarrow> string \<Rightarrow> bool" where
  "switched d d' t = (dw_root d' = dw_root d \<and> dw_config d' = dw_config d \<and> dw_disableReport d' = dw_disableReport d \<and>
     dw_links d' (linkPath d) = Some t \<and>
     (\<exists>p pre post. dw_log d' = dw_log d @ pre @ [EvExtracted p t, EvSwitched t] @ post \<and> list_all is_early pre \<and> list_all is_late post))"

lemma switched_late: "switched a b t \<Longrightarrow> adds is_late b c \<Longrightarrow> switched a c t"
  using linkPath_cong [of a b] by (fastforce simp: switched_def adds_def)

lemma switched_early:
  assumes "adds is_early a b" and "switched b c t"
  shows "switched a c t"
proof -
  from assms(1) obtain evs where 1: "dw_log b = dw_log a @ evs" "list_all is_early evs" by (auto simp: adds_def)
  from assms(2) obtain p pre post where 2: "dw_log c = dw_log b @ pre @ [EvExtracted p t, EvSwitched t] @ post"
      "list_all is_early pre" "list_all is_late post" by (auto simp: switched_def)
  have "dw_log c = dw_log a @ (evs @ pre) @ [EvExtracted p t, EvSwitched t] @ post" "list_all is_early (evs @ pre)"
    using 1 2 by simp_all
  moreover have "linkPath b = linkPath a" using assms(1) by (simp add: adds_def linkPath_def)
  ultimately show ?thesis using assms 2(3) unfolding switched_def adds_def by metis
qed

lemma deploy_adds:
  assumes "deploy dp key d = (d', e)"
  shows "(e \<noteq> None \<longrightarrow> adds is_early d d') \<and> (e = None \<longrightarrow> (\<exists>t. switched d d' t))"
proof -
  define d0 where "d0 = runHook dp ''Before Deploy'' (cg_BeforeDeployHook (dw_config d)) d"
  have 0: "adds is_early d d0" unfolding d0_def by (rule adds_mono [OF adds_runHook early_hook(1)])
  obtain d1 r where 1: "preserve dp (joinPath (dp_GetDir dp) key) d0 = (d1, r)" by (rule prod.exhaust)
  note p = preserve_adds [OF 1]
  show ?thesis
  proof (cases r)
    case (Inl x)
    with assms 1 have "d' = d1 \<and> e = Some x" by (simp add: deploy_def Let_def d0_def)
    with p Inl adds_trans [OF 0 adds_mono] show ?thesis by auto
  next
    case (Inr t)
    define d2 where "d2 = tell (OnDeploy (dp_SlackFile dp t (dw_world d1))) d1"
    have l: "dw_log d2 = dw_log d0 @ [EvExtracted (joinPath (dp_GetDir dp) key) t]" using p Inr by (simp add: d2_def tell_def)
    have a2: "adds is_early d0 d2" using p Inr by (simp add: d2_def)
    obtain d3 e3 where 3: "switchLink dp t d2 = (d3, e3)" by (rule prod.exhaust)
    note s = switchLink_adds [OF 3]
    show ?thesis
    proof (cases e3)
      case (Some x)
      with assms 1 Inr 3 have "d' = d3 \<and> e = Some x" by (simp add: deploy_def Let_def d0_def d2_def)
      moreover have "adds is_early d2 d3" using s Some by (auto intro: adds_mono)
      ultimately show ?thesis using adds_trans [OF 0 adds_trans [OF a2]] by auto
    next
      case None
      with assms 1 Inr 3 have d': "d' = runHook dp ''After Deploy'' (cg_AfterDeployHook (dw_config d3)) d3 \<and> e = None"
        by (simp add: deploy_def Let_def d0_def d2_def)
      have "linkPath d2 = linkPath d0" using a2 by (simp add: adds_def linkPath_def)
      moreover have "dw_log d3 = dw_log d0 @ [] @ [EvExtracted (joinPath (dp_GetDir dp) key) t, EvSwitched t] @ []" using s None l by simp
      moreover have "list_all is_early []" "list_all is_late []" by simp_all
      ultimately have "switched d0 d3 t" using s None a2 unfolding switched_def adds_def by metis
      then have "switched d d' t" using switched_late [OF switched_early [OF 0] adds_mono [OF adds_runHook early_hook(2)]] d' by blast
      with d' show ?thesis by blast
    qed
  qed
qed

lemma setCurrentKey_adds: "setCurrentKey dp k d = (d', e) \<Longrightarrow> adds is_early d d'"
  by (auto simp: setCurrentKey_def adds_call_eq split: prod.splits option.splits intro: adds_record)

lemma resolveCurrent_adds: "resolveCurrent dp d = (d', r) \<Longrightarrow> adds is_early d d'"
  by (auto simp: resolveCurrent_def adds_call_eq split: prod.splits sum.splits if_splits)

lemma call_adds: "call f d = (d', x) \<Longrightarrow> adds P d d'"
  using adds_call_eq [of f d d' x P d] by simp

lemma resolveCacheState_adds:
  assumes "resolveCacheState dp res d = (d', r)"
  shows "adds is_early d d'"
proof -
  obtain d1 cur where 1: "call (dp_Read dp currentkeyName) d = (d1, cur)" by (rule prod.exhaust)
  obtain d2 ks where 2: "call (dp_List dp) d1 = (d2, ks)" by (rule prod.exhaust)
  have a: "adds is_early d d2" using call_adds [OF 1] call_adds [OF 2] adds_trans by blast
  have b: "adds is_early d d3" if "call f d2 = (d3, x)" for f :: "'a \<Rightarrow> 'a \<times> (string + string)" and d3 x
    using adds_trans [OF a call_adds [OF that]] .
  have c: "adds is_early d d3" if "setCurrentKey dp k d2 = (d3, x)" for k d3 x
    using adds_trans [OF a setCurrentKey_adds [OF that]] .
  have e: "adds is_early d d4" if "setCurrentKey dp k d2 = (d3, x)" "call f d3 = (d4, y)" for k d3 d4 x y and f :: "'a \<Rightarrow> 'a \<times> (string + string)"
    using adds_trans [OF c [OF that(1)] call_adds [OF that(2)]] .
  show ?thesis using assms 1 2 a b c e
    by (auto simp: resolveCacheState_def Let_def split: prod.splits sum.splits if_splits option.splits)
qed

lemma fetchArtifact_adds: "fetchArtifact dp url d = (d', r) \<Longrightarrow> adds P d d'"
  by (auto simp: fetchArtifact_def split: prod.splits option.splits intro: call_adds)

lemma downloadAndCache_adds:
  assumes "downloadAndCache dp res st d = (d', e)"
  shows "adds is_early d d'"
proof -
  obtain d1 r where 1: "fetchArtifact dp (cr_ArtifactURL res) d = (d1, r)" by (rule prod.exhaust)
  note a = fetchArtifact_adds [OF 1, of is_early]
  have b: "adds is_early d d2" if "call f d1 = (d2, x)" for f :: "'a \<Rightarrow> 'a \<times> string option" and d2 x
    using adds_trans [OF a call_adds [OF that]] .
  have c: "adds is_early d d3" if "call f d1 = (d2, x)" "setCurrentKey dp k (record_event (EvDownloaded k) d2) = (d3, y)"
    for f :: "'a \<Rightarrow> 'a \<times> string option" and d2 d3 x y k
    using adds_trans [OF adds_record [OF b [OF that(1)]] setCurrentKey_adds [OF that(2)]] by simp
  show ?thesis using assms 1 a b c
    by (auto simp: downloadAndCache_def split: prod.splits sum.splits if_splits option.splits)
qed

lemma removeReleases_adds: "adds is_late d (fst (removeReleases dp dir names d))"
proof (induction dp dir names d rule: removeReleases.induct)
  case (2 dp dir name names d)
  obtain d1 e where c: "call (dp_RemoveAll dp (joinPath dir name)) d = (d1, e)" by (rule prod.exhaust)
  have "adds is_late d (record_event (EvPruned name) d1)" using call_adds [OF c] by (intro adds_record) simp_all
  from adds_trans [OF this] 2 [OF c [symmetric]] call_adds [OF c] c show ?case by (cases e) auto
qed simp

lemma keepReleases_adds: "adds is_late d (fst (keepReleases dp d))"
proof -
  obtain d1 r where c: "call (dp_ReadDir dp (joinPath (dw_root d) ''releases'')) d = (d1, r)" by (rule prod.exhaust)
  then show ?thesis using adds_trans [OF call_adds [OF c] removeReleases_adds] call_adds [OF c]
    by (cases r) (auto simp: keepReleases_def Let_def)
qed

lemma startOrRestartServer_adds: "startOrRestartServer dp d = (d', e) \<Longrightarrow> adds is_late d d'"
  by (auto simp: startOrRestartServer_def restartServer_def startServer_def split: prod.splits option.splits if_splits
      simp: adds_call_eq intro!: adds_record)

lemma reportDeployment_adds: "adds is_late d (reportDeployment dp res d)"
  by (auto simp: reportDeployment_def Let_def intro!: adds_record)

lemma promoteAndReport_adds:
  assumes "promoteAndReport dp res d = (d', e)"
  shows "adds is_late d d'"
proof -
  let ?d = "d\<lparr>dw_cVer := cr_Tag res\<rparr>"
  obtain d1 e1 where 1: "(if cg_Command (dw_config ?d) = SERVER then startOrRestartServer dp ?d else (?d, None)) = (d1, e1)" by (rule prod.exhaust)
  have "adds is_late ?d d1" using 1 startOrRestartServer_adds by (auto split: if_splits)
  then have a: "adds is_late d d1" using adds_trans [of is_late d ?d d1] by simp
  have "adds is_late d (fst (keepReleases dp (reportDeployment dp res d1)))"
    using adds_trans [OF adds_trans [OF a reportDeployment_adds] keepReleases_adds] .
  with assms 1 a show ?thesis by (auto simp: promoteAndReport_def Let_def split: option.splits prod.splits)
qed

lemma runDeploy_adds:
  assumes "runDeploy dp res st d = (d', e)"
  shows "(adds is_early d d' \<and> e \<noteq> None) \<or> (\<exists>t. switched d d' t)"
proof -
  obtain d1 e1 where 1: "downloadAndCache dp res st d = (d1, e1)" by (rule prod.exhaust)
  note a1 = downloadAndCache_adds [OF 1]
  define d2 where "d2 = tell (Send (''Downloaded artifact for '' @ backtick (cr_Tag res))) d1"
  have a2: "adds is_early d d2" using a1 by (simp add: d2_def)
  obtain d3 e3 where 3: "deploy dp (cs_key st) d2 = (d3, e3)" by (rule prod.exhaust)
  note p = deploy_adds [OF 3]
  show ?thesis
  proof (cases "e1 = None \<and> e3 = None")
    case True
    then obtain t where "switched d2 d3 t" using p by blast
    then have "switched d d3 t" using switched_early [OF a2] by blast
    moreover have "promoteAndReport dp res d3 = (d', e)" using assms 1 3 True by (simp add: runDeploy_def applyDeployment_def d2_def)
    ultimately show ?thesis using switched_late promoteAndReport_adds by blast
  next
    case False
    then show ?thesis using assms 1 3 a1 p adds_trans [OF a2] by (auto simp: runDeploy_def applyDeployment_def d2_def split: option.splits)
  qed
qed

lemma dewy_Run_adds:
  assumes "dewy_Run dp d = (d', e)"
  shows "adds is_early d d' \<or> (\<exists>t. switched d d' t)"
proof -
  obtain d1 r1 where 1: "resolveCurrent dp d = (d1, r1)" by (rule prod.exhaust)
  note a1 = resolveCurrent_adds [OF 1]
  show ?thesis
  proof (cases "\<exists>res d2 st d3 e3. r1 = Inr (Some res) \<and> resolveCacheState dp res d1 = (d2, Inr st) \<and> \<not> cs_skip st \<and> runDeploy dp res st d2 = (d3, e3)")
    case True
    then obtain res d2 st d3 e3 where 2: "r1 = Inr (Some res)" "resolveCacheState dp res d1 = (d2, Inr st)" "\<not> cs_skip st" "runDeploy dp res st d2 = (d3, e3)"
      by blast
    have a2: "adds is_early d d2" using adds_trans [OF a1 resolveCacheState_adds [OF 2(2)]] .
    have "d' = recordDeployment (e3 \<noteq> None) d3" using assms 1 2 by (auto simp: dewy_Run_def simp del: not_None_eq)
    moreover have "switched d (recordDeployment f d3) t" if "switched d2 d3 t" for f t
      using switched_early [OF a2 that] by (simp add: switched_def recordDeployment_def)
    ultimately show ?thesis using runDeploy_adds [OF 2(4)] adds_trans [OF a2] by auto
  next
    case False
    have c: "adds is_early d d2" if "resolveCacheState dp res d1 = (d2, r2)" for res d2 r2
      using adds_trans [OF a1 resolveCacheState_adds [OF that]] .
    show ?thesis using assms 1 a1 c False
      by (auto simp: dewy_Run_def split: sum.splits option.splits prod.splits if_splits)
  qed
qed

section \<open>The cache seen by a tick\<close>

text \<open>
  A cache that keeps what it is given: view is its content, Read and List agree with it on the
  keys a tick uses, a successful Write changes exactly its key, and no other operation of the
  environment touches it.
\<close>

definition lawful_cache :: "'w deps \<Rightarrow> ('w \<Rightarrow> string \<Rightarrow> string option) \<Rightarrow> bool" where
  "lawful_cache dp view = (
     (\<forall>w k. view (fst (dp_Read dp k w)) = view w \<and> (case view w k of Some v \<Rightarrow> snd (dp_Read dp k w) = Inr v | None \<Rightarrow> isl (snd (dp_Read dp k w)))) \<and>
     (\<forall>w k v w'. dp_Write dp k v w = (w', None) \<longrightarrow> view w' = (view w)(k \<mapsto> v)) \<and>
     (\<forall>w. view (fst (dp_List dp w)) = view w \<and> (\<exists>keys. snd (dp_List dp w) = Inr keys \<and> set keys = dom (view w))) \<and>
     (\<forall>w. view (fst (dp_Current dp w)) = view w) \<and> (\<forall>w r. view (fst (dp_Report dp r w)) = view w) \<and> (\<forall>w. view (fst (dp_Now dp w)) = view w) \<and>
     (\<forall>w u. view (fst (dp_Download dp u w)) = view w) \<and> (\<forall>w r c. view (fst (dp_Hook dp r c w)) = view w) \<and>
     (\<forall>w. view (fst (dp_Stamp dp w)) = view w) \<and> (\<forall>w p. view (fst (dp_MkdirAll dp p w)) = view w) \<and> (\<forall>w x. view (fst (dp_Apply dp x w)) = view w) \<and>
     (\<forall>w l. view (fst (dp_Remove dp l w)) = view w) \<and> (\<forall>w a b. view (fst (dp_Symlink dp a b w)) = view w) \<and>
     (\<forall>w a b. view (fst (dp_Rename dp a b w)) = view w) \<and> (\<forall>w. view (fst (dp_Signal dp w)) = view w) \<and>
     (\<forall>w. view (fst (dp_NewStarter dp w)) = view w) \<and> (\<forall>w p. view (fst (dp_ReadDir dp p w)) = view w) \<and> (\<forall>w p. view (fst (dp_RemoveAll dp p w)) = view w))"

text \<open>d' has the cache of d, and its server is up if that of d was.\<close>

definition same_view :: "('w \<Rightarrow> string \<Rightarrow> string option) \<Rightarrow> 'w Dewy \<Rightarrow> 'w Dewy \<Rightarrow> bool" where
  "same_view view d d' = (view (dw_world d') = view (dw_world d) \<and> (dw_isServerRunning d \<longrightarrow> dw_isServerRunning d'))"

lemma same_view_refl [simp]: "same_view view d d" by (simp add: same_view_def)

lemma same_view_trans: "same_view view a b \<Longrightarrow> same_view view b c \<Longrightarrow> same_view view a c" by (simp add: same_view_def)

lemma same_view_simps [simp]:
  "same_view view a (record_event e d) = same_view view a d" "same_view view a (tell f d) = same_view view a d"
  "same_view view a (d\<lparr>dw_links := l\<rparr>) = same_view view a d" "same_view view a (d\<lparr>dw_cVer := v\<rparr>) = same_view view a d"
  "same_view view a (recordServerRestart s d) = same_view view a d" "same_view view a (recordDeployment b d) = same_view view a d"
  "same_view view (d\<lparr>dw_cVer := v\<rparr>) a = same_view view d a" "same_view view (tell f d) a = same_view view d a"
  by (simp_all add: same_view_def record_event_def tell_def recordServerRestart_def recordDeployment_def)

lemma same_view_call:
  "call f d = (d', x) \<Longrightarrow> (\<And>w. view (fst (f w)) = view w) \<Longrightarrow> same_view view a d' = same_view view a d"
  by (auto simp: call_def same_view_def split: prod.splits) (metis fst_conv)+

lemma lawful:
  assumes "lawful_cache dp view"
  shows "view (fst (dp_Read dp k w)) = view w" "view (fst (dp_List dp w)) = view w" "view (fst (dp_Current dp w)) = view w"
    "view (fst (dp_Report dp r w)) = view w" "view (fst (dp_Now dp w)) = view w" "view (fst (dp_Download dp u w)) = view w"
    "view (fst (dp_Hook dp p c w)) = view w" "view (fst (dp_Stamp dp w)) = view w" "view (fst (dp_MkdirAll dp p w)) = view w"
    "view (fst (dp_Apply dp x w)) = view w" "view (fst (dp_Remove dp p w)) = view w" "view (fst (dp_Symlink dp p c w)) = view w"
    "view (fst (dp_Rename dp p c w)) = view w" "view (fst (dp_Signal dp w)) = view w" "view (fst (dp_NewStarter dp w)) = view w"
    "view (fst (dp_ReadDir dp p w)) = view w" "view (fst (dp_RemoveAll dp p w)) = view w"
  using assms by (simp_all add: lawful_cache_def)

lemma extractAll_view: "(\<And>x w. view (fst (app x w)) = view w) \<Longrightarrow> view (fst (extractAll app dst fs acc w)) = view w"
proof (induction fs arbitrary: acc w)
  case (Cons f fs)
  show ?case
  proof (cases "extractEntry dst f")
    case (Inr x)
    obtain w1 e where "app x w = (w1, e)" by (rule prod.exhaust)
    moreover from this Cons.prems [of x w] have "view w1 = view w" by simp
    ultimately show ?thesis using Inr Cons by (cases e) simp_all
  qed simp
qed simp

lemma same_view_runHook:
  assumes "lawful_cache dp view"
  shows "same_view view d (runHook dp name cmd d)"
  by (auto simp: runHook_def execHook_def lawful [OF assms] same_view_call split: prod.splits option.splits if_splits sum.splits)

lemma same_view_preserve:
  assumes "lawful_cache dp view" and "preserve dp p d = (d', r)"
  shows "same_view view d d'"
proof -
  have "view (fst (ExtractArchive en (dp_Apply dp) ex p dst w)) = view w" for en ex dst w
    by (auto simp: ExtractArchive_def lawful [OF assms(1)] extractAll_view split: option.splits sum.splits)
  then have e: "ExtractArchive en (dp_Apply dp) ex p dst w = (w', x) \<Longrightarrow> view w' = view w" for en ex dst w w' x
    by (metis fst_conv)
  have f: "same_view view d (d2\<lparr>dw_world := w\<rparr>)" if "same_view view d d2" "view w = view (dw_world d2)" for d2 w
    using that by (simp add: same_view_def)
  show ?thesis using assms(2)
    by (auto simp: preserve_def Let_def lawful [OF assms(1)] same_view_call split: prod.splits option.splits intro!: f dest!: e)
qed

lemma same_view_switchLink:
  assumes "lawful_cache dp view" and "switchLink dp t d = (d', e)"
  shows "same_view view d d'"
  using assms(2)
  by (auto simp: switchLink_def link_Remove_def link_Symlink_def link_Rename_def Let_def lawful [OF assms(1)] same_view_call
      split: prod.splits option.splits if_splits)

lemma same_view_deploy:
  assumes "lawful_cache dp view" and "deploy dp key d = (d', e)"
  shows "same_view view d d'"
proof -
  define d0 where "d0 = runHook dp ''Before Deploy'' (cg_BeforeDeployHook (dw_config d)) d"
  obtain d1 r where 1: "preserve dp (joinPath (dp_GetDir dp) key) d0 = (d1, r)" by (rule prod.exhaust)
  have a: "same_view view d d1"
    using same_view_trans [OF same_view_runHook [OF assms(1)] same_view_preserve [OF assms(1) 1 [unfolded d0_def]]] .
  have b: "same_view view d d3" if "switchLink dp t (tell f d1) = (d3, e3)" for t f d3 e3
    using same_view_trans [OF a] same_view_switchLink [OF assms(1) that] by simp
  have c: "same_view view d (runHook dp n c d3)" if "switchLink dp t (tell f d1) = (d3, e3)" for t f d3 e3 n c
    using same_view_trans [OF b [OF that] same_view_runHook [OF assms(1)]] .
  show ?thesis using assms(2) 1 a b c
    by (auto simp: deploy_def Let_def d0_def split: prod.splits sum.splits option.splits)
qed

lemma same_view_removeReleases: "lawful_cache dp view \<Longrightarrow> same_view view d (fst (removeReleases dp dir names d))"
proof (induction names arbitrary: d)
  case (Cons name names)
  obtain d1 e where c: "call (dp_RemoveAll dp (joinPath dir name)) d = (d1, e)" by (rule prod.exhaust)
  then have s: "same_view view d d1" by (simp add: same_view_call lawful [OF Cons.prems])
  from s Cons.IH [OF Cons.prems, of "record_event (EvPruned name) d1"] c show ?case
    by (cases e) (simp_all add: same_view_def record_event_def)
qed simp

lemma same_view_finish: "lawful_cache dp view \<Longrightarrow> same_view view d (fst (keepReleases dp (reportDeployment dp res d)))"
proof -
  assume l: "lawful_cache dp view"
  let ?req = "\<lparr>rr_ID = cr_ID res, rr_Tag = cr_Tag res, rr_Command = Command_String (cg_Command (dw_config d)), rr_Err = None\<rparr>"
  obtain d1 x where "call (dp_Report dp ?req) d = (d1, x)" by (rule prod.exhaust)
  moreover from this have "same_view view d d1" by (simp add: same_view_call lawful [OF l])
  ultimately have r: "same_view view d (reportDeployment dp res d)" by (simp add: reportDeployment_def Let_def)
  define d0 where "d0 = reportDeployment dp res d"
  obtain d1 x where c: "call (dp_ReadDir dp (joinPath (dw_root d0) ''releases'')) d0 = (d1, x)" by (rule prod.exhaust)
  have "same_view view d d1" using r c by (simp add: same_view_call lawful [OF l] d0_def)
  then show ?thesis using c same_view_trans [OF _ same_view_removeReleases [OF l]]
    by (cases x) (auto simp: keepReleases_def Let_def d0_def)
qed

lemma call_world:
  assumes "call f d = (d', x)" and "\<And>w. view (fst (f w)) = view w"
  shows "view (dw_world d') = view (dw_world d)" "dw_isServerRunning d' = dw_isServerRunning d"
  using assms(1) assms(2) [of "dw_world d"] by (auto simp: call_def split: prod.splits)

lemma same_view_server:
  assumes "lawful_cache dp view" and "startOrRestartServer dp d = (d', e)"
  shows "view (dw_world d') = view (dw_world d) \<and> (e = None \<longrightarrow> dw_isServerRunning d')"
proof -
  have s: "view (fst (dp_Signal dp w)) = view w" "view (fst (dp_NewStarter dp w)) = view w" for w
    by (simp_all add: lawful [OF assms(1)])
  obtain d1 e1 where 1: "call (dp_Signal dp) d = (d1, e1)" by (rule prod.exhaust)
  obtain d2 e2 where 2: "call (dp_NewStarter dp) d = (d2, e2)" by (rule prod.exhaust)
  show ?thesis
    using assms(2) 1 2 call_world [where view = view, OF 1 s(1)] call_world [where view = view, OF 2 s(2)]
    by (auto simp: startOrRestartServer_def restartServer_def startServer_def tell_def record_event_def recordServerRestart_def
        split: option.splits if_splits)
qed

section \<open>A release is deployed once\<close>

definition deployed :: "('w \<Rightarrow> string \<Rightarrow> string option) \<Rightarrow> CurrentResponse \<Rightarrow> 'w Dewy \<Rightarrow> bool" where
  "deployed view res d = (view (dw_world d) currentkeyName = Some (cachekeyName res) \<and> view (dw_world d) (cachekeyName res) \<noteq> None \<and>
     (cg_Command (dw_config d) = SERVER \<longrightarrow> dw_isServerRunning d))"

lemma key_not_current: "cachekeyName res \<noteq> currentkeyName"
proof
  assume "cachekeyName res = currentkeyName"
  then have "CHR ''-'' \<in> set currentkeyName" by (metis cachekeyName_def in_set_conv_decomp append_Cons append_Nil append_assoc)
  then show False by (simp add: currentkeyName_def)
qed

lemma lawful_read:
  "lawful_cache dp view \<Longrightarrow> dp_Read dp k w = (w', r) \<Longrightarrow> view w' = view w \<and> (case view w k of Some v \<Rightarrow> r = Inr v | None \<Rightarrow> isl r)"
  unfolding lawful_cache_def by (metis fst_conv snd_conv)

lemma lawful_list:
  "lawful_cache dp view \<Longrightarrow> dp_List dp w = (w', r) \<Longrightarrow> view w' = view w \<and> (\<exists>keys. r = Inr keys \<and> set keys = dom (view w))"
  unfolding lawful_cache_def by (metis fst_conv snd_conv)

lemma lawful_write: "lawful_cache dp view \<Longrightarrow> dp_Write dp k v w = (w', None) \<Longrightarrow> view w' = (view w)(k \<mapsto> v)"
  by (simp add: lawful_cache_def)

lemma call_read:
  assumes "lawful_cache dp view" and "call (dp_Read dp k) d = (d', r)"
  shows "view (dw_world d') = view (dw_world d)" "case view (dw_world d) k of Some v \<Rightarrow> r = Inr v | None \<Rightarrow> isl r"
    "d' = d\<lparr>dw_world := dw_world d'\<rparr>"
  using assms(2) lawful_read [OF assms(1)] by (auto simp: call_def split: prod.splits)

lemma call_list:
  assumes "lawful_cache dp view" and "call (dp_List dp) d = (d', r)"
  shows "view (dw_world d') = view (dw_world d)" "\<exists>keys. r = Inr keys \<and> set keys = dom (view (dw_world d))"
    "d' = d\<lparr>dw_world := dw_world d'\<rparr>"
  using assms(2) lawful_list [OF assms(1)] by (auto simp: call_def split: prod.splits)

lemma setCurrentKey_view:
  "lawful_cache dp view \<Longrightarrow> setCurrentKey dp k d = (d', None) \<Longrightarrow>
   view (dw_world d') = (view (dw_world d))(currentkeyName \<mapsto> k)"
  by (auto simp: setCurrentKey_def call_def record_event_def dest: lawful_write split: prod.splits option.splits)

text \<open>A cache state that is not skipped but found has the current key set to it.\<close>

lemma resolveCacheState_view:
  assumes "lawful_cache dp view" and "resolveCacheState dp res d = (d', Inr st)" and "\<not> cs_skip st"
  shows "cs_key st = cachekeyName res" and "cs_foundInCache st \<Longrightarrow>
    view (dw_world d') currentkeyName = Some (cachekeyName res) \<and> view (dw_world d') (cachekeyName res) \<noteq> None"
proof -
  let ?key = "cachekeyName res"
  obtain d1 cur where 1: "call (dp_Read dp currentkeyName) d = (d1, cur)" by (rule prod.exhaust)
  obtain d2 ks where 2: "call (dp_List dp) d1 = (d2, ks)" by (rule prod.exhaust)
  note r = call_read [OF assms(1) 1] and l = call_list [OF assms(1) 2]
  from l(2) obtain keys where keys: "ks = Inr keys" "set keys = dom (view (dw_world d1))" by blast
  let ?cv = "case cur of Inr v \<Rightarrow> v | Inl _ \<Rightarrow> []"
  show "cs_key st = ?key" using assms(2,3) 1 2 keys(1)
    by (auto simp: resolveCacheState_def Let_def split: if_splits prod.splits option.splits sum.splits)
  assume f: "cs_foundInCache st"
  then have k: "?key \<in> set keys" using assms(2) 1 2 keys(1)
    by (auto simp: resolveCacheState_def Let_def split: if_splits)
  then have kd: "view (dw_world d2) ?key \<noteq> None" using keys(2) l(1) by auto
  have ne: "?key \<noteq> []" by (simp add: cachekeyName_def)
  show "view (dw_world d') currentkeyName = Some ?key \<and> view (dw_world d') ?key \<noteq> None"
  proof (cases "?cv = ?key")
    case True
    then have c: "view (dw_world d2) currentkeyName = Some ?key"
      using r l(1) ne by (auto split: option.splits sum.splits)
    obtain d3 x where 3: "call (dp_Read dp ?key) d2 = (d3, x)" by (rule prod.exhaust)
    have "d' = d3" using assms(2,3) 1 2 3 keys(1) k True
      by (auto simp: resolveCacheState_def Let_def split: if_splits sum.splits)
    with call_read(1) [OF assms(1) 3] c kd show ?thesis by simp
  next
    case False
    obtain d3 e where 3: "setCurrentKey dp ?key d2 = (d3, e)" by (rule prod.exhaust)
    obtain d4 x where 4: "call (dp_Read dp ?key) d3 = (d4, x)" by (rule prod.exhaust)
    have h: "e = None \<and> d' = d4" using assms(2,3) 1 2 3 4 keys(1) k False
      by (auto simp: resolveCacheState_def Let_def split: if_splits sum.splits option.splits)
    then have "view (dw_world d3) = (view (dw_world d2))(currentkeyName \<mapsto> ?key)"
      using setCurrentKey_view [OF assms(1)] 3 by simp
    with call_read(1) [OF assms(1) 4] h kd key_not_current [of res] show ?thesis by simp
  qed
qed

lemma resolveCacheState_skip:
  assumes "lawful_cache dp view" and "resolveCacheState dp res d = (d', Inr st)" and "cs_skip st"
  shows "deployed view res d'"
proof -
  let ?key = "cachekeyName res"
  obtain d1 cur where 1: "call (dp_Read dp currentkeyName) d = (d1, cur)" by (rule prod.exhaust)
  obtain d2 ks where 2: "call (dp_List dp) d1 = (d2, ks)" by (rule prod.exhaust)
  note r = call_read [OF assms(1) 1] and l = call_list [OF assms(1) 2]
  from l(2) obtain keys where keys: "ks = Inr keys" "set keys = dom (view (dw_world d1))" by blast
  have h: "d' = d2" "?key \<in> set keys" "(case cur of Inr v \<Rightarrow> v | Inl _ \<Rightarrow> []) = ?key"
      "cg_Command (dw_config d2) = SERVER \<and> dw_isServerRunning d2 \<or> cg_Command (dw_config d2) = ASSETS"
    using assms(2,3) 1 2 keys(1) by (auto simp: resolveCacheState_def Let_def split: if_splits prod.splits option.splits sum.splits)
  moreover have "?key \<noteq> []" by (simp add: cachekeyName_def)
  ultimately have "view (dw_world d2) currentkeyName = Some ?key" using r l(1) by (auto split: option.splits sum.splits)
  with h keys l(1) show ?thesis by (auto simp: deployed_def)
qed

lemma downloadAndCache_view:
  assumes "lawful_cache dp view" and "downloadAndCache dp res st d = (d', None)" and "cs_key st = cachekeyName res"
  shows "if cs_foundInCache st then d' = d
    else view (dw_world d') currentkeyName = Some (cachekeyName res) \<and> view (dw_world d') (cachekeyName res) \<noteq> None"
proof (cases "cs_foundInCache st")
  case True
  with assms(2) show ?thesis by (simp add: downloadAndCache_def)
next
  case False
  with assms(2) obtain d1 bytes d2 where 1: "call (dp_Write dp (cs_key st) bytes) d1 = (d2, None)"
      and 2: "setCurrentKey dp (cs_key st) (record_event (EvDownloaded (cs_key st)) d2) = (d', None)"
    by (auto simp: downloadAndCache_def split: option.splits prod.splits sum.splits)
  have "view (dw_world d2) = (view (dw_world d1))(cs_key st \<mapsto> bytes)"
    using 1 lawful_write [OF assms(1)] by (auto simp: call_def split: prod.splits)
  with setCurrentKey_view [OF assms(1) 2] False assms(3) key_not_current [of res] show ?thesis by (simp add: record_event_def)
qed

lemma promoteAndReport_view:
  assumes "lawful_cache dp view" and "promoteAndReport dp res d = (d', None)"
  shows "view (dw_world d') = view (dw_world d) \<and> (cg_Command (dw_config d) = SERVER \<longrightarrow> dw_isServerRunning d')"
proof -
  let ?d = "d\<lparr>dw_cVer := cr_Tag res\<rparr>"
  have k: "view (dw_world (fst (keepReleases dp (reportDeployment dp res x)))) = view (dw_world x) \<and>
      (dw_isServerRunning x \<longrightarrow> dw_isServerRunning (fst (keepReleases dp (reportDeployment dp res x))))" for x
    using same_view_finish [OF assms(1), of x res] by (simp add: same_view_def)
  show ?thesis
  proof (cases "cg_Command (dw_config d) = SERVER")
    case True
    obtain d1 e where s: "startOrRestartServer dp ?d = (d1, e)" by (rule prod.exhaust)
    with assms(2) True have "e = None \<and> d' = fst (keepReleases dp (reportDeployment dp res d1))"
      by (auto simp: promoteAndReport_def Let_def split: option.splits)
    with k [of d1] same_view_server [OF assms(1) s] True show ?thesis by simp
  next
    case False
    with assms(2) k [of ?d] show ?thesis by (auto simp: promoteAndReport_def Let_def)
  qed
qed

lemma runDeploy_deployed:
  assumes "lawful_cache dp view" and "resolveCacheState dp res d = (d1, Inr st)" and "\<not> cs_skip st" and "runDeploy dp res st d1 = (d', None)"
  shows "deployed view res d'"
proof -
  note r = resolveCacheState_view [OF assms(1-3)]
  from assms(4) obtain d2 d3 where 2: "downloadAndCache dp res st d1 = (d2, None)"
      and 3: "deploy dp (cs_key st) (tell (Send (''Downloaded artifact for '' @ backtick (cr_Tag res))) d2) = (d3, None)"
      and 4: "promoteAndReport dp res d3 = (d', None)"
    by (auto simp: runDeploy_def applyDeployment_def split: prod.splits option.splits)
  have "view (dw_world d2) currentkeyName = Some (cachekeyName res) \<and> view (dw_world d2) (cachekeyName res) \<noteq> None"
    using downloadAndCache_view [OF assms(1) 2 r(1)] r(2) by (auto split: if_splits)
  moreover have "view (dw_world d3) = view (dw_world d2)" using same_view_deploy [OF assms(1) 3] by (simp add: same_view_def tell_def)
  moreover have "dw_config d' = dw_config d3" using promoteAndReport_adds [OF 4] by (simp add: adds_def)
  ultimately show ?thesis using promoteAndReport_view [OF assms(1) 4] by (simp add: deployed_def)
qed

lemma resolveCurrent_const:
  assumes "lawful_cache dp view" and "\<And>w. snd (dp_Current dp w) = Inr res"
  shows "\<exists>w. resolveCurrent dp d = (d\<lparr>dw_world := w\<rparr>, Inr (if SlotMatcher_Matches (cg_Slot (dw_config d)) (cr_Slot res) then Some res else None)) \<and>
    view w = view (dw_world d)"
proof -
  obtain w r where c: "dp_Current dp (dw_world d) = (w, r)" by (rule prod.exhaust)
  moreover have "r = Inr res" using assms(2) [of "dw_world d"] c by simp
  moreover have "view w = view (dw_world d)" using lawful(3) [OF assms(1), of "dw_world d"] c by simp
  ultimately show ?thesis by (auto simp: resolveCurrent_def call_def)
qed

lemma dewy_Run_deployed:
  assumes "lawful_cache dp view" and "\<And>w. snd (dp_Current dp w) = Inr res" and "cg_Command (dw_config d) \<noteq> CONTAINER"
    and "SlotMatcher_Matches (cg_Slot (dw_config d)) (cr_Slot res) \<longrightarrow> deployed view res d"
  shows "\<exists>w. dewy_Run dp d = (d\<lparr>dw_world := w\<rparr>, None)"
proof -
  obtain w where w: "resolveCurrent dp d = (d\<lparr>dw_world := w\<rparr>, Inr (if SlotMatcher_Matches (cg_Slot (dw_config d)) (cr_Slot res) then Some res else None))"
      "view w = view (dw_world d)" using resolveCurrent_const [OF assms(1,2)] by blast
  show ?thesis
  proof (cases "SlotMatcher_Matches (cg_Slot (dw_config d)) (cr_Slot res)")
    case False
    with w show ?thesis by (auto simp: dewy_Run_def)
  next
    case True
    let ?d = "d\<lparr>dw_world := w\<rparr>"
    obtain d1 cur where 1: "call (dp_Read dp currentkeyName) ?d = (d1, cur)" by (rule prod.exhaust)
    obtain d2 ks where 2: "call (dp_List dp) d1 = (d2, ks)" by (rule prod.exhaust)
    note r = call_read [OF assms(1) 1] and l = call_list [OF assms(1) 2]
    have dp: "view w currentkeyName = Some (cachekeyName res)" "cachekeyName res \<in> dom (view w)"
        "cg_Command (dw_config d) = SERVER \<longrightarrow> dw_isServerRunning d"
      using assms(4) True w(2) by (auto simp: deployed_def)
    from l(2) obtain keys where keys: "ks = Inr keys" "cachekeyName res \<in> set keys" using dp(2) r(1) by auto
    have cur: "cur = Inr (cachekeyName res)" using r(2) dp(1) by simp
    have d2: "d2 = d\<lparr>dw_world := dw_world d2\<rparr>" using r(3) l(3) by (metis Dewy.update_convs(9) Dewy.surjective)
    have "cg_Command (dw_config d2) = SERVER \<and> dw_isServerRunning d2 \<or> cg_Command (dw_config d2) = ASSETS"
      using assms(3) dp(3) d2 by (cases "cg_Command (dw_config d)") (metis Dewy.select_convs(1,2) Dewy.update_convs(9) Dewy.surjective)+
    then have "resolveCacheState dp res ?d = (d2, Inr \<lparr>cs_key = cachekeyName res, cs_foundInCache = True, cs_skip = True\<rparr>)"
      using 1 2 keys cur by (simp add: resolveCacheState_def Let_def)
    then have "dewy_Run dp d = (d2, None)" using w(1) True by (simp add: dewy_Run_def)
    with d2 show ?thesis by metis
  qed
qed

section \<open>Lemmas on releases, downloads and names\<close>

lemma newestReleases_mset: "mset (newestReleases files) = mset (List.map_filter (\<lambda>(name, t). map_option (Pair name) t) files)"
  by (simp add: newestReleases_def)

lemma newestReleases_sorted: "sorted (map (\<lambda>(name, t). (- t, name)) (newestReleases files))"
  by (simp add: newestReleases_def)

lemma limited_writes_inv:
  assumes "0 \<le> lw_N lw" "lw_N lw \<le> max_int64 div 2" "int (length (lw_W lw)) = lw_written lw" "lw_written lw \<le> lw_N lw"
    "list_all (\<lambda>p. int (length p) \<le> max_int64 div 2) chunks"
  shows "limited_writes chunks lw = (lw', e) \<Longrightarrow> int (length (lw_W lw')) \<le> lw_N lw \<and>
    (e = None \<longrightarrow> lw_W lw' = lw_W lw @ concat chunks) \<and> (e = None \<longleftrightarrow> int (length (lw_W lw @ concat chunks)) \<le> lw_N lw)"
  using assms
proof (induction chunks arbitrary: lw)
  case (Cons p ps)
  have w: "wrap64 (lw_written lw + int (length p)) = lw_written lw + int (length p)"
    using Cons.prems by (intro wrap64_id) (auto simp: in_int64_def min_int64_def max_int64_def)
  show ?case
  proof (cases "lw_written lw + int (length p) > lw_N lw")
    case True
    with Cons.prems w show ?thesis by (auto simp: limited_Write_def)
  next
    case False
    let ?lw = "lw\<lparr>lw_W := lw_W lw @ p, lw_written := lw_written lw + int (length p)\<rparr>"
    have "limited_writes ps ?lw = (lw', e)" using Cons.prems(1) w False by (simp add: limited_Write_def)
    from Cons.IH [OF this] Cons.prems False show ?thesis by simp
  qed
qed auto

lemma hd_splitC: "hd (splitC c (s @ t)) = s" if "c \<notin> set s" "t = [] \<or> hd t = c"
  using that by (cases t) (auto simp: splitC_append)

section \<open>Properties\<close>

text \<open>
  Claim C5. The current link only ever points to a release that was extracted completely: a tick
  either leaves the link as it was and has done nothing but fetch, run hooks and extract, or it
  extracted a release, switched the link to it in one step, and only then started or restarted
  the server, reported and removed old releases.
\<close>

theorem dewy_Run_atomic_switch:
  assumes "dewy_Run dp d = (d', err)"
  shows "(dw_links d' (linkPath d) = dw_links d (linkPath d) \<and> (\<exists>evs. dw_log d' = dw_log d @ evs \<and> list_all is_early evs)) \<or>
    (\<exists>t p pre post. dw_links d' (linkPath d) = Some t \<and> dw_log d' = dw_log d @ pre @ [EvExtracted p t, EvSwitched t] @ post \<and>
       list_all is_early pre \<and> list_all is_late post)"
  using dewy_Run_adds [OF assms] unfolding adds_def switched_def by blast

text \<open>A cache as a list of keys and contents; extraction works or finds a corrupt archive.\<close>

definition app_release :: CurrentResponse where
  "app_release = \<lparr>cr_ID = ''i'', cr_Tag = ''v1'', cr_ArtifactURL = ''ghr://o/r/tag/v1/a.zip'', cr_CreatedAt = None, cr_Slot = []\<rparr>"

definition small_deps :: "bool \<Rightarrow> ((string \<times> string) list) deps" where
  "small_deps sound = \<lparr>dp_Current = (\<lambda>w. (w, Inr app_release)), dp_Report = (\<lambda>r w. (w, None)), dp_Now = (\<lambda>w. (w, 0)),
     dp_Read = (\<lambda>k w. (w, case map_of w k of Some v \<Rightarrow> Inr v | None \<Rightarrow> Inl ''not found'')),
     dp_Write = (\<lambda>k v w. (AList.update k v w, None)), dp_List = (\<lambda>w. (w, Inr (map fst w))), dp_GetDir = ''/c'',
     dp_NewArtifact = (\<lambda>u. None), dp_Download = (\<lambda>u w. (w, [''zip''], None)),
     dp_Hook = (\<lambda>r c w. (w, Inl ''no shell'')), dp_Stamp = (\<lambda>w. (w, ''t1'')), dp_MkdirAll = (\<lambda>p w. (w, None)),
     dp_Exists = (\<lambda>p w. True), dp_Entries = (\<lambda>w f p. if sound then Inr [] else Inl ''corrupt''), dp_Apply = (\<lambda>x w. (w, None)),
     dp_SlackFile = (\<lambda>p w. None), dp_Remove = (\<lambda>l w. (w, None)), dp_Symlink = (\<lambda>a b w. (w, None)), dp_Rename = (\<lambda>a b w. (w, None)),
     dp_Signal = (\<lambda>w. (w, None)), dp_NewStarter = (\<lambda>w. (w, None)), dp_ReadDir = (\<lambda>p w. (w, Inr [])), dp_RemoveAll = (\<lambda>p w. (w, None))\<rparr>"

definition small_dewy :: "Command \<Rightarrow> ((string \<times> string) list) Dewy" where
  "small_dewy cmd = \<lparr>dw_config = DefaultConfig\<lparr>cg_Command := cmd, cg_Registry := ''ghr://o/r''\<rparr>,
     dw_isServerRunning = False, dw_disableReport = False, dw_root = ''/r'', dw_notifier = quiet_null, dw_cVer = [], dw_metrics = None,
     dw_links = (\<lambda>l. None), dw_world = [], dw_log = []\<rparr>"

lemma small_run:
  "snd (dewy_Run (small_deps True) (small_dewy SERVER)) = None \<and>
   dw_links (fst (dewy_Run (small_deps True) (small_dewy SERVER))) ''/r/current'' = Some ''/r/releases/t1'' \<and>
   linkPath (small_dewy SERVER) = ''/r/current''"
  by code_simp

theorem dewy_Run_atomic_switch_witness:
  "\<exists>t p pre post. dw_links (fst (dewy_Run (small_deps True) (small_dewy SERVER))) ''/r/current'' = Some t \<and>
     dw_log (fst (dewy_Run (small_deps True) (small_dewy SERVER))) = pre @ [EvExtracted p t, EvSwitched t] @ post"
proof -
  obtain d' e where r: "dewy_Run (small_deps True) (small_dewy SERVER) = (d', e)" by (rule prod.exhaust)
  have "dw_links d' (linkPath (small_dewy SERVER)) \<noteq> dw_links (small_dewy SERVER) (linkPath (small_dewy SERVER))" "dw_log (small_dewy SERVER) = []"
    using small_run r by (simp_all add: small_dewy_def)
  with dewy_Run_atomic_switch [OF r] obtain t p pre post where
      "dw_links d' (linkPath (small_dewy SERVER)) = Some t" "dw_log d' = pre @ [EvExtracted p t, EvSwitched t] @ post" by auto
  with small_run r show ?thesis by auto
qed

text \<open>
  Claim C12. A release is deployed once: after a tick that ended without an error, a tick that gets
  the same answer from the registry ends without an error and changes nothing but the state of
  the services it asked: no download, no extraction, no restart, no report, no notification.
\<close>

theorem dewy_Run_idempotent:
  assumes "lawful_cache dp view" and "\<And>w. snd (dp_Current dp w) = Inr res" and "cg_Command (dw_config d) \<noteq> CONTAINER"
    and "dewy_Run dp d = (d1, None)"
  shows "\<exists>w. dewy_Run dp d1 = (d1\<lparr>dw_world := w\<rparr>, None)"
proof -
  have cfg: "dw_config d1 = dw_config d" using dewy_Run_adds [OF assms(4)] by (auto simp: adds_def switched_def)
  obtain w where w: "resolveCurrent dp d = (d\<lparr>dw_world := w\<rparr>, Inr (if SlotMatcher_Matches (cg_Slot (dw_config d)) (cr_Slot res) then Some res else None))"
      "view w = view (dw_world d)" using resolveCurrent_const [OF assms(1,2)] by blast
  have "deployed view res d1" if m: "SlotMatcher_Matches (cg_Slot (dw_config d)) (cr_Slot res)"
  proof -
    let ?d = "d\<lparr>dw_world := w\<rparr>"
    obtain d2 r where c: "resolveCacheState dp res ?d = (d2, r)" by (rule prod.exhaust)
    from assms(4) w(1) m c obtain st where st: "r = Inr st" by (auto simp: dewy_Run_def split: sum.splits)
    show ?thesis
    proof (cases "cs_skip st")
      case True
      with assms(4) w(1) m c st have d1: "d1 = d2" by (simp add: dewy_Run_def)
      with resolveCacheState_skip [OF assms(1) c [unfolded st] True] show ?thesis by simp
    next
      case False
      obtain d3 e where rd: "runDeploy dp res st d2 = (d3, e)" by (rule prod.exhaust)
      with assms(4) w(1) m c st False have "d1 = recordDeployment (e \<noteq> None) d3 \<and> e = None"
        by (auto simp: dewy_Run_def simp del: not_None_eq)
      with runDeploy_deployed [OF assms(1) c [unfolded st] False] rd show ?thesis
        by (simp add: deployed_def recordDeployment_def)
    qed
  qed
  with dewy_Run_deployed [OF assms(1,2)] assms(3) cfg show ?thesis by simp
qed

lemma small_lawful: "lawful_cache (small_deps b) map_of"
  by (auto simp: lawful_cache_def small_deps_def update_conv' dom_map_of_conv_image_fst split: option.splits)

theorem dewy_Run_idempotent_witness:
  "\<exists>d1 w. dewy_Run (small_deps True) (small_dewy SERVER) = (d1, None) \<and> dw_log d1 \<noteq> [] \<and>
     dewy_Run (small_deps True) d1 = (d1\<lparr>dw_world := w\<rparr>, None)"
proof -
  obtain d1 e where r: "dewy_Run (small_deps True) (small_dewy SERVER) = (d1, e)" by (rule prod.exhaust)
  with small_run have r: "dewy_Run (small_deps True) (small_dewy SERVER) = (d1, None)" by simp
  have c: "snd (dp_Current (small_deps True) w) = Inr app_release" for w by (simp add: small_deps_def)
  have s: "cg_Command (dw_config (small_dewy SERVER)) \<noteq> CONTAINER" by (simp add: small_dewy_def)
  have "dw_log (fst (dewy_Run (small_deps True) (small_dewy SERVER))) \<noteq> []" by code_simp
  with dewy_Run_idempotent [OF small_lawful c s r] r show ?thesis by auto
qed

text \<open>
  The key of the current release is written before the release is extracted. When extraction
  fails the tick reports the error, but the next one finds the key and skips: assets are not
  deployed again, and the failure counts as resolved.
\<close>

theorem Run_failed_deploy_not_retried:
  "(let r1 = dewy_Run (small_deps False) (small_dewy ASSETS); r2 = dewy_Run (small_deps False) (fst r1)
    in (snd r1, snd r2, dw_links (fst r2) ''/r/current'')) = (Some ''corrupt'', None, None)"
  by code_simp

lemma newestReleases_set: "set (newestReleases files) = {(n, t). (n, Some t) \<in> set files}"
  by (force simp: newestReleases_def List.map_filter_def)

lemma sorted_take_drop: "sorted xs \<Longrightarrow> x \<in> set (take k xs) \<Longrightarrow> y \<in> set (drop k xs) \<Longrightarrow> x \<le> y"
  by (metis append_take_drop_id sorted_append)

lemma newestReleases_length: "length (newestReleases files) = length (filter (\<lambda>f. snd f \<noteq> None) files)"
  by (induction files) (auto simp: newestReleases_def List.map_filter_def)

text \<open>
  Claim C32. The releases removed are the oldest: of the entries of the releases directory that
  can be examined, all but the given number are removed, every entry that stays is newer than
  every entry that goes (the name decides between equal times), and an entry that cannot be
  examined is never removed.
\<close>

theorem selectStaleReleases_oldest:
  "length (selectStaleReleases files keep) = length (filter (\<lambda>f. snd f \<noteq> None) files) - keep \<and>
   (\<forall>n\<in>set (selectStaleReleases files keep). \<exists>t. (n, Some t) \<in> set files \<and>
      (\<forall>m u. (m, Some u) \<in> set files \<and> m \<notin> set (selectStaleReleases files keep) \<longrightarrow> t < u \<or> t = u \<and> m < n))"
proof (intro conjI ballI)
  let ?s = "newestReleases files" and ?k = "\<lambda>(n, t). (- t, n)"
  show "length (selectStaleReleases files keep) = length (filter (\<lambda>f. snd f \<noteq> None) files) - keep"
    by (simp add: selectStaleReleases_def Let_def newestReleases_length)
  fix n assume n: "n \<in> set (selectStaleReleases files keep)"
  have stale: "set (selectStaleReleases files keep) = fst ` set (drop keep ?s)" by (simp add: selectStaleReleases_def Let_def)
  from n obtain t where t: "(n, t) \<in> set (drop keep ?s)" by (auto simp: stale)
  then have "(n, Some t) \<in> set files" using newestReleases_set [of files] set_drop_subset by fastforce
  moreover have "t < u \<or> t = u \<and> m < n" if m: "(m, Some u) \<in> set files" "m \<notin> set (selectStaleReleases files keep)" for m u
  proof -
    from m(1) have "(m, u) \<in> set ?s" by (simp add: newestReleases_set)
    moreover from m(2) have "(m, u) \<notin> set (drop keep ?s)" by (force simp: stale)
    ultimately have "(m, u) \<in> set (take keep ?s)" by (metis UnE append_take_drop_id set_append)
    then have "?k (m, u) \<in> set (take keep (map ?k ?s))" "?k (n, t) \<in> set (drop keep (map ?k ?s))"
      using t by (auto simp: take_map drop_map rev_image_eqI)
    from sorted_take_drop [OF newestReleases_sorted this] have "(- u, m) \<le> (- t, n)" by simp
    moreover have "m \<noteq> n" using m(2) n by auto
    ultimately show ?thesis by (auto simp: less_le)
  qed
  ultimately show "\<exists>t. (n, Some t) \<in> set files \<and>
      (\<forall>m u. (m, Some u) \<in> set files \<and> m \<notin> set (selectStaleReleases files keep) \<longrightarrow> t < u \<or> t = u \<and> m < n)" by blast
qed

theorem selectStaleReleases_oldest_witness:
  "length (selectStaleReleases [(''a'', Some 1), (''b'', Some 3), (''c'', None), (''d'', Some 3)] 2) = 1 \<and>
   (\<exists>t. (''a'', Some t) \<in> set [(''a'', Some 1), (''b'', Some 3), (''c'', None), (''d'', Some (3::int))] \<and> t < 3)"
proof -
  let ?f = "[(''a'', Some 1), (''b'', Some 3), (''c'', None), (''d'', Some (3::int))]"
  have "selectStaleReleases ?f 2 = [''a'']" by code_simp
  with selectStaleReleases_oldest [of ?f 2] show ?thesis by auto
qed

lemma limited_writes_error:
  "limited_writes chunks lw = (lw', e) \<Longrightarrow> e = None \<or> e = Some (''write limit exceeded: maximum '' @ itoa (lw_N lw) @ '' bytes'')"
proof (induction chunks arbitrary: lw)
  case (Cons p ps)
  show ?case
  proof (cases "wrap64 (lw_written lw + int (length p)) > lw_N lw")
    case True
    with Cons.prems show ?thesis by (auto simp: limited_Write_def)
  next
    case False
    with Cons.prems have "limited_writes ps (lw\<lparr>lw_W := lw_W lw @ p, lw_written := wrap64 (lw_written lw + int (length p))\<rparr>) = (lw', e)"
      by (simp add: limited_Write_def)
    from Cons.IH [OF this] show ?thesis by simp
  qed
qed simp

text \<open>
  Claim C33. A download never holds more than its limit in memory: whatever the writes of the
  service, at most MaxArtifactSize bytes are kept, and the artifact that is cached is the whole of
  what was written, which is refused exactly when it is larger.
\<close>

theorem fetchArtifact_limited:
  assumes "dp_Download dp url (dw_world d) = (w, chunks, None)"
    and "list_all (\<lambda>p. int (length p) \<le> max_int64 div 2) chunks"
  shows "fetchArtifact dp url d = (d\<lparr>dw_world := w\<rparr>,
    if int (length (concat chunks)) \<le> MaxArtifactSize then Inr (concat chunks)
    else Inl (''write limit exceeded: maximum '' @ itoa MaxArtifactSize @ '' bytes'')) \<and>
    int (length (lw_W (fst (limited_writes chunks \<lparr>lw_W = [], lw_N = MaxArtifactSize, lw_written = 0\<rparr>)))) \<le> MaxArtifactSize"
proof -
  let ?lw = "\<lparr>lw_W = [], lw_N = MaxArtifactSize, lw_written = 0\<rparr>"
  obtain lw e where r: "limited_writes chunks ?lw = (lw, e)" by (rule prod.exhaust)
  have i: "int (length (lw_W lw)) \<le> MaxArtifactSize \<and> (e = None \<longrightarrow> lw_W lw = concat chunks) \<and>
      (e = None \<longleftrightarrow> int (length (concat chunks)) \<le> MaxArtifactSize)"
    using limited_writes_inv [OF _ _ _ _ assms(2) r] by (simp add: MaxArtifactSize_def max_int64_def)
  have e: "e = None \<or> e = Some (''write limit exceeded: maximum '' @ itoa MaxArtifactSize @ '' bytes'')"
    using limited_writes_error [OF r] by simp
  show ?thesis using assms(1) r i e by (auto simp: fetchArtifact_def call_def)
qed

theorem fetchArtifact_limited_witness:
  "fetchArtifact ((small_deps True)\<lparr>dp_Download := \<lambda>u w. (w, [''zi'', ''p''], None)\<rparr>) ''u'' (small_dewy ASSETS) = (small_dewy ASSETS, Inr ''zip'')"
proof -
  let ?dp = "(small_deps True)\<lparr>dp_Download := \<lambda>u w. (w, [''zi'', ''p''], None)\<rparr>" and ?d = "small_dewy ASSETS"
  have w: "dp_Download ?dp ''u'' (dw_world ?d) = (dw_world ?d, [''zi'', ''p''], None)" by simp
  have l: "list_all (\<lambda>p. int (length p) \<le> max_int64 div 2) [''zi'', ''p'']" by (simp add: max_int64_def)
  show ?thesis using fetchArtifact_limited [OF w l] by (simp add: MaxArtifactSize_def)
qed

text \<open>
  The name derived from a registry URL is its last path segment without tag and query, as long as
  the query holds no slash; a slash in the query moves the segment that is taken into the query.
\<close>

lemma last_splitC: "last (splitC c (s @ c # t)) = last (splitC c t)"
  by (simp add: splitC_sep)

lemma deriveAppName_segment:
  assumes "CHR ''/'' \<notin> set name \<union> set q" "CHR '':'' \<notin> set name" "CHR ''?'' \<notin> set name"
  shows "deriveAppNameFromRegistry (''img://'' @ host @ ''/'' @ name @ ''?'' @ q) = name"
proof -
  have "splitN2 (''img://'' @ host @ ''/'' @ name @ ''?'' @ q) ''://'' = [''img'', host @ CHR ''/'' # name @ ''?'' @ q]"
    by (simp add: splitN2_def)
  moreover have "last (splitC (CHR ''/'') (host @ CHR ''/'' # name @ ''?'' @ q)) = name @ ''?'' @ q"
    using assms(1) by (simp add: last_splitC)
  moreover have "hd (splitC (CHR ''?'') (name @ ''?'' @ q)) = name" using assms(3) by (intro hd_splitC) auto
  ultimately show ?thesis using assms(2) by (simp add: deriveAppNameFromRegistry_def)
qed

theorem deriveAppName_query_slash:
  "deriveAppNameFromRegistry ''ghr://linyows/app?artifact=dist/app.tar.gz'' = ''app.tar.gz''"
  by code_simp

end
