(* ===== verification/Artifact.thy ===== *)
theory Artifact
  imports Registry_Sources Container_Runtime
begin

text \<open>
  Artifacts (artifact package): the dispatch on the scheme of an artifact URL, the four kinds of
  artifacts and their downloads. The clients of GitHub, S3 and Google Cloud Storage, url.Parse and
  the decoder of query parameters are parameters. A download writes chunks into a writer, as
  io.Copy does; the writer is a parameter of the download, so that the limit of the caller is too.
\<close>

section \<open>Writers\<close>

text \<open>io.Copy: writes the chunks of a reader until it ends, fails, or the writer refuses one.\<close>

fun ioCopy :: "(string \<Rightarrow> 'b \<Rightarrow> 'b \<times> string option) \<Rightarrow> string list \<Rightarrow> string option \<Rightarrow> 'b \<Rightarrow> 'b \<times> string option" where
  "ioCopy wr [] rerr b = (b, rerr)"
| "ioCopy wr (c # cs) rerr b = (case wr c b of (b, Some err) \<Rightarrow> (b, Some err) | (b, None) \<Rightarrow> ioCopy wr cs rerr b)"

section \<open>GitHub releases (ghr.go)\<close>

record GHRArtifact =
  ga_owner :: string
  ga_repo :: string
  ga_tag :: string
  ga_artifact :: string
  ga_url :: string

record gh_release =
  gr_TagName :: string
  gr_Assets :: "(string \<times> goint) list"

text \<open>
  The client: a page of releases with the number of the next one, the download of an asset by its
  number (a reader, or the URL of a redirect), and a request without authentication headers.
\<close>

record 'w GitHubAssets =
  as_ListReleases :: "string \<Rightarrow> string \<Rightarrow> goint \<Rightarrow> 'w \<Rightarrow> 'w \<times> (string + gh_release list \<times> goint)"
  as_Download :: "string \<Rightarrow> string \<Rightarrow> goint \<Rightarrow> 'w \<Rightarrow> 'w \<times> (string + (string list \<times> string option) + string)"
  as_Get :: "string \<Rightarrow> 'w \<Rightarrow> 'w \<times> (string + string list \<times> string option)"

text \<open>A slice of strings in Go syntax, as the verb #v prints it.\<close>

definition goStrings :: "string list \<Rightarrow> string" where
  "goStrings xs = ''[]string{'' @ joinS '', '' (map goQuote xs) @ ''}''"

definition artifact_NewGHR :: "string option \<Rightarrow> string \<Rightarrow> string + GHRArtifact" where
  "artifact_NewGHR clientErr url =
     (let splitted = splitC (CHR ''/'') (trimPrefix url ''ghr://'') in
      if length splitted \<noteq> 5 then Inl (''invalid artifact url: '' @ url @ '', '' @ goStrings splitted)
      else case clientErr of
        Some err \<Rightarrow> Inl err
      | None \<Rightarrow> Inr \<lparr>ga_owner = splitted ! 0, ga_repo = splitted ! 1, ga_tag = splitted ! 3, ga_artifact = splitted ! 4, ga_url = url\<rparr>)"

text \<open>The number of the wanted asset in the releases of a page.\<close>

fun assetOf :: "string \<Rightarrow> string \<Rightarrow> gh_release list \<Rightarrow> goint option" where
  "assetOf tag name [] = None"
| "assetOf tag name (v # vs) =
     (if gr_TagName v \<noteq> tag then assetOf tag name vs
      else case find (\<lambda>a. fst a = name) (gr_Assets v) of
        Some a \<Rightarrow> Some (snd a) | None \<Rightarrow> assetOf tag name vs)"

text \<open>The loop over the pages; 0 stands for an asset that was not found, as in the code.\<close>

partial_function (option) ghr_assetID :: "'w GitHubAssets \<Rightarrow> GHRArtifact \<Rightarrow> goint \<Rightarrow> 'w \<Rightarrow> ('w \<times> (string + goint)) option" where
  "ghr_assetID cl g page w =
     (case as_ListReleases cl (ga_owner g) (ga_repo g) page w of
        (w, Inl err) \<Rightarrow> Some (w, Inl (''failed github.Repositories.ListReleases: '' @ err))
      | (w, Inr (releases, nextPage)) \<Rightarrow> (case assetOf (ga_tag g) (ga_artifact g) releases of
          Some i \<Rightarrow> Some (w, Inr i)
        | None \<Rightarrow> if nextPage = 0 then Some (w, Inr 0) else ghr_assetID cl g nextPage w))"

definition ghr_fetch :: "'w GitHubAssets \<Rightarrow> (string \<Rightarrow> 'b \<Rightarrow> 'b \<times> string option) \<Rightarrow> GHRArtifact \<Rightarrow> goint \<Rightarrow>
    'w \<times> 'b \<Rightarrow> ('w \<times> 'b) \<times> string option" where
  "ghr_fetch cl wr g assetID s =
     (let copy = (\<lambda>w cs rerr. case ioCopy wr cs rerr (snd s) of (b, err) \<Rightarrow> ((w, b), map_option (\<lambda>e. ''failed io.Copy: '' @ e) err)) in
      (case as_Download cl (ga_owner g) (ga_repo g) assetID (fst s) of
         (w, Inl err) \<Rightarrow> ((w, snd s), Some (''failed github.Repositories.DownloadReleaseAsset: '' @ err))
       | (w, Inr (Inl (cs, rerr))) \<Rightarrow> copy w cs rerr
       | (w, Inr (Inr redirectURL)) \<Rightarrow> (case as_Get cl redirectURL w of
           (w, Inl err) \<Rightarrow> ((w, snd s), Some err)
         | (w, Inr (cs, rerr)) \<Rightarrow> copy w cs rerr)))"

definition GHR_Download :: "'w GitHubAssets \<Rightarrow> (string \<Rightarrow> 'b \<Rightarrow> 'b \<times> string option) \<Rightarrow> GHRArtifact \<Rightarrow>
    'w \<times> 'b \<Rightarrow> (('w \<times> 'b) \<times> string option) option" where
  "GHR_Download cl wr g s = map_option (\<lambda>(w, r). case r of
     Inl err \<Rightarrow> ((w, snd s), Some err) | Inr assetID \<Rightarrow> ghr_fetch cl wr g assetID (w, snd s)) (ghr_assetID cl g 1 (fst s))"

section \<open>S3 (s3.go)\<close>

record S3Artifact =
  sa_Region :: string
  sa_Bucket :: string
  sa_Key :: string
  sa_Endpoint :: string
  sa_UsePathStyle :: bool
  sa_BaseEndpoint :: "string option"

definition artifact_NewS3 :: "(string \<Rightarrow> string) \<Rightarrow> (string \<Rightarrow> string + purl) \<Rightarrow> (S3Artifact \<Rightarrow> (string \<times> string) list \<Rightarrow> string + S3Artifact) \<Rightarrow>
    string option \<Rightarrow> string \<Rightarrow> string + S3Artifact" where
  "artifact_NewS3 getenv urlParse decode configErr strUrl =
     (case urlParse strUrl of
        Inl err \<Rightarrow> Inl err
      | Inr u \<Rightarrow> (case splitN2 (trimPrefix (pu_Path u) ''/'') ''/'' of
          [b, k] \<Rightarrow>
            (case decode \<lparr>sa_Region = pu_Host u, sa_Bucket = b, sa_Key = k, sa_Endpoint = [],
                 sa_UsePathStyle = False, sa_BaseEndpoint = None\<rparr> (pu_Query u) of
               Inl err \<Rightarrow> Inl err
             | Inr s \<Rightarrow> (case configErr of
                 Some err \<Rightarrow> Inl err
               | None \<Rightarrow>
                   if sa_Endpoint s \<noteq> [] then Inr (s\<lparr>sa_UsePathStyle := True, sa_BaseEndpoint := Some (sa_Endpoint s)\<rparr>)
                   else if getenv ''AWS_ENDPOINT_URL'' \<noteq> [] then Inr (s\<lparr>sa_UsePathStyle := True\<rparr>)
                   else Inr s))
        | _ \<Rightarrow> Inl (''url parse error: '' @ strUrl)))"

text \<open>getObject is the request for an object: an error, or a reader.\<close>

definition artifact_Download :: "string \<Rightarrow> ('w \<Rightarrow> 'w \<times> (string + string list \<times> string option)) \<Rightarrow>
    (string \<Rightarrow> 'b \<Rightarrow> 'b \<times> string option) \<Rightarrow> 'w \<times> 'b \<Rightarrow> ('w \<times> 'b) \<times> string option" where
  "artifact_Download store getObject wr s =
     (case getObject (fst s) of
        (w, Inl err) \<Rightarrow> ((w, snd s), Some (''failed to download artifact from '' @ store @ '': '' @ err))
      | (w, Inr (cs, rerr)) \<Rightarrow> (case ioCopy wr cs rerr (snd s) of
          (b, err) \<Rightarrow> ((w, b), map_option (\<lambda>e. ''failed to write artifact to writer: '' @ e) err)))"

definition S3_Download :: "(string \<Rightarrow> string \<Rightarrow> 'w \<Rightarrow> 'w \<times> (string + string list \<times> string option)) \<Rightarrow>
    (string \<Rightarrow> 'b \<Rightarrow> 'b \<times> string option) \<Rightarrow> S3Artifact \<Rightarrow> 'w \<times> 'b \<Rightarrow> ('w \<times> 'b) \<times> string option" where
  "S3_Download getObject wr a s = artifact_Download ''S3'' (getObject (sa_Bucket a) (sa_Key a)) wr s"

section \<open>Google Cloud Storage (gs.go)\<close>

record GSArtifact =
  gz_Bucket :: string
  gz_Object :: string

definition artifact_NewGS :: "(string \<Rightarrow> string + purl) \<Rightarrow> string option \<Rightarrow> string \<Rightarrow> string + GSArtifact" where
  "artifact_NewGS urlParse clientErr strUrl =
     (case urlParse strUrl of
        Inl err \<Rightarrow> Inl err
      | Inr u \<Rightarrow>
          if pu_Scheme u \<noteq> ''gs'' then Inl (''unsupported scheme: '' @ pu_Scheme u)
          else let pathParts = splitC (CHR ''/'') (trimPrefix (pu_Path u) ''/''); obj = joinS ''/'' pathParts;
                   bad = ''url parse error: '' @ strUrl @ '' (format: gs://<bucket>/<object>)'' in
            if pu_Host u = [] \<or> length pathParts < 2 then Inl bad
            else if obj = [] then Inl bad
            else case clientErr of
              Some err \<Rightarrow> Inl (''failed to create GS client: '' @ err)
            | None \<Rightarrow> Inr \<lparr>gz_Bucket = pu_Host u, gz_Object = obj\<rparr>)"

definition GS_Download :: "(string \<Rightarrow> string \<Rightarrow> 'w \<Rightarrow> 'w \<times> (string + string list \<times> string option)) \<Rightarrow>
    (string \<Rightarrow> 'b \<Rightarrow> 'b \<times> string option) \<Rightarrow> GSArtifact \<Rightarrow> 'w \<times> 'b \<Rightarrow> ('w \<times> 'b) \<times> string option" where
  "GS_Download newReader wr a s = artifact_Download ''Google Cloud Storage'' (newReader (gz_Bucket a) (gz_Object a)) wr s"

section \<open>Images (oci.go)\<close>

definition artifact_NewOCI :: "(string \<Rightarrow> string + purl) \<Rightarrow> string \<Rightarrow> string + string" where
  "artifact_NewOCI urlParse u = (case urlParse u of Inl err \<Rightarrow> Inl err | Inr ur \<Rightarrow> Inr (pu_Host ur @ pu_Path ur))"

text \<open>The confirmation that is written after a pull; an error of the writer is ignored.\<close>

definition OCI_Download :: "'w host \<Rightarrow> (string \<Rightarrow> 'b \<Rightarrow> 'b \<times> string option) \<Rightarrow> string \<Rightarrow> 'w Runtime \<times> 'b \<Rightarrow> ('w Runtime \<times> 'b) \<times> string option" where
  "OCI_Download h wr imageRef s = (case Pull h imageRef (fst s) of
     (r, Some err) \<Rightarrow> ((r, snd s), Some (''pull failed: '' @ err))
   | (r, None) \<Rightarrow> ((r, fst (wr (''Pulled image: '' @ imageRef @ [CHR 0x0A]) (snd s))), None))"

section \<open>The dispatch (artifact.go)\<close>

datatype artifact_kind = ArtifactGHR | ArtifactS3 | ArtifactGS | ArtifactOCI

definition artifact_factories :: "string \<Rightarrow> artifact_kind option" where
  "artifact_factories = map_of [(''ghr'', ArtifactGHR), (''s3'', ArtifactS3), (''gs'', ArtifactGS), (''img'', ArtifactOCI)]"

definition artifact_New :: "(artifact_kind \<Rightarrow> string \<Rightarrow> string + 'a) \<Rightarrow> string \<Rightarrow> string + 'a" where
  "artifact_New construct url = (case artifact_factories (hd (splitN2 url ''://'')) of
     Some f \<Rightarrow> construct f url | None \<Rightarrow> Inl (''unsupported scheme: '' @ url))"

section \<open>Lemmas\<close>

lemma assetOf_append: "assetOf tag name (xs @ ys) = (case assetOf tag name xs of Some i \<Rightarrow> Some i | None \<Rightarrow> assetOf tag name ys)"
  by (induction xs) (auto split: option.splits)

lemma find_mem: "find P xs = Some x \<Longrightarrow> x \<in> set xs \<and> P x"
  by (auto simp: find_Some_iff)

lemma assetOf_Some: "assetOf tag name vs = Some i \<Longrightarrow> \<exists>v\<in>set vs. gr_TagName v = tag \<and> (name, i) \<in> set (gr_Assets v)"
  by (induction vs) (auto dest: find_mem split: if_splits option.splits)

lemma assetOf_None: "assetOf tag name vs = None \<longleftrightarrow> (\<forall>v\<in>set vs. gr_TagName v = tag \<longrightarrow> name \<notin> fst ` set (gr_Assets v))"
proof (induction vs)
  case (Cons v vs)
  show ?case
  proof (cases "find (\<lambda>a. fst a = name) (gr_Assets v)")
    case None
    then have "name \<notin> fst ` set (gr_Assets v)" by (auto simp: find_None_iff)
    with None Cons show ?thesis by simp
  next
    case (Some a)
    then have "name \<in> fst ` set (gr_Assets v)" using find_mem [OF Some] by blast
    with Some Cons show ?thesis by simp
  qed
qed simp

text \<open>The service answers the listing with these pages, the first under the given number.\<close>

fun asset_pages :: "'w GitHubAssets \<Rightarrow> string \<Rightarrow> string \<Rightarrow> 'w \<Rightarrow> goint \<Rightarrow> gh_release list list \<Rightarrow> bool" where
  "asset_pages cl ow re w page [] = False"
| "asset_pages cl ow re w page (vs # pages) = (\<exists>nx. as_ListReleases cl ow re page w = (w, Inr (vs, nx)) \<and>
     (if pages = [] then nx = 0 else nx \<noteq> 0 \<and> asset_pages cl ow re w nx pages))"

lemma ghr_assetID_pages:
  "asset_pages cl (ga_owner g) (ga_repo g) w page pages \<Longrightarrow>
   ghr_assetID cl g page w = Some (w, Inr (case assetOf (ga_tag g) (ga_artifact g) (concat pages) of Some i \<Rightarrow> i | None \<Rightarrow> 0))"
proof (induction pages arbitrary: page)
  case (Cons vs pages)
  then obtain nx where l: "as_ListReleases cl (ga_owner g) (ga_repo g) page w = (w, Inr (vs, nx))"
      and n: "if pages = [] then nx = 0 else nx \<noteq> 0 \<and> asset_pages cl (ga_owner g) (ga_repo g) w nx pages" by auto
  show ?case
    using l n Cons.IH [of nx] by (subst ghr_assetID.simps) (auto simp: assetOf_append split: option.splits if_splits)
qed simp

lemma artifact_NewGHR_url:
  assumes "CHR ''/'' \<notin> set ow \<union> set re \<union> set tag \<union> set name"
  shows "artifact_NewGHR None (''ghr://'' @ ow @ ''/'' @ re @ ''/tag/'' @ tag @ ''/'' @ name) =
    Inr \<lparr>ga_owner = ow, ga_repo = re, ga_tag = tag, ga_artifact = name, ga_url = ''ghr://'' @ ow @ ''/'' @ re @ ''/tag/'' @ tag @ ''/'' @ name\<rparr>"
proof -
  have "trimPrefix (''ghr://'' @ ow @ ''/'' @ re @ ''/tag/'' @ tag @ ''/'' @ name) ''ghr://'' = ow @ CHR ''/'' # re @ CHR ''/'' # ''tag'' @ CHR ''/'' # tag @ CHR ''/'' # name"
    by (simp add: trimPrefix_def hasPrefix_def)
  moreover have "splitC (CHR ''/'') (ow @ CHR ''/'' # re @ CHR ''/'' # ''tag'' @ CHR ''/'' # tag @ CHR ''/'' # name) = [ow, re, ''tag'', tag, name]"
    using assms splitC_append [of "CHR ''/''" "''tag''" "tag @ CHR ''/'' # name"] by (simp add: splitC_append)
  ultimately show ?thesis by (simp add: artifact_NewGHR_def)
qed

section \<open>Properties\<close>

text \<open>
  What the GitHub registry offers can be downloaded: the URL of an offered asset is
  read back into its owner, repository, tag and name (GitHub allows no slash in any of them, nor
  do versions), and when the service lists the releases with that asset, the download asks for an
  asset of that name in a release of that tag, on whatever page it is.
\<close>

theorem GHR_Download_offered:
  assumes "offers pl g rel url" and "CHR ''/'' \<notin> set (gh_Owner g) \<union> set (gh_Repo g) \<union> set (rl_TagName rel) \<union> \<Union> (set ` set (rl_Assets rel))"
    and "asset_pages cl (gh_Owner g) (gh_Repo g) w 1 pages"
    and "\<exists>v\<in>set (concat pages). gr_TagName v = rl_TagName rel \<and> set (rl_Assets rel) \<subseteq> fst ` set (gr_Assets v)"
  shows "\<exists>a i. artifact_NewGHR None url = Inr a \<and> ga_tag a = rl_TagName rel \<and> ga_artifact a \<in> set (rl_Assets rel) \<and>
    (\<exists>v\<in>set (concat pages). gr_TagName v = rl_TagName rel \<and> (ga_artifact a, i) \<in> set (gr_Assets v)) \<and>
    (\<forall>wr b. GHR_Download cl wr a (w, b) = Some (ghr_fetch cl wr a i (w, b)))"
proof -
  from assms(1) obtain name where n: "name \<in> set (rl_Assets rel)"
      "url = ''ghr://'' @ gh_Owner g @ ''/'' @ gh_Repo g @ ''/tag/'' @ rl_TagName rel @ ''/'' @ name"
    by (auto simp: offers_def)
  let ?a = "\<lparr>ga_owner = gh_Owner g, ga_repo = gh_Repo g, ga_tag = rl_TagName rel, ga_artifact = name, ga_url = url\<rparr>"
  have a: "artifact_NewGHR None url = Inr ?a" using artifact_NewGHR_url [of "gh_Owner g" "gh_Repo g" "rl_TagName rel" name] n assms(2) by auto
  have "assetOf (rl_TagName rel) name (concat pages) \<noteq> None" using assms(4) n(1) unfolding assetOf_None by blast
  then obtain i where i: "assetOf (rl_TagName rel) name (concat pages) = Some i" by blast
  have "GHR_Download cl wr ?a (w, b) = Some (ghr_fetch cl wr ?a i (w, b))" for wr b
    using ghr_assetID_pages [of cl ?a w 1 pages] assms(3) i by (simp add: GHR_Download_def)
  with a n(1) assetOf_Some [OF i] show ?thesis by (intro exI [of _ ?a] exI [of _ i]) auto
qed

definition asset_hub :: "'w GitHubAssets" where
  "asset_hub = \<lparr>as_ListReleases = (\<lambda>ow re page w. (w, Inr (if page = 1 then ([\<lparr>gr_TagName = ''v1.9.0'', gr_Assets = [(''a_linux_amd64.zip'', 5)]\<rparr>], 2)
       else ([\<lparr>gr_TagName = ''v1.10.0'', gr_Assets = [(''b.txt'', 8), (''b_linux_amd64.zip'', 9)]\<rparr>], 0)))),
     as_Download = (\<lambda>ow re i w. (w, Inr (Inl ([itoa i], None)))), as_Get = (\<lambda>u w. (w, Inl ''no''))\<rparr>"

theorem GHR_Download_offered_witness:
  "\<exists>a i. artifact_NewGHR None ''ghr://o/r/tag/v1.10.0/b_linux_amd64.zip'' = Inr a \<and> ga_artifact a = ''b_linux_amd64.zip'' \<and>
     GHR_Download asset_hub (\<lambda>c b. (b @ c, None)) a ((), []) = Some (ghr_fetch asset_hub (\<lambda>c b. (b @ c, None)) a i ((), [])) \<and> i = 9"
proof -
  let ?rel = "hub_pages ! 1 ! 0" and ?p1 = "[\<lparr>gr_TagName = ''v1.9.0'', gr_Assets = [(''a_linux_amd64.zip'', 5)]\<rparr>]"
    and ?p2 = "[\<lparr>gr_TagName = ''v1.10.0'', gr_Assets = [(''b.txt'', 8), (''b_linux_amd64.zip'', 9)]\<rparr>]"
  have o1: "offers linux_amd64 (hub_repo\<lparr>gh_Artifact := ''b_linux_amd64.zip''\<rparr>) ?rel ''ghr://o/r/tag/v1.10.0/b_linux_amd64.zip''"
    by (simp add: offers_def hub_repo_def hub_pages_def)
  have s: "CHR ''/'' \<notin> set (gh_Owner (hub_repo\<lparr>gh_Artifact := ''b_linux_amd64.zip''\<rparr>)) \<union> set (gh_Repo (hub_repo\<lparr>gh_Artifact := ''b_linux_amd64.zip''\<rparr>)) \<union>
      set (rl_TagName ?rel) \<union> \<Union> (set ` set (rl_Assets ?rel))" by (simp add: hub_repo_def hub_pages_def)
  have p: "asset_pages asset_hub (gh_Owner (hub_repo\<lparr>gh_Artifact := ''b_linux_amd64.zip''\<rparr>)) (gh_Repo (hub_repo\<lparr>gh_Artifact := ''b_linux_amd64.zip''\<rparr>)) () 1 [?p1, ?p2]"
    by (simp add: asset_hub_def)
  have v: "\<exists>v\<in>set (concat [?p1, ?p2]). gr_TagName v = rl_TagName ?rel \<and> set (rl_Assets ?rel) \<subseteq> fst ` set (gr_Assets v)"
    by (simp add: hub_pages_def)
  from GHR_Download_offered [OF o1 s p v] show ?thesis by (fastforce simp: hub_pages_def)
qed

text \<open>An artifact that is not listed is not reported as missing: asset 0 is requested.\<close>

theorem ghr_assetID_missing:
  "ghr_assetID asset_hub \<lparr>ga_owner = ''o'', ga_repo = ''r'', ga_tag = ''v1.9.0'', ga_artifact = ''x'', ga_url = []\<rparr> 1 () = Some ((), Inr 0)"
  by (subst ghr_assetID.simps, simp add: asset_hub_def, subst ghr_assetID.simps, simp)

text \<open>
  The message of artifact_NewGS names the format gs://<bucket>/<object>, but an object at the top
  of a bucket is refused with that very message.
\<close>

theorem artifact_NewGS_top_object:
  "artifact_NewGS (\<lambda>s. Inr \<lparr>pu_Scheme = ''gs'', pu_Host = ''b'', pu_Path = ''/app.zip'', pu_Query = []\<rparr>) None ''gs://b/app.zip'' =
     Inl ''url parse error: gs://b/app.zip (format: gs://<bucket>/<object>)''"
  by code_simp

end
