(* ===== verification/Lifecycle_Container.thy ===== *)
theory Lifecycle_Container
  imports Lifecycle_Props Artifact
begin

text \<open>
  The tick of an instance that runs containers (dewy.go, lifecycle.go, release.go): the phases of
  RunContainer over the container runtime, the artifact and the proxies, the handling of signals,
  and the life of an instance as a sequence of ticks and signals.
\<close>

section \<open>State\<close>

text \<open>
  An instance with its container runtime and its proxies. The runtime acts on the same world as
  the rest of the instance; its world is brought up to date when it is used.
\<close>

record ('w, 'p) Node =
  nd_dewy :: "'w Dewy"
  nd_containerRuntime :: "'w Runtime option"
  nd_proxies :: "'p proxies"
  nd_adminServer :: "goint option"

definition on_dewy :: "('w Dewy \<Rightarrow> 'w Dewy) \<Rightarrow> ('w, 'p) Node \<Rightarrow> ('w, 'p) Node" where
  "on_dewy f n = n\<lparr>nd_dewy := f (nd_dewy n)\<rparr>"

definition set_runtime :: "'w Runtime \<Rightarrow> ('w, 'p) Node \<Rightarrow> ('w, 'p) Node" where
  "set_runtime r n = n\<lparr>nd_containerRuntime := Some r, nd_dewy := (nd_dewy n)\<lparr>dw_world := rt_world r\<rparr>\<rparr>"

definition get_runtime :: "('w, 'p) Node \<Rightarrow> 'w Runtime option" where
  "get_runtime n = map_option (\<lambda>r. r\<lparr>rt_world := dw_world (nd_dewy n)\<rparr>) (nd_containerRuntime n)"

definition nilPanic :: string where
  "nilPanic = ''runtime error: invalid memory address or nil pointer dereference''"

text \<open>
  What an instance needs of its surroundings beyond those of the server path: the host of the
  runtime, the requests of the health check, url.Parse, the network of the proxies, the listener
  and the shutdown of the admin server, the shutdown of the telemetry.
\<close>

record ('w, 'p) node_env =
  ne_deps :: "'w deps"
  ne_host :: "'w host"
  ne_httpGet :: "'w \<Rightarrow> string \<Rightarrow> 'w \<times> (string + goint)"
  ne_urlParse :: "string \<Rightarrow> string + purl"
  ne_net :: "'p network"
  ne_Listen :: "goint \<Rightarrow> 'w \<Rightarrow> 'w \<times> string option"
  ne_Shutdown :: "'w \<Rightarrow> 'w \<times> string option"
  ne_TelemetryShutdown :: "'w \<Rightarrow> 'w \<times> string option"

section \<open>The phases (lifecycle.go)\<close>

definition resolveContainerCurrent :: "'w deps \<Rightarrow> 'w Dewy \<Rightarrow> 'w Dewy \<times> (string + CurrentResponse option)" where
  "resolveContainerCurrent dp d =
     (case call (dp_Current dp) d of
        (d, Inl err) \<Rightarrow> (d, Inl (registry_error_text err))
      | (d, Inr res) \<Rightarrow>
          if \<not> SlotMatcher_Matches (cg_Slot (dw_config d)) (cr_Slot res) then (d, Inr None) else (d, Inr (Some res)))"

record containerState =
  ct_imageRef :: string
  ct_appName :: string
  ct_skip :: bool

definition resolveContainerState :: "('w, 'p) node_env \<Rightarrow> CurrentResponse \<Rightarrow> ('w, 'p) Node \<Rightarrow> ('w, 'p) Node \<times> (string + containerState)" where
  "resolveContainerState ne res n =
     (let imageRef = trimPrefix (cr_ArtifactURL res) ''img://''; app = appName (dw_config (nd_dewy n)) in
      (case cg_Container (dw_config (nd_dewy n)) of
         None \<Rightarrow> (n, Inl nilPanic)
       | Some cc \<Rightarrow> (case New (ne_host ne) (dw_world (nd_dewy n)) (cc_Runtime cc) (cc_DrainTime cc) of
           Inl err \<Rightarrow> (n, Inl (''failed to create container runtime: '' @ err))
         | Inr rt \<Rightarrow> (case GetRunningContainerWithImage (ne_host ne) imageRef app rt of (rt, running) \<Rightarrow>
             (set_runtime rt n, Inr \<lparr>ct_imageRef = imageRef, ct_appName = app,
                ct_skip = (case running of Inl _ \<Rightarrow> False | Inr runningID \<Rightarrow> runningID \<noteq> [])\<rparr>)))))"

text \<open>
  artifact.New with the runtime as the puller: an image, or another artifact of the deps. The
  buffer that is written to is dropped.
\<close>

definition pullContainerImage :: "('w, 'p) node_env \<Rightarrow> CurrentResponse \<Rightarrow> ('w, 'p) Node \<Rightarrow> ('w, 'p) Node \<times> string option" where
  "pullContainerImage ne res n =
     (let url = cr_ArtifactURL res;
          pulled = on_dewy (\<lambda>d. tell (Send (''Pulled image for '' @ backtick (cr_Tag res))) (record_event (EvPulled url) d));
          failed = (\<lambda>err. Some (''failed to pull image: '' @ err)) in
      if artifact_factories (hd (splitN2 url ''://'')) = Some ArtifactOCI then
        (case artifact_NewOCI (ne_urlParse ne) url of
           Inl err \<Rightarrow> (n, Some (''failed artifact.New: '' @ err))
         | Inr ref \<Rightarrow> (case get_runtime n of
             None \<Rightarrow> (n, Some nilPanic)
           | Some rt \<Rightarrow> (case OCI_Download (ne_host ne) (\<lambda>c b. (b @ c, None)) ref (rt, []) of
               ((rt, _), Some err) \<Rightarrow> (set_runtime rt n, failed err)
             | ((rt, _), None) \<Rightarrow> (pulled (set_runtime rt n), None))))
      else (case dp_NewArtifact (ne_deps ne) url of
          Some err \<Rightarrow> (n, Some (''failed artifact.New: '' @ err))
        | None \<Rightarrow> (case call (dp_Download (ne_deps ne) url) (nd_dewy n) of
            (d, chunks, Some err) \<Rightarrow> (n\<lparr>nd_dewy := d\<rparr>, failed err)
          | (d, chunks, None) \<Rightarrow> (pulled (n\<lparr>nd_dewy := d\<rparr>), None))))"

definition deployNode :: "('w, 'p) node_env \<Rightarrow> CurrentResponse \<Rightarrow> ('w, 'p) Node \<Rightarrow> ('w, 'p) Node \<times> (string + nat)" where
  "deployNode ne res n =
     (case deployContainer (ne_host ne) (ne_httpGet ne) (cg_Container (dw_config (nd_dewy n))) (appName (dw_config (nd_dewy n)))
         (cr_Tag res) (cr_ArtifactURL res) (get_runtime n, nd_proxies n) of
        ((rt, px), r) \<Rightarrow> ((case rt of Some rt \<Rightarrow> set_runtime rt n | None \<Rightarrow> n)\<lparr>nd_proxies := px\<rparr>, r))"

definition applyContainerDeployment :: "('w, 'p) node_env \<Rightarrow> CurrentResponse \<Rightarrow> ('w, 'p) Node \<Rightarrow> ('w, 'p) Node \<times> (string + nat)" where
  "applyContainerDeployment ne res n =
     (let n = on_dewy (\<lambda>d. runHook (ne_deps ne) ''Before Deploy'' (cg_BeforeDeployHook (dw_config d)) d) n in
      (case deployNode ne res n of (n, r) \<Rightarrow> (on_dewy (recordDeployment (isl r)) n, r)))"

definition cleanupOldImages :: "('w, 'p) node_env \<Rightarrow> string \<Rightarrow> ('w, 'p) Node \<Rightarrow> ('w, 'p) Node \<times> string option" where
  "cleanupOldImages ne imageRef n = (case get_runtime n of
     None \<Rightarrow> (n, Some ''container runtime not initialized'')
   | Some rt \<Rightarrow> (case CleanupOldImages (ne_host ne) imageRef (int keepReleasesCount) rt of (rt, err) \<Rightarrow> (set_runtime rt n, err)))"

definition replicasText :: "Config \<Rightarrow> nat \<Rightarrow> string \<Rightarrow> string" where
  "replicasText c deployedCount version =
     (let total = (case cg_Container c of Some cc \<Rightarrow> if cc_Replicas cc \<le> 0 then 1 else cc_Replicas cc | None \<Rightarrow> 1) in
      ''Container deployed successfully: '' @ backtick (itoa (int deployedCount) @ ''/'' @ itoa total) @ '' replicas of '' @ backtick version)"

definition promoteContainerAndReport :: "('w, 'p) node_env \<Rightarrow> CurrentResponse \<Rightarrow> nat \<Rightarrow> string \<Rightarrow> ('w, 'p) Node \<Rightarrow> ('w, 'p) Node" where
  "promoteContainerAndReport ne res deployedCount imageRef n =
     fst (cleanupOldImages ne imageRef (on_dewy (\<lambda>d.
       let d = record_event (EvDeployed (cr_Tag res) deployedCount) (d\<lparr>dw_cVer := cr_Tag res\<rparr>);
           d = runHook (ne_deps ne) ''After Deploy'' (cg_AfterDeployHook (dw_config d)) d;
           d = reportDeployment (ne_deps ne) res d
       in tell (SendImportant (replicasText (dw_config d) deployedCount (dw_cVer d))) d) n))"

section \<open>The tick (dewy.go)\<close>

definition RunContainer :: "('w, 'p) node_env \<Rightarrow> ('w, 'p) Node \<Rightarrow> ('w, 'p) Node \<times> string option" where
  "RunContainer ne n =
     (case resolveContainerCurrent (ne_deps ne) (nd_dewy n) of
        (d, Inl err) \<Rightarrow> (n\<lparr>nd_dewy := d\<rparr>, Some err)
      | (d, Inr None) \<Rightarrow> (n\<lparr>nd_dewy := d\<rparr>, None)
      | (d, Inr (Some res)) \<Rightarrow> (case resolveContainerState ne res (n\<lparr>nd_dewy := d\<rparr>) of
          (n, Inl err) \<Rightarrow> (n, Some err)
        | (n, Inr st) \<Rightarrow>
            if ct_skip st then (n, None)
            else (case pullContainerImage ne res n of
              (n, Some err) \<Rightarrow> (n, Some err)
            | (n, None) \<Rightarrow> (case applyContainerDeployment ne res n of
                (n, Inl err) \<Rightarrow> (n, Some err)
              | (n, Inr deployedCount) \<Rightarrow> (promoteContainerAndReport ne res deployedCount (ct_imageRef st) n, None)))))"

section \<open>Ticks and signals (dewy.go)\<close>

text \<open>The function that the scheduler runs.\<close>

definition runTick :: "('w, 'p) node_env \<Rightarrow> ('w, 'p) Node \<Rightarrow> ('w, 'p) Node" where
  "runTick ne n =
     (case (if cg_Command (dw_config (nd_dewy n)) = CONTAINER then RunContainer ne n
            else case dewy_Run (ne_deps ne) (nd_dewy n) of (d, e) \<Rightarrow> (n\<lparr>nd_dewy := d\<rparr>, e)) of
        (n, Some err) \<Rightarrow> on_dewy (tell (SendError err)) n
      | (n, None) \<Rightarrow> on_dewy (tell ResetErrorCount) n)"

datatype signal = SIGHUP | SIGUSR1 | SIGINT | SIGTERM | SIGQUIT

fun signal_String :: "signal \<Rightarrow> string" where
  "signal_String SIGHUP = ''hangup''" | "signal_String SIGUSR1 = ''user defined signal 1''" | "signal_String SIGINT = ''interrupt''"
| "signal_String SIGTERM = ''terminated''" | "signal_String SIGQUIT = ''quit''"

definition stopAdminAPI :: "('w, 'p) node_env \<Rightarrow> 'w Dewy \<Rightarrow> goint option \<Rightarrow> 'w Dewy \<times> string option" where
  "stopAdminAPI ne d adminServer =
     (case adminServer of
        None \<Rightarrow> (d, None)
      | Some _ \<Rightarrow> apsnd (map_option (append ''failed to shutdown admin API: '')) (call (ne_Shutdown ne) d))"

definition stopNodeContainers :: "('w, 'p) node_env \<Rightarrow> ('w, 'p) Node \<Rightarrow> ('w, 'p) Node" where
  "stopNodeContainers ne n = (case stopManagedContainers (ne_host ne) (appName (dw_config (nd_dewy n))) (get_runtime n) of
     (Some rt, _) \<Rightarrow> set_runtime rt n | (None, _) \<Rightarrow> n)"

definition stopNodeProxy :: "('w, 'p) node_env \<Rightarrow> ('w, 'p) Node \<Rightarrow> ('w, 'p) Node" where
  "stopNodeProxy ne n = n\<lparr>nd_proxies := fst (stopProxy (ne_net ne) (nd_proxies n))\<rparr>"

definition restartBySignal :: "('w, 'p) node_env \<Rightarrow> 'w Dewy \<Rightarrow> 'w Dewy" where
  "restartBySignal ne d =
     (let hasServer = (cg_Command (dw_config d) = SERVER \<and> dw_isServerRunning d) in
      (case restartServer (ne_deps ne) d of
         (d, Some err) \<Rightarrow> d
       | (d, None) \<Rightarrow> tell (Send (''Restarted receiving by '' @ backtick ''SIGUSR1'' @ '' signal''))
           (if hasServer then recordServerRestart ''signal'' d else d)))"

definition stopTelemetry :: "('w, 'p) node_env \<Rightarrow> 'w Dewy \<Rightarrow> 'w Dewy" where
  "stopTelemetry ne d = (if dw_metrics d = None then d else fst (call (ne_TelemetryShutdown ne) d))"

text \<open>A signal; the second component tells whether the loop goes on.\<close>

fun handleSignal :: "('w, 'p) node_env \<Rightarrow> signal \<Rightarrow> ('w, 'p) Node \<Rightarrow> ('w, 'p) Node \<times> bool" where
  "handleSignal ne SIGHUP n = (n, True)"
| "handleSignal ne SIGUSR1 n = (on_dewy (restartBySignal ne) n, True)"
| "handleSignal ne sig n =
     (let n = (if cg_Command (dw_config (nd_dewy n)) = CONTAINER then stopNodeProxy ne (stopNodeContainers ne n) else n)
      in (on_dewy (\<lambda>d. tell (Send (''Stop receiving by '' @ backtick (signal_String sig) @ '' signal''))
            (stopTelemetry ne (fst (stopAdminAPI ne d (nd_adminServer n))))) n, False))"

section \<open>Construction and start (dewy.go, admin_api.go)\<close>

text \<open>
  urlParse and urlEncode are url.Parse of the part after the scheme and the printed form of the
  result with the calver parameter set, if any.
\<close>

definition dewy_New :: "(string \<Rightarrow> string option) \<Rightarrow> (string + string) \<Rightarrow> (string \<Rightarrow> string + 'u) \<Rightarrow> (string option \<Rightarrow> 'u \<Rightarrow> string) \<Rightarrow>
    Config \<Rightarrow> string + Config \<times> string" where
  "dewy_New newCache getwd urlParse urlEncode c =
     (case newCache (kc_URL (cg_Cache c)) of
        Some err \<Rightarrow> Inl (''failed to init cache backend: '' @ err)
      | None \<Rightarrow> (case getwd of
          Inl err \<Rightarrow> Inl err
        | Inr wd \<Rightarrow>
            let su = splitN2 (cg_Registry c) ''://'' in
            if length su \<noteq> 2 \<or> su ! 0 = [] \<or> su ! 1 = []
            then Inl (''invalid registry format (expected scheme://host/path): '' @ cg_Registry c)
            else (case urlParse (su ! 1) of
                Inl err \<Rightarrow> Inl err
              | Inr u \<Rightarrow>
                  if cg_CalVer c = [] then Inr (c\<lparr>cg_Registry := su ! 0 @ ''://'' @ urlEncode None u\<rparr>, wd)
                  else (case NewCalVerFormat (cg_CalVer c) of
                      Inl err \<Rightarrow> Inl (''invalid calver format: '' @ find_error_text err)
                    | Inr _ \<Rightarrow> Inr (c\<lparr>cg_Registry := su ! 0 @ ''://'' @ urlEncode (Some (cg_CalVer c)) u\<rparr>, wd)))))"

definition defaultAdminPort :: goint where "defaultAdminPort = 17539"

definition maxAttempts :: nat where "maxAttempts = 10"

text \<open>The search for a free port; err is the error of the last attempt.\<close>

fun bindAdmin :: "(goint \<Rightarrow> 'w \<Rightarrow> 'w \<times> string option) \<Rightarrow> goint \<Rightarrow> nat \<Rightarrow> string \<Rightarrow> 'w \<Rightarrow> 'w \<times> (string + goint)" where
  "bindAdmin listen port 0 err w = (w, Inl err)"
| "bindAdmin listen port (Suc left) err w = (case listen port w of
     (w, None) \<Rightarrow> (w, Inr port) | (w, Some err) \<Rightarrow> bindAdmin listen (wrap64 (port + 1)) left err w)"

definition adminPortOf :: "goint \<Rightarrow> goint" where
  "adminPortOf p = (if p = 0 then defaultAdminPort else p)"

definition startAdminAPI :: "('w, 'p) node_env \<Rightarrow> ('w, 'p) Node \<Rightarrow> ('w, 'p) Node \<times> string option" where
  "startAdminAPI ne n =
     (case call (bindAdmin (ne_Listen ne) (adminPortOf (cg_AdminPort (dw_config (nd_dewy n)))) maxAttempts []) (nd_dewy n) of
        (d, Inl err) \<Rightarrow> (n\<lparr>nd_dewy := d\<rparr>, Some (''failed to bind admin API after '' @ itoa (int maxAttempts) @ '' attempts: '' @ err))
      | (d, Inr port) \<Rightarrow> (n\<lparr>nd_dewy := d, nd_adminServer := Some port\<rparr>, None))"

definition startNodeProxy :: "('w, 'p) node_env \<Rightarrow> ('w, 'p) Node \<Rightarrow> ('w, 'p) Node \<times> string option" where
  "startNodeProxy ne n = (case cg_Container (dw_config (nd_dewy n)) of
     None \<Rightarrow> (n, Some nilPanic)
   | Some cc \<Rightarrow> (case startProxy (ne_net ne) (cc_ProxyIdleTimeout cc) (dw_metrics (nd_dewy n) \<noteq> None)
         (map ProxyPort (cc_PortMappings cc)) (nd_proxies n) of
       (px, err) \<Rightarrow> (n\<lparr>nd_proxies := px\<rparr>, err)))"

text \<open>A service that must come up before the first tick: its failure is sent and ends the start.\<close>

definition require :: "(('w, 'p) Node \<Rightarrow> ('w, 'p) Node \<times> string option) \<Rightarrow> ('w, 'p) Node \<times> bool \<Rightarrow> ('w, 'p) Node \<times> bool" where
  "require service s = (case s of
     (n, False) \<Rightarrow> (n, False)
   | (n, True) \<Rightarrow> (case service n of
       (n, Some err) \<Rightarrow> (on_dewy (tell (SendError err)) n, False) | (n, None) \<Rightarrow> (n, True)))"

definition announceStart :: "'w deps \<Rightarrow> 'w Dewy \<Rightarrow> 'w Dewy" where
  "announceStart dp d =
     tell (Send (''Automatic shipping started by *Dewy* (v'' @ cg_Version (dw_config d) @ '': '' @ Command_String (cg_Command (dw_config d)) @ '')''))
       (tell (OnDeploy (dp_SlackFile dp (linkPath d) (dw_world d))) d)"

text \<open>The part of Start up to the scheduler; the second component tells whether it gets there.\<close>

definition Start :: "('w, 'p) node_env \<Rightarrow> ('w, 'p) Node \<Rightarrow> ('w, 'p) Node \<times> bool" where
  "Start ne n =
     (let n = on_dewy (announceStart (ne_deps ne)) n in
      if cg_Command (dw_config (nd_dewy n)) = CONTAINER then require (startAdminAPI ne) (require (startNodeProxy ne) (n, True))
      else if dw_metrics (nd_dewy n) \<noteq> None then require (startAdminAPI ne) (n, True)
      else (n, True))"

section \<open>The admin API (admin_api.go)\<close>

record status_response =
  sr_name :: string
  sr_command :: Command
  sr_current_version :: string
  sr_proxy_backends :: nat
  sr_is_running :: bool

datatype admin_response = AdminError goint string | AdminContainers "Info list option" | AdminStatus status_response

definition containerListLabels :: "'w Dewy \<Rightarrow> (string \<times> string) list" where
  "containerListLabels d = [(''dewy.managed'', ''true''), (''dewy.app'', appName (dw_config d))]"

definition handleGetContainers :: "('w, 'p) node_env \<Rightarrow> string \<Rightarrow> ('w, 'p) Node \<Rightarrow> ('w, 'p) Node \<times> admin_response" where
  "handleGetContainers ne reqMethod n =
     (if reqMethod \<noteq> ''GET'' then (n, AdminError 405 ''Method not allowed'')
      else if cg_Command (dw_config (nd_dewy n)) \<noteq> CONTAINER then (n, AdminContainers None)
      else case get_runtime n of
        None \<Rightarrow> (n, AdminContainers None)
      | Some rt \<Rightarrow>
          let ms = (case cg_Container (dw_config (nd_dewy n)) of Some cc \<Rightarrow> cc_PortMappings cc | None \<Rightarrow> []);
              containerPort = (case ms of m # _ \<Rightarrow> ContainerPort m | [] \<Rightarrow> 0) in
          (case ListContainersByLabels (ne_host ne) (containerListLabels (nd_dewy n)) containerPort rt of
             (rt, Inl err) \<Rightarrow> (set_runtime rt n, AdminError 500 ''Internal server error'')
           | (rt, Inr infos) \<Rightarrow> (set_runtime rt n, AdminContainers (Some infos))))"

definition handleGetStatus :: "string \<Rightarrow> ('w, 'p) Node \<Rightarrow> admin_response" where
  "handleGetStatus reqMethod n =
     (if reqMethod \<noteq> ''GET'' then AdminError 405 ''Method not allowed''
      else AdminStatus \<lparr>sr_name = appName (dw_config (nd_dewy n)), sr_command = cg_Command (dw_config (nd_dewy n)),
        sr_current_version = dw_cVer (nd_dewy n), sr_proxy_backends = totalProxyBackends (nd_proxies n),
        sr_is_running = dw_isServerRunning (nd_dewy n)\<rparr>)"

section \<open>The life of an instance\<close>

datatype occurrence = Tick | Signal signal

text \<open>The life of an instance: ticks and signals in the order they come, until a signal ends it.\<close>

fun live :: "('w, 'p) node_env \<Rightarrow> occurrence list \<Rightarrow> ('w, 'p) Node \<Rightarrow> ('w, 'p) Node \<times> bool" where
  "live ne [] n = (n, True)"
| "live ne (Tick # os) n = live ne os (runTick ne n)"
| "live ne (Signal sig # os) n = (case handleSignal ne sig n of (n, True) \<Rightarrow> live ne os n | (n, False) \<Rightarrow> (n, False))"

end
