(* ===== verification/Lifecycle_Container_Props.thy ===== *)
theory Lifecycle_Container_Props
  imports Lifecycle_Container
begin

text \<open>
  The life of an instance that runs containers: a deployment keeps the listeners of the proxies (by
  the locale updater_view), a tick keeps the configuration, a failed tick keeps the service, and
  a terminating signal stops the containers and closes what was opened.
\<close>

section \<open>What a deployment keeps of the proxies\<close>

text \<open>
  A view of an updater that neither of its operations changes. A rolling deployment reaches the
  updater only through them, so that it keeps the view on every path.
\<close>

locale updater_view =
  fixes add :: "string \<Rightarrow> goint \<Rightarrow> goint \<Rightarrow> 'u \<Rightarrow> 'u \<times> string option"
    and remove :: "string \<Rightarrow> goint \<Rightarrow> goint \<Rightarrow> 'u \<Rightarrow> 'u \<times> string option"
    and view :: "'u \<Rightarrow> 'v"
  assumes add_view: "view (fst (add host p pp u)) = view u"
    and remove_view: "view (fst (remove host p pp u)) = view u"
begin

abbreviation up :: "'u BackendUpdater" where
  "up \<equiv> \<lparr>AddBackend = add, RemoveBackend = remove\<rparr>"

lemma add_backend_view: "view (snd (fst (add_backend up pp m s))) = view (snd s)"
  by (simp add: add_backend_def split_beta add_view)

lemma remove_backend_view [simp]: "view (snd (remove_backend up pp m s)) = view (snd s)"
  by (simp add: remove_backend_def split_beta remove_view)

lemma range_ports_view: "range_ports h ps s = (s', qs) \<Longrightarrow> snd s' = snd s"
  by (auto simp: range_ports_def split: prod.splits)

lemma add_all_view: "view (snd (fst (add_all up ps s))) = view (snd s)"
proof (induction ps arbitrary: s)
  case (Cons x ps)
  obtain pp m where x: "x = (pp, m)" by (rule prod.exhaust)
  obtain s1 e where a: "add_backend up pp m s = (s1, e)" by (rule prod.exhaust)
  with add_backend_view [of pp m s] have "view (snd s1) = view (snd s)" by simp
  with Cons [of s1] a x show ?case by (cases e) auto
qed simp

lemma remove_all_view [simp]: "view (snd (remove_all up ps s)) = view (snd s)"
proof (induction ps arbitrary: s)
  case (Cons x ps)
  then show ?case by (cases x) simp
qed simp

lemma rollback_view: "view (snd (rollback h up results s)) = view (snd s)"
proof -
  have "view (snd (rollback_backends h up results s)) = view (snd s)"
    by (induction results arbitrary: s) (auto dest: range_ports_view split: prod.splits)
  then show ?thesis by (simp add: rollback_def Let_def)
qed

lemma deployReplicas_view: "view (snd (fst (deployReplicas h up opts n results s))) = view (snd s)"
proof (induction n arbitrary: results s)
  case (Suc n)
  obtain r1 x where st: "startAndCheck h opts (int (length results)) (fst s) = (r1, x)" by (rule prod.exhaust)
  show ?case
  proof (cases x)
    case (Inl e)
    then show ?thesis using st rollback_view [of h results "(r1, snd s)"] by simp
  next
    case (Inr result)
    obtain s2 ps where rp: "range_ports h (dr_MappedPorts result) (r1, snd s) = (s2, ps)" by (rule prod.exhaust)
    note 2 = range_ports_view [OF rp]
    obtain s3 e where a: "add_all up ps s2 = (s3, e)" by (rule prod.exhaust)
    with add_all_view [of ps s2] 2 have "view (snd s3) = view (snd s)" by simp
    with Suc [of "results @ [result]" s3] rollback_view [of h "results @ [result]" s3] st Inr rp a show ?thesis
      by (cases e) simp_all
  qed
qed simp

lemma removeOld_view: "view (snd (removeOld h up ms cs s)) = view (snd s)"
proof -
  have one: "view (snd (removeOldBackends h up c ms s)) = view (snd s)" for c s
    by (induction ms arbitrary: s) (auto split: prod.splits sum.splits)
  show ?thesis by (induction cs arbitrary: s) (simp_all add: Let_def one)
qed

lemma Deploy_view: "view (snd (fst (Deploy h opts (Some up) s))) = view (snd s)"
proof -
  obtain r f where f: "FindContainersByLabel h [(''dewy.managed'', ''true''), (''dewy.app'', do_AppName opts)] (fst s) = (r, f)" by (rule prod.exhaust)
  let ?n = "if do_Replicas opts \<le> 0 then 1 else nat (do_Replicas opts)"
  obtain s2 res where d: "deployReplicas h up opts ?n [] (r, snd s) = (s2, res)" by (rule prod.exhaust)
  with deployReplicas_view [of h opts ?n "[]" "(r, snd s)"] have 2: "view (snd s2) = view (snd s)" by simp
  show ?thesis
  proof (cases f)
    case (Inl e)
    then show ?thesis using f by (simp add: Deploy_def)
  next
    case (Inr existing)
    then show ?thesis using f d 2 removeOld_view [of h "do_PortMappings opts" existing s2] by (cases res) (simp_all add: Deploy_def Let_def)
  qed
qed

end

text \<open>The listeners of the proxies: their ports, as keys and as fields, and the log of the network.\<close>

definition listeners :: "'w proxies \<Rightarrow> (goint \<times> goint) list \<times> net_event list" where
  "listeners d = (map (\<lambda>(k, p). (k, tp_proxyPort p)) (tcpProxies d), px_log d)"

lemma listeners_ports: "proxy_ports d = fst ` set (fst (listeners d))"
  by (auto simp: proxy_ports_def listeners_def image_image split_beta)

lemma listeners_update:
  assumes "map_of (tcpProxies d) k = Some p" "tp_proxyPort p' = tp_proxyPort p"
  shows "listeners (d\<lparr>px_map := Some (AList.update k p' (tcpProxies d))\<rparr>) = listeners d"
proof -
  have "map_of m k = Some p \<Longrightarrow> map (\<lambda>(k, p). (k, tp_proxyPort p)) (AList.update k p' m) = map (\<lambda>(k, p). (k, tp_proxyPort p)) m" for m
    using assms(2) by (induction m) (auto split: if_splits)
  with assms(1) show ?thesis by (simp add: listeners_def)
qed

lemma listening_port_kept: "tp_proxyPort (addBackend host port p) = tp_proxyPort p" "tp_proxyPort (fst (removeBackend host port p)) = tp_proxyPort p"
  by (simp_all add: addBackend_def removeBackend_def Let_def split: option.splits)

interpretation dewy_listeners: updater_view addProxyBackend removeProxyBackend listeners
proof
  fix host p pp and u :: "'w proxies"
  show "listeners (fst (addProxyBackend host p pp u)) = listeners u"
    by (auto simp: addProxyBackend_def listeners_update listening_port_kept split: option.splits)
  show "listeners (fst (removeProxyBackend host p pp u)) = listeners u"
    using listening_port_kept(2) [of host p]
    by (auto simp: removeProxyBackend_def split: option.splits prod.splits bool.splits intro!: listeners_update) (metis fst_conv)
qed

lemma deployContainer_listeners:
  "listeners (snd (fst (deployContainer h httpGet cfg app tag url s))) = listeners (snd s)"
proof (cases "cfg = None \<or> fst s = None")
  case True
  then show ?thesis by (auto simp: deployContainer_def split: option.splits)
next
  case False
  then obtain cc r where c: "cfg = Some cc" "fst s = Some r" by auto
  obtain r1 m where m: "ResolvePortMappings h (trimPrefix url ''img://'') (cc_PortMappings cc) r = (r1, m)" by (rule prod.exhaust)
  show ?thesis
  proof (cases m)
    case (Inl e)
    then show ?thesis using c m by (simp add: deployContainer_def)
  next
    case (Inr ms)
    let ?opts = "\<lparr>do_ImageRef = trimPrefix url ''img://'', do_AppName = app, do_Version = tag, do_Replicas = cc_Replicas cc,
      do_PortMappings = ms, do_Command = cc_Command cc, do_ExtraArgs = cc_ExtraArgs cc,
      do_HealthCheck = createHealthCheckFunc h httpGet (cc_HealthPath cc) ms\<rparr>"
    obtain r2 d2 res where d: "Deploy h ?opts (Some proxyBackendUpdater) (r1, snd s) = ((r2, d2), res)" by (metis surj_pair)
    with dewy_listeners.Deploy_view [of h ?opts "(r1, snd s)"] have "listeners d2 = listeners (snd s)" by (simp add: proxyBackendUpdater_def)
    with c m Inr d show ?thesis by (cases res) (simp_all add: deployContainer_def Let_def)
  qed
qed

lemma stop_all_listeners: "px_log (fst (stop_all nw m d)) = px_log d @ map (\<lambda>(k, p). Closed (tp_proxyPort p)) m"
  by (induction nw m d rule: stop_all.induct) (auto simp: stop_one_def split: prod.splits option.splits)

lemma stopProxy_closes:
  "tcpProxies (fst (stopProxy nw d)) = [] \<and>
   px_log (fst (stopProxy nw d)) = px_log d @ map (Closed \<circ> snd) (fst (listeners d))"
  using stop_all_listeners [of nw "tcpProxies d" d]
  by (auto simp: stopProxy_def listeners_def tcpProxies_def split_beta comp_def split: option.splits)

section \<open>Commands that stop nothing\<close>

definition quietly :: "'w Runtime \<Rightarrow> 'w Runtime \<Rightarrow> bool" where
  "quietly r r' = (\<exists>es. rt_log r' = rt_log r @ es \<and> targets es = [])"

lemma quietly_refl [simp]: "quietly r r" by (simp add: quietly_def)

lemma quietly_trans [trans]: "quietly a b \<Longrightarrow> quietly b c \<Longrightarrow> quietly a c"
  by (auto simp: quietly_def)

lemma quietly_update [simp]:
  "quietly (r\<lparr>rt_world := w\<rparr>) r' = quietly r r'" "quietly r (r'\<lparr>rt_world := w\<rparr>) = quietly r r'"
  "quietly (r\<lparr>rt_loggedInRegistries := l\<rparr>) r' = quietly r r'" "quietly r (r'\<lparr>rt_loggedInRegistries := l\<rparr>) = quietly r r'"
  by (simp_all add: quietly_def)

lemma quietly_combined:
  "execCombined h args stdin r = (r', x) \<Longrightarrow> hd args \<notin> {''stop'', ''rm''} \<Longrightarrow> quietly r r'"
  by (cases x) (auto simp: quietly_def dest!: execCombined_log)

lemma quietly_Login: "Login h reg r = (r', e) \<Longrightarrow> quietly r r'"
  by (auto simp: Login_def dest!: quietly_combined split: prod.splits if_splits option.splits)

lemma quietly_pullImage: "pullImage h ref r = (r', x) \<Longrightarrow> quietly r r'"
  by (auto simp: pullImage_def dest!: quietly_combined split: prod.splits option.splits)

lemma quietly_Pull: "quietly r (fst (Pull h ref r))"
proof -
  let ?reg = "extractRegistry ref"
  obtain r1 o1 e1 where 1: "execCombined h [''image'', ''inspect'', ref] [] r = (r1, o1, e1)" by (metis prod_cases3)
  let ?r2 = "loginIfNeeded h ?reg r1"
  obtain r3 o3 e3 where 3: "pullImage h ref ?r2 = (r3, o3, e3)" by (metis prod_cases3)
  have "quietly r r1" using quietly_combined [OF 1] by simp
  also have "quietly r1 ?r2"
    using quietly_Login [OF surjective_pairing, of r1 h ?reg] by (simp add: loginIfNeeded_def)
  also have "quietly ?r2 r3" by (rule quietly_pullImage [OF 3])
  finally have q: "quietly r r3" .
  have rq: "quietly r3 x" if "retryPull h ?reg ref e r3 = (x, y)" for e x y
    using that by (auto simp: retryPull_def dest!: quietly_Login quietly_pullImage intro: quietly_trans split: prod.splits option.splits)
  show ?thesis
  proof (cases "e3 \<noteq> None \<and> isAuthError o3")
    case True
    then obtain e x y where e: "e3 = Some e" "retryPull h ?reg ref e r3 = (x, y)" by fastforce
    with 1 3 True have "fst (Pull h ref r) = x" by (simp add: Pull_def Let_def)
    with quietly_trans [OF q rq [OF e(2)]] show ?thesis by simp
  next
    case False
    with 1 3 have "fst (Pull h ref r) = r3" by (auto simp: Pull_def Let_def split: option.splits)
    with q show ?thesis by simp
  qed
qed

lemma quietly_GetRunning: "GetRunningContainerWithImage h ref app r = (r', x) \<Longrightarrow> quietly r r'"
  by (auto simp: GetRunningContainerWithImage_def quietly_def dest!: execCommandOutput_log split: prod.splits sum.splits)

section \<open>What the phases of a container tick change\<close>

fun is_prepared :: "life_event \<Rightarrow> bool" where
  "is_prepared (EvHook c) = True" | "is_prepared (EvPulled u) = True" | "is_prepared _ = False"

text \<open>From n to n' the service is as it was: its proxies, its version, and a log of hooks and pulls.\<close>

definition calm :: "('w, 'p) Node \<Rightarrow> ('w, 'p) Node \<Rightarrow> bool" where
  "calm n n' = (nd_proxies n' = nd_proxies n \<and> adds is_prepared (nd_dewy n) (nd_dewy n') \<and> dw_cVer (nd_dewy n') = dw_cVer (nd_dewy n))"

text \<open>The runtime of this tick, whose log has stopped nothing so far.\<close>

definition fresh_runtime :: "('w, 'p) Node \<Rightarrow> bool" where
  "fresh_runtime n = (\<exists>rt. nd_containerRuntime n = Some rt \<and> targets (rt_log rt) = [])"

lemma calm_refl [simp]: "calm n n" by (simp add: calm_def)

lemma calm_trans [trans]: "calm a b \<Longrightarrow> calm b c \<Longrightarrow> calm a c"
  by (auto simp: calm_def intro: adds_trans)

lemma calm_runtime [simp]: "calm n (set_runtime rt n')  = calm n n'"
  by (simp add: calm_def set_runtime_def)

lemma calm_prepared: "is_prepared e \<Longrightarrow> calm n n' \<Longrightarrow> calm n (on_dewy (\<lambda>d. tell f (record_event e d)) n')"
  by (auto simp: calm_def on_dewy_def intro: adds_record) (simp add: tell_def record_event_def)

lemma call_cVer: "call f d = (d', x) \<Longrightarrow> dw_cVer d' = dw_cVer d"
  by (auto simp: call_def split: prod.splits)

lemma calm_call: "call f (nd_dewy n) = (d, x) \<Longrightarrow> calm n (n\<lparr>nd_dewy := d\<rparr>)"
  by (simp add: calm_def adds_call_eq call_cVer)

lemma runHook_cVer: "dw_cVer (runHook dp name cmd d) = dw_cVer d"
  by (auto simp: runHook_def execHook_def tell_def record_event_def dest: call_cVer split: prod.splits sum.splits option.splits if_splits)

lemma calm_runHook: "calm n (on_dewy (\<lambda>d. runHook dp name (cmd d) d) n)"
proof -
  have "is_prepared e" if "is_hook e" for e using that by (cases e) auto
  then have "adds is_prepared (nd_dewy n) (runHook dp name (cmd (nd_dewy n)) (nd_dewy n))" by (rule adds_mono [OF adds_runHook])
  then show ?thesis by (simp add: calm_def on_dewy_def runHook_cVer)
qed

lemma calm_recordDeployment: "calm n n' \<Longrightarrow> calm n (on_dewy (recordDeployment b) n')"
  by (simp add: calm_def on_dewy_def) (simp add: recordDeployment_def)

lemma resolveContainerCurrent_calm: "resolveContainerCurrent dp (nd_dewy n) = (d, r) \<Longrightarrow> calm n (n\<lparr>nd_dewy := d\<rparr>)"
  by (auto simp: resolveContainerCurrent_def calm_call split: prod.splits sum.splits if_splits)

lemma New_log: "New h w cmd t = Inr rt \<Longrightarrow> rt_log rt = []"
  by (auto simp: New_def newCLIRuntime_def split: if_splits option.splits)

lemma resolveContainerState_calm:
  assumes "resolveContainerState ne res n = (n', r)"
  shows "calm n n' \<and> (case r of Inl _ \<Rightarrow> n' = n | Inr _ \<Rightarrow> fresh_runtime n')"
proof (cases "cg_Container (dw_config (nd_dewy n))")
  case None
  with assms show ?thesis by (auto simp: resolveContainerState_def)
next
  case (Some cc)
  show ?thesis
  proof (cases "New (ne_host ne) (dw_world (nd_dewy n)) (cc_Runtime cc) (cc_DrainTime cc)")
    case (Inl e)
    with assms Some show ?thesis by (auto simp: resolveContainerState_def)
  next
    case (Inr rt)
    obtain rt' x where g: "GetRunningContainerWithImage (ne_host ne) (trimPrefix (cr_ArtifactURL res) ''img://'') (appName (dw_config (nd_dewy n))) rt = (rt', x)"
      by (rule prod.exhaust)
    from quietly_GetRunning [OF g] New_log [OF Inr] have "targets (rt_log rt') = []" by (auto simp: quietly_def)
    moreover have "n' = set_runtime rt' n \<and> (\<exists>st. r = Inr st)" using assms Some Inr g by (auto simp: resolveContainerState_def Let_def)
    ultimately show ?thesis by (auto simp: fresh_runtime_def set_runtime_def calm_def)
  qed
qed

lemma OCI_Download_quiet: "OCI_Download h wr ref (rt, b) = ((rt', b'), e) \<Longrightarrow> quietly rt rt'"
  using quietly_Pull [of rt h ref] by (auto simp: OCI_Download_def split: prod.splits option.splits)

lemma fresh_on_dewy [simp]: "fresh_runtime (on_dewy f n) = fresh_runtime n" "fresh_runtime (n\<lparr>nd_dewy := d\<rparr>) = fresh_runtime n"
  by (simp_all add: fresh_runtime_def on_dewy_def)

lemma pullContainerImage_calm:
  assumes "pullContainerImage ne res n = (n', e)" "fresh_runtime n"
  shows "calm n n' \<and> fresh_runtime n'"
proof (cases "artifact_factories (hd (splitN2 (cr_ArtifactURL res) ''://'')) = Some ArtifactOCI")
  case True
  obtain rt where rt: "nd_containerRuntime n = Some rt" "targets (rt_log rt) = []" using assms(2) by (auto simp: fresh_runtime_def)
  let ?rt = "rt\<lparr>rt_world := dw_world (nd_dewy n)\<rparr>"
  have g: "get_runtime n = Some ?rt" using rt by (simp add: get_runtime_def)
  show ?thesis
  proof (cases "artifact_NewOCI (ne_urlParse ne) (cr_ArtifactURL res)")
    case (Inl err)
    with assms True show ?thesis by (auto simp: pullContainerImage_def Let_def)
  next
    case (Inr ref)
    obtain rt' b x where o1: "OCI_Download (ne_host ne) (\<lambda>c b. (b @ c, None)) ref (?rt, []) = ((rt', b), x)" by (metis surj_pair)
    from OCI_Download_quiet [OF o1] rt(2) have q: "targets (rt_log rt') = []" by (auto simp: quietly_def)
    let ?p = "on_dewy (\<lambda>d. tell (Send (''Pulled image for '' @ backtick (cr_Tag res))) (record_event (EvPulled (cr_ArtifactURL res)) d))"
    have "n' = (case x of Some _ \<Rightarrow> set_runtime rt' n | None \<Rightarrow> ?p (set_runtime rt' n))"
      using assms True Inr g o1 by (auto simp: pullContainerImage_def Let_def split: option.splits)
    moreover have "calm n (?p (set_runtime rt' n))" by (rule calm_prepared) simp_all
    moreover have "fresh_runtime (set_runtime rt' n)" using q by (simp add: fresh_runtime_def set_runtime_def)
    ultimately show ?thesis by (cases x) auto
  qed
next
  case False
  let ?p = "on_dewy (\<lambda>d. tell (Send (''Pulled image for '' @ backtick (cr_Tag res))) (record_event (EvPulled (cr_ArtifactURL res)) d))"
  obtain d chunks x where d: "call (dp_Download (ne_deps ne) (cr_ArtifactURL res)) (nd_dewy n) = (d, chunks, x)" by (metis surj_pair)
  have c: "calm n (n\<lparr>nd_dewy := d\<rparr>)" by (rule calm_call [OF d])
  then have "calm n (?p (n\<lparr>nd_dewy := d\<rparr>))" by (intro calm_prepared) simp_all
  with c assms False d show ?thesis
    by (cases "dp_NewArtifact (ne_deps ne) (cr_ArtifactURL res)"; cases x) (auto simp: pullContainerImage_def Let_def)
qed

text \<open>A tick that fails: the backends, the version and the record of deployments stay, only new containers are stopped.\<close>

definition harmless_failure :: "('w, 'p) Node \<Rightarrow> ('w, 'p) Node \<Rightarrow> bool" where
  "harmless_failure n n' = (proxy_backends (nd_proxies n') = proxy_backends (nd_proxies n) \<and>
     dw_cVer (nd_dewy n') = dw_cVer (nd_dewy n) \<and>
     (\<exists>evs. dw_log (nd_dewy n') = dw_log (nd_dewy n) @ evs \<and> list_all is_prepared evs) \<and>
     (nd_containerRuntime n' = nd_containerRuntime n \<or>
      (\<exists>rt. nd_containerRuntime n' = Some rt \<and> set (targets (rt_log rt)) \<subseteq> set (starts (rt_log rt)))))"

lemma calm_harmless: "calm n n' \<Longrightarrow> fresh_runtime n' \<or> nd_containerRuntime n' = nd_containerRuntime n \<Longrightarrow> harmless_failure n n'"
  by (auto simp: calm_def harmless_failure_def fresh_runtime_def adds_def)

lemma calm_config: "calm n n' \<Longrightarrow> dw_config (nd_dewy n') = dw_config (nd_dewy n) \<and> nd_proxies n' = nd_proxies n"
  by (simp add: calm_def adds_def)

lemma deployNode_failed:
  assumes "fair_ranges (ne_host ne)" "cg_Container (dw_config (nd_dewy n)) = Some cc"
    "ProxyPort ` set (cc_PortMappings cc) \<subseteq> proxy_ports (nd_proxies n)" "fresh_runtime n" "deployNode ne res n = (n', Inl e)"
  shows "harmless_failure n n'"
proof -
  obtain rt where rt: "nd_containerRuntime n = Some rt" "targets (rt_log rt) = []" using assms(4) by (auto simp: fresh_runtime_def)
  let ?rt = "rt\<lparr>rt_world := dw_world (nd_dewy n)\<rparr>"
  obtain rt' px r where d: "deployContainer (ne_host ne) (ne_httpGet ne) (Some cc) (appName (dw_config (nd_dewy n))) (cr_Tag res) (cr_ArtifactURL res)
      (Some ?rt, nd_proxies n) = ((rt', px), r)" by (metis surj_pair)
  have n': "n' = (case rt' of Some rt \<Rightarrow> set_runtime rt n | None \<Rightarrow> n)\<lparr>nd_proxies := px\<rparr>" "r = Inl e"
    using assms(2,5) rt d by (auto simp: deployNode_def get_runtime_def)
  from deployContainer_failed [OF assms(1,3) d [unfolded n'(2)]] obtain r' es
    where r': "proxy_backends px = proxy_backends (nd_proxies n)" "rt' = Some r'" "rt_log r' = rt_log rt @ es" "set (targets es) \<subseteq> set (starts es)"
    by auto
  with n' rt show ?thesis by (auto simp: harmless_failure_def set_runtime_def)
qed

lemma harmless_after_calm: "calm a b \<Longrightarrow> fresh_runtime b \<Longrightarrow> harmless_failure b c \<Longrightarrow> harmless_failure a c"
  by (auto simp: calm_def harmless_failure_def adds_def fresh_runtime_def)

lemma harmless_recordDeployment: "harmless_failure n n' \<Longrightarrow> harmless_failure n (on_dewy (recordDeployment b) n')"
  by (simp add: harmless_failure_def on_dewy_def recordDeployment_def)

lemma applyContainerDeployment_failed:
  assumes "fair_ranges (ne_host ne)" "cg_Container (dw_config (nd_dewy n)) = Some cc"
    "ProxyPort ` set (cc_PortMappings cc) \<subseteq> proxy_ports (nd_proxies n)" "fresh_runtime n" "applyContainerDeployment ne res n = (n', Inl e)"
  shows "harmless_failure n n'"
proof -
  let ?n = "on_dewy (\<lambda>d. runHook (ne_deps ne) ''Before Deploy'' (cg_BeforeDeployHook (dw_config d)) d) n"
  have c: "calm n ?n" by (rule calm_runHook)
  have f: "fresh_runtime ?n" using assms(4) by simp
  from assms(5) obtain n2 where d: "deployNode ne res ?n = (n2, Inl e)" "n' = on_dewy (recordDeployment True) n2"
    by (auto simp: applyContainerDeployment_def Let_def split: prod.splits)
  have "harmless_failure ?n n2" using deployNode_failed [OF assms(1) _ _ f d(1)] assms(2,3) calm_config [OF c] by simp
  then have "harmless_failure ?n n'" using d(2) harmless_recordDeployment by blast
  with c f show ?thesis by (rule harmless_after_calm)
qed

lemma RunContainer_failed:
  assumes "fair_ranges (ne_host ne)" "cg_Container (dw_config (nd_dewy n)) = Some cc"
    "ProxyPort ` set (cc_PortMappings cc) \<subseteq> proxy_ports (nd_proxies n)" "RunContainer ne n = (n', Some e)"
  shows "harmless_failure n n'"
proof -
  obtain d r where c: "resolveContainerCurrent (ne_deps ne) (nd_dewy n) = (d, r)" by (rule prod.exhaust)
  let ?n1 = "n\<lparr>nd_dewy := d\<rparr>"
  have c1: "calm n ?n1" by (rule resolveContainerCurrent_calm [OF c])
  show ?thesis
  proof (cases "\<exists>res. r = Inr (Some res)")
    case False
    with assms(4) c have "n' = ?n1" by (auto simp: RunContainer_def split: sum.splits option.splits)
    with c1 calm_harmless show ?thesis by fastforce
  next
    case True
    then obtain res where r: "r = Inr (Some res)" by blast
    obtain n2 x where s: "resolveContainerState ne res ?n1 = (n2, x)" by (rule prod.exhaust)
    note c2 = resolveContainerState_calm [OF s]
    show ?thesis
    proof (cases x)
      case (Inl err)
      with assms(4) c r s c2 have "n' = ?n1" by (auto simp: RunContainer_def)
      with c1 calm_harmless show ?thesis by fastforce
    next
      case (Inr st)
      with assms(4) c r s have ns: "\<not> ct_skip st" by (auto simp: RunContainer_def)
      obtain n3 pe where p: "pullContainerImage ne res n2 = (n3, pe)" by (rule prod.exhaust)
      have f2: "fresh_runtime n2" and c12: "calm n n2" using c2 Inr calm_trans [OF c1] by auto
      note c3 = pullContainerImage_calm [OF p f2]
      have c13: "calm n n3" using calm_trans [OF c12] c3 by blast
      show ?thesis
      proof (cases pe)
        case (Some err)
        with assms(4) c r s Inr ns p have "n' = n3" by (simp add: RunContainer_def)
        with c13 c3 show ?thesis by (simp add: calm_harmless)
      next
        case None
        obtain n4 a where a: "applyContainerDeployment ne res n3 = (n4, a)" by (rule prod.exhaust)
        with assms(4) c r s Inr ns p None have "a = Inl e" "n' = n4" by (auto simp: RunContainer_def split: sum.splits)
        with applyContainerDeployment_failed [OF assms(1) _ _ conjunct2 [OF c3]] a assms(2,3) calm_config [OF c13] have "harmless_failure n3 n'" by simp
        with c13 c3 show ?thesis by (blast intro: harmless_after_calm)
      qed
    qed
  qed
qed

section \<open>Ticks keep the configuration and the listeners\<close>

definition same_setup :: "('w, 'p) Node \<Rightarrow> ('w, 'p) Node \<Rightarrow> bool" where
  "same_setup n n' = (dw_config (nd_dewy n') = dw_config (nd_dewy n) \<and> listeners (nd_proxies n') = listeners (nd_proxies n))"

lemma same_setup_refl [simp]: "same_setup n n" by (simp add: same_setup_def)

lemma same_setup_trans [trans]: "same_setup a b \<Longrightarrow> same_setup b c \<Longrightarrow> same_setup a c" by (simp add: same_setup_def)

lemma calm_setup: "calm a b \<Longrightarrow> same_setup a b" by (simp add: calm_def adds_def same_setup_def)

lemma same_setup_simps [simp]:
  "same_setup a (on_dewy (tell f) n) = same_setup a n" "same_setup a (set_runtime rt n) = same_setup a n"
  "same_setup a (on_dewy (recordDeployment b) n) = same_setup a n"
  by (simp_all add: same_setup_def on_dewy_def tell_def set_runtime_def recordDeployment_def)

lemma same_setup_dewy: "adds P (nd_dewy n) d \<Longrightarrow> same_setup n (n\<lparr>nd_dewy := d\<rparr>)"
  by (simp add: same_setup_def adds_def)

lemma deployNode_setup:
  assumes "deployNode ne res n = (n', r)"
  shows "same_setup n n'"
proof -
  let ?dep = "deployContainer (ne_host ne) (ne_httpGet ne) (cg_Container (dw_config (nd_dewy n))) (appName (dw_config (nd_dewy n)))
      (cr_Tag res) (cr_ArtifactURL res) (get_runtime n, nd_proxies n)"
  obtain rt px where d: "?dep = ((rt, px), r)" and n': "n' = (case rt of Some rt \<Rightarrow> set_runtime rt n | None \<Rightarrow> n)\<lparr>nd_proxies := px\<rparr>"
    using assms by (auto simp: deployNode_def split: prod.splits)
  from d have "px = snd (fst ?dep)" by simp
  then have "listeners px = listeners (nd_proxies n)" using deployContainer_listeners by (metis snd_conv)
  with n' show ?thesis by (cases rt) (simp_all add: same_setup_def set_runtime_def)
qed

lemma applyContainerDeployment_setup:
  assumes "applyContainerDeployment ne res n = (n', r)"
  shows "same_setup n n'"
proof -
  let ?n = "on_dewy (\<lambda>d. runHook (ne_deps ne) ''Before Deploy'' (cg_BeforeDeployHook (dw_config d)) d) n"
  obtain n2 where "deployNode ne res ?n = (n2, r)" "n' = on_dewy (recordDeployment (isl r)) n2"
    using assms by (auto simp: applyContainerDeployment_def Let_def split: prod.splits)
  with deployNode_setup [of ne res ?n] same_setup_trans [OF calm_setup [OF calm_runHook]] show ?thesis by fastforce
qed

lemma hook_report_config: "dw_config (runHook dp name cmd d) = dw_config d" "dw_config (reportDeployment dp res d) = dw_config d"
  using adds_runHook [of d dp name cmd] reportDeployment_adds [of d dp res] by (simp_all add: adds_def)

lemma promoteContainerAndReport_setup: "same_setup n (promoteContainerAndReport ne res k ref n)"
proof -
  have "same_setup m (fst (cleanupOldImages ne ref m))" for m :: "('a, 'b) Node"
    by (auto simp: cleanupOldImages_def split: option.splits prod.splits)
  then show ?thesis unfolding promoteContainerAndReport_def
    by (rule same_setup_trans [rotated]) (simp add: same_setup_def on_dewy_def Let_def hook_report_config tell_def record_event_def)
qed

lemma RunContainer_setup:
  assumes "RunContainer ne n = (n', err)"
  shows "same_setup n n'"
proof -
  obtain d r where c: "resolveContainerCurrent (ne_deps ne) (nd_dewy n) = (d, r)" by (rule prod.exhaust)
  let ?n1 = "n\<lparr>nd_dewy := d\<rparr>"
  have c1: "same_setup n ?n1" by (rule calm_setup [OF resolveContainerCurrent_calm [OF c]])
  show ?thesis
  proof (cases "\<exists>res. r = Inr (Some res)")
    case False
    with assms c have "n' = ?n1" by (auto simp: RunContainer_def split: sum.splits option.splits)
    with c1 show ?thesis by simp
  next
    case True
    then obtain res where r: "r = Inr (Some res)" by blast
    obtain n2 x where s: "resolveContainerState ne res ?n1 = (n2, x)" by (rule prod.exhaust)
    note c2 = resolveContainerState_calm [OF s]
    have c12: "same_setup n n2" using same_setup_trans [OF c1] calm_setup c2 by blast
    show ?thesis
    proof (cases "\<exists>st. x = Inr st \<and> \<not> ct_skip st")
      case False
      with assms c r s have "n' = n2" by (auto simp: RunContainer_def split: sum.splits if_splits)
      with c12 show ?thesis by simp
    next
      case True
      then obtain st where st: "x = Inr st" "\<not> ct_skip st" by blast
      obtain n3 pe where p: "pullContainerImage ne res n2 = (n3, pe)" by (rule prod.exhaust)
      obtain n4 a where a: "applyContainerDeployment ne res n3 = (n4, a)" by (rule prod.exhaust)
      have "same_setup n2 n3" using pullContainerImage_calm [OF p] c2 st by (simp add: calm_setup)
      with c12 have 3: "same_setup n n3" by (rule same_setup_trans)
      with applyContainerDeployment_setup [OF a] have 4: "same_setup n n4" using same_setup_trans by blast
      have "n' = n3 \<or> n' = n4 \<or> (\<exists>k. n' = promoteContainerAndReport ne res k (ct_imageRef st) n4)"
        using assms c r s st p a by (auto simp: RunContainer_def split: option.splits sum.splits)
      with 3 4 show ?thesis using same_setup_trans [OF 4 promoteContainerAndReport_setup] by blast
    qed
  qed
qed

lemma dewy_Run_config: "dewy_Run dp d = (d', err) \<Longrightarrow> dw_config d' = dw_config d"
  using dewy_Run_adds [of dp d d' err] by (auto simp: adds_def switched_def)

lemma runTick_setup: "same_setup n (runTick ne n)"
proof (cases "cg_Command (dw_config (nd_dewy n)) = CONTAINER")
  case True
  obtain n' e where r: "RunContainer ne n = (n', e)" by (rule prod.exhaust)
  with True RunContainer_setup [OF r] show ?thesis by (cases e) (simp_all add: runTick_def)
next
  case False
  obtain d e where r: "dewy_Run (ne_deps ne) (nd_dewy n) = (d, e)" by (rule prod.exhaust)
  then have "same_setup n (n\<lparr>nd_dewy := d\<rparr>)" using dewy_Run_config [OF r] by (simp add: same_setup_def)
  with False r show ?thesis by (cases e) (simp_all add: runTick_def)
qed

lemma handleSignal_alive: "handleSignal ne sig n = (n', True) \<Longrightarrow> same_setup n n'"
proof (cases sig)
  case SIGUSR1
  have "dw_config (restartBySignal ne d) = dw_config d" for d
    by (auto simp: restartBySignal_def restartServer_def call_def tell_def recordServerRestart_def record_event_def split: prod.splits option.splits)
  moreover assume "handleSignal ne sig n = (n', True)"
  ultimately show ?thesis using SIGUSR1 by (auto simp: same_setup_def on_dewy_def)
qed (auto simp: Let_def)

lemma live_setup: "live ne occs n = (n', True) \<Longrightarrow> same_setup n n'"
proof (induction ne occs n rule: live.induct)
  case (2 ne occs n)
  then show ?case using same_setup_trans [OF runTick_setup] by simp
next
  case (3 ne sig occs n)
  obtain n1 b where h: "handleSignal ne sig n = (n1, b)" by (rule prod.exhaust)
  with 3 have "b" "live ne occs n1 = (n', True)" by (auto split: bool.splits)
  with 3(1) h handleSignal_alive [of ne sig n n1] show ?case using same_setup_trans by fastforce
qed simp

lemma require_True: "require service s = (n', True) \<longleftrightarrow> (\<exists>n. s = (n, True) \<and> service n = (n', None))"
  by (auto simp: require_def split: prod.splits bool.splits option.splits)

lemma startAdminAPI_setup: "startAdminAPI ne n = (n', e) \<Longrightarrow> same_setup n n'"
  by (auto simp: startAdminAPI_def same_setup_def call_def split: prod.splits sum.splits)

lemma keyed_listeners: "\<forall>(k, p)\<in>set m. tp_proxyPort p = k \<Longrightarrow> map (\<lambda>(k, p). (k, tp_proxyPort p)) m = map (\<lambda>k. (k, k)) (map fst m)"
  by (induction m) auto

definition started_listeners :: "goint list \<Rightarrow> 'w proxies \<Rightarrow> (goint \<times> goint) list \<times> net_event list" where
  "started_listeners ports d = (map (\<lambda>k. (k, k)) ports, px_log d @ map Listened ports)"

lemma startNodeProxy_listeners:
  assumes "startNodeProxy ne n = (n', None)" "cg_Container (dw_config (nd_dewy n)) = Some cc" "distinct (map ProxyPort (cc_PortMappings cc))"
  shows "dw_config (nd_dewy n') = dw_config (nd_dewy n) \<and>
    listeners (nd_proxies n') = started_listeners (map ProxyPort (cc_PortMappings cc)) (nd_proxies n)"
proof -
  let ?ports = "map ProxyPort (cc_PortMappings cc)" and ?m = "dw_metrics (nd_dewy n) \<noteq> None"
  obtain px where px: "startProxy (ne_net ne) (cc_ProxyIdleTimeout cc) ?m ?ports (nd_proxies n) = (px, None)" "n' = n\<lparr>nd_proxies := px\<rparr>"
    using assms(1,2) by (auto simp: startNodeProxy_def simp del: not_None_eq split: prod.splits)
  let ?d = "(nd_proxies n)\<lparr>px_map := Some []\<rparr>"
  have "start_all (ne_net ne) (cc_ProxyIdleTimeout cc) ?m ?ports ?d = (px, None)"
    using px(1) by (auto simp: startProxy_def simp del: not_None_eq split: if_splits)
  moreover have "idle_proxies [] ?d" by (simp add: idle_proxies_def)
  ultimately have "idle_proxies ?ports px" "px_log px = px_log (nd_proxies n) @ map Listened ?ports"
    using start_all_spec [of "[]" ?ports ?d "px_log (nd_proxies n)"] assms(3) by fastforce+
  moreover from this(1) have "map (\<lambda>(k, p). (k, tp_proxyPort p)) (tcpProxies px) = map (\<lambda>k. (k, k)) (map fst (tcpProxies px))"
    by (intro keyed_listeners) (auto simp: idle_proxies_def)
  ultimately have "listeners px = started_listeners ?ports (nd_proxies n)"
    unfolding listeners_def started_listeners_def idle_proxies_def by presburger
  with px(2) show ?thesis by simp
qed

lemma announceStart_setup: "same_setup n (on_dewy (announceStart dp) n)"
  by (simp add: same_setup_def announceStart_def on_dewy_def tell_def)

lemma Start_container:
  assumes "Start ne n = (n', True)" "cg_Command (dw_config (nd_dewy n)) = CONTAINER" "cg_Container (dw_config (nd_dewy n)) = Some cc"
    "distinct (map ProxyPort (cc_PortMappings cc))"
  shows "dw_config (nd_dewy n') = dw_config (nd_dewy n) \<and>
    listeners (nd_proxies n') = started_listeners (map ProxyPort (cc_PortMappings cc)) (nd_proxies n)"
proof -
  have c: "cg_Command (dw_config (nd_dewy (on_dewy (announceStart (ne_deps ne)) n))) = CONTAINER"
    using announceStart_setup [of n "ne_deps ne"] assms(2) by (simp add: same_setup_def)
  obtain n1 n2 where n: "same_setup n n1" "nd_proxies n1 = nd_proxies n" "startNodeProxy ne n1 = (n2, None)" "startAdminAPI ne n2 = (n', None)"
  proof -
    obtain n2 where "startNodeProxy ne (on_dewy (announceStart (ne_deps ne)) n) = (n2, None)" "startAdminAPI ne n2 = (n', None)"
      using assms(1) c by (auto simp: Start_def Let_def require_True)
    with that [OF announceStart_setup] show thesis by (simp add: on_dewy_def)
  qed
  with startNodeProxy_listeners [OF n(3)] startAdminAPI_setup [OF n(4)] assms(3,4) show ?thesis by (simp add: same_setup_def)
qed

section \<open>Failed ticks\<close>

text \<open>
  At any time of the life of an instance that runs containers, a failed tick leaves the service as
  it was. The proxies it starts with are those of its configuration, and they stay.
\<close>

lemma RunContainer_failure_safe:
  assumes "fair_ranges (ne_host ne)" and "cg_Command (dw_config (nd_dewy n0)) = CONTAINER"
    and "cg_Container (dw_config (nd_dewy n0)) = Some cc" and "distinct (map ProxyPort (cc_PortMappings cc))"
    and "Start ne n0 = (n1, True)" and "live ne occs n1 = (n, True)" and "RunContainer ne n = (n', Some e)"
  shows "proxy_ports (nd_proxies n) = ProxyPort ` set (cc_PortMappings cc) \<and> proxy_backends (nd_proxies n') = proxy_backends (nd_proxies n) \<and> dw_cVer (nd_dewy n') = dw_cVer (nd_dewy n) \<and>
    (\<exists>evs. dw_log (nd_dewy n') = dw_log (nd_dewy n) @ evs \<and> list_all is_prepared evs) \<and>
    (nd_containerRuntime n' = nd_containerRuntime n \<or>
      (\<exists>rt. nd_containerRuntime n' = Some rt \<and> set (targets (rt_log rt)) \<subseteq> set (starts (rt_log rt))))"
proof -
  note s = Start_container [OF assms(5,2,3,4)] live_setup [OF assms(6)]
  then have c: "cg_Container (dw_config (nd_dewy n)) = Some cc" and p: "proxy_ports (nd_proxies n) = ProxyPort ` set (cc_PortMappings cc)"
    using assms(3) by (simp_all add: same_setup_def listeners_ports started_listeners_def image_image)
  from RunContainer_failed [OF assms(1) c _ assms(7)] p show ?thesis by (simp add: harmless_failure_def)
qed

section \<open>Shutdown of the containers\<close>

text \<open>The containers that stop commands name.\<close>

fun stopped :: "event \<Rightarrow> string option" where
  "stopped (Exec args res) = (if args \<noteq> [] \<and> hd args = ''stop'' then Some (last args) else None)"
| "stopped _ = None"

definition stops :: "event list \<Rightarrow> string list" where "stops es = List.map_filter stopped es"

lemma stops_simps [simp]:
  "stops [] = []" "stops (e # es) = (case stopped e of None \<Rightarrow> [] | Some c \<Rightarrow> [c]) @ stops es"
  "stops (xs @ ys) = stops xs @ stops ys"
  by (simp_all add: stops_def List.map_filter_def split: option.splits)


lemma Stop_event: "Stop h c t r = (r', e) \<Longrightarrow> \<exists>es. rt_log r' = rt_log r @ es \<and> stops es = [c] \<and> starts es = [] \<and> targets es = [c]"
proof -
  assume "Stop h c t r = (r', e)"
  then obtain res where "rt_log r' = rt_log r @ [Exec [''stop'', ''--time='' @ itoa t, c] res]"
    by (auto simp: Stop_def dest!: execCommand_log)
  then show ?thesis by (cases res) auto
qed

lemma Remove_event: "Remove h c r = (r', e) \<Longrightarrow> \<exists>es. rt_log r' = rt_log r @ es \<and> stops es = [] \<and> starts es = [] \<and> targets es = [c]"
proof -
  assume "Remove h c r = (r', e)"
  then obtain res where "rt_log r' = rt_log r @ [Exec [''rm'', c] res]" by (auto simp: Remove_def dest!: execCommand_log)
  then show ?thesis by (cases res) auto
qed

lemma stopAll_log:
  "stopAll h ids a b r = (r', n) \<Longrightarrow> \<exists>es. rt_log r' = rt_log r @ es \<and> stops es = ids \<and> starts es = [] \<and> set (targets es) = set ids"
proof (induction ids arbitrary: a b r)
  case (Cons c ids)
  obtain r1 e1 where s: "Stop h c defaultStopTimeoutOld r = (r1, e1)" by (rule prod.exhaust)
  obtain es1 where es1: "rt_log r1 = rt_log r @ es1" "stops es1 = [c]" "starts es1 = []" "targets es1 = [c]"
    using Stop_event [OF s] by blast
  show ?case
  proof (cases e1)
    case (Some e)
    then obtain es where "rt_log r' = rt_log r1 @ es" "stops es = ids" "starts es = []" "set (targets es) = set ids"
      using Cons.IH [of a b r1] Cons.prems s by auto
    then show ?thesis using es1 by (intro exI [of _ "es1 @ es"]) auto
  next
    case None
    obtain r2 e2 where m: "Remove h c r1 = (r2, e2)" by (rule prod.exhaust)
    obtain es2 where es2: "rt_log r2 = rt_log r1 @ es2" "stops es2 = []" "starts es2 = []" "targets es2 = [c]"
      using Remove_event [OF m] by blast
    obtain k where "stopAll h ids (a + 1) k r2 = (r', n)" using Cons.prems s None m by (cases e2) auto
    then obtain es where "rt_log r' = rt_log r2 @ es" "stops es = ids" "starts es = []" "set (targets es) = set ids"
      using Cons.IH [of "a + 1" k r2] by blast
    then show ?thesis using es1 es2 by (intro exI [of _ "es1 @ es2 @ es"]) auto
  qed
qed simp

text \<open>Every container that is found is told to stop, whatever the answers to the commands before.\<close>

lemma StopManagedContainers_log:
  assumes "StopManagedContainers h app r = (r', res)"
  shows "\<exists>es. rt_log r' = rt_log r @ es \<and> starts es = [] \<and>
    (\<forall>ids. snd (FindContainersByLabel h (managedLabels app) r) = Inr ids \<longrightarrow> stops es = ids \<and> set (targets es) = set ids)"
proof -
  obtain r1 f where f: "FindContainersByLabel h (managedLabels app) r = (r1, f)" by (rule prod.exhaust)
  then obtain args out where l: "rt_log r1 = rt_log r @ [Exec (''ps'' # args) out]"
    by (auto simp: FindContainersByLabel_def findContainerIDs_def dest!: execCommandOutput_log split: prod.splits sum.splits)
  have ps: "starts [Exec (''ps'' # args) out] = []" by (cases out) auto
  show ?thesis
  proof (cases f)
    case (Inl e)
    with assms f l ps show ?thesis by (auto simp: StopManagedContainers_def)
  next
    case (Inr ids)
    obtain n where "stopAll h ids 0 0 r1 = (r', n)" using assms f Inr by (auto simp: StopManagedContainers_def split: prod.splits)
    from stopAll_log [OF this] obtain es where "rt_log r' = rt_log r1 @ es" "stops es = ids" "starts es = []" "set (targets es) = set ids" by blast
    with f Inr l ps show ?thesis by (intro exI [of _ "Exec (''ps'' # args) out # es"]) auto
  qed
qed

lemma stopNodeContainers_log:
  assumes "get_runtime n = Some rt"
  shows "\<exists>rt' es. nd_containerRuntime (stopNodeContainers ne n) = Some rt' \<and> rt_log rt' = rt_log rt @ es \<and> starts es = [] \<and>
    (\<forall>ids. snd (FindContainersByLabel (ne_host ne) (managedLabels (appName (dw_config (nd_dewy n)))) rt) = Inr ids \<longrightarrow>
      stops es = ids \<and> set (targets es) = set ids)"
proof -
  obtain rt' res where s: "StopManagedContainers (ne_host ne) (appName (dw_config (nd_dewy n))) rt = (rt', res)" by (rule prod.exhaust)
  then have "nd_containerRuntime (stopNodeContainers ne n) = Some rt'"
    using assms by (simp add: stopNodeContainers_def stopManagedContainers_def set_runtime_def)
  with StopManagedContainers_log [OF s] show ?thesis by blast
qed

lemma stopNodeContainers_proxies: "nd_proxies (stopNodeContainers ne n) = nd_proxies n"
  by (auto simp: stopNodeContainers_def set_runtime_def split: prod.splits option.splits)

lemma handleSignal_stop:
  assumes "sig \<in> {SIGINT, SIGTERM, SIGQUIT}" "cg_Command (dw_config (nd_dewy n)) = CONTAINER" "handleSignal ne sig n = (n', alive)"
  shows "\<not> alive \<and> nd_proxies n' = fst (stopProxy (ne_net ne) (nd_proxies n)) \<and>
    nd_containerRuntime n' = nd_containerRuntime (stopNodeContainers ne n)"
  using assms by (cases sig) (auto simp: Let_def on_dewy_def stopNodeProxy_def stopNodeContainers_proxies)

lemma live_append: "live ne occs n1 = (n, True) \<Longrightarrow> live ne (occs @ later) n1 = live ne later n"
  by (induction ne occs n1 rule: live.induct) (auto split: prod.splits bool.splits)

lemma shutdown_complete:
  assumes "cg_Command (dw_config (nd_dewy n0)) = CONTAINER" and "cg_Container (dw_config (nd_dewy n0)) = Some cc"
    and "distinct (map ProxyPort (cc_PortMappings cc))" and "Start ne n0 = (n1, True)" and "live ne occs n1 = (n, True)"
    and "sig \<in> {SIGINT, SIGTERM, SIGQUIT}" and "live ne (occs @ Signal sig # later) n1 = (n', alive)"
  shows "\<not> alive \<and> tcpProxies (nd_proxies n') = [] \<and>
    px_log (nd_proxies n') = px_log (nd_proxies n0) @ map (Listened \<circ> ProxyPort) (cc_PortMappings cc) @ map (Closed \<circ> ProxyPort) (cc_PortMappings cc) \<and>
    nd_containerRuntime n' = nd_containerRuntime (stopNodeContainers ne n)"
proof -
  note s = Start_container [OF assms(4,1,2,3)] live_setup [OF assms(5)]
  then have c: "cg_Command (dw_config (nd_dewy n)) = CONTAINER"
    and l: "listeners (nd_proxies n) = started_listeners (map ProxyPort (cc_PortMappings cc)) (nd_proxies n0)"
    using assms(1) by (simp_all add: same_setup_def)
  obtain n2 b where h: "handleSignal ne sig n = (n2, b)" by (rule prod.exhaust)
  note hs = handleSignal_stop [OF assms(6) c h]
  with h assms(7) live_append [OF assms(5)] have n': "n' = n2" "\<not> alive" by simp_all
  have "snd (listeners (nd_proxies n)) = px_log (nd_proxies n)" by (simp add: listeners_def)
  with l stopProxy_closes [of "ne_net ne" "nd_proxies n"] hs n' show ?thesis by (simp add: started_listeners_def comp_def)
qed

end
