(* ===== verification/Lifecycle_Deploys.thy ===== *)
theory Lifecycle_Deploys
  imports Lifecycle_Props
begin

text \<open>
  What a successful tick of the commands server and assets does, event by event, and that a tick
  with working services is successful.
\<close>

section \<open>The exact log of a phase\<close>

text \<open>From d to d' exactly the given events are added; root, configuration and flags stay.\<close>

definition logs :: "life_event list \<Rightarrow> 'w Dewy \<Rightarrow> 'w Dewy \<Rightarrow> bool" where
  "logs evs d d' = (dw_root d' = dw_root d \<and> dw_config d' = dw_config d \<and> dw_disableReport d' = dw_disableReport d \<and>
     dw_isServerRunning d' = dw_isServerRunning d \<and> dw_log d' = dw_log d @ evs)"

lemma logs_refl [simp]: "logs [] d d" by (simp add: logs_def)

lemma logs_trans: "logs xs a b \<Longrightarrow> logs ys b c \<Longrightarrow> logs (xs @ ys) a c" by (simp add: logs_def)

lemma logs_silent: "logs [] a b \<Longrightarrow> logs ys b c \<Longrightarrow> logs ys a c" by (simp add: logs_def)

lemma logs_call: "call f d = (d', x) \<Longrightarrow> logs [] d d'"
  by (auto simp: call_def logs_def split: prod.splits)

lemma logs_simps [simp]:
  "logs es a (tell f d) = logs es a d" "logs es a (d\<lparr>dw_links := l\<rparr>) = logs es a d" "logs es a (d\<lparr>dw_cVer := v\<rparr>) = logs es a d"
  "logs es a (d\<lparr>dw_world := w\<rparr>) = logs es a d" "logs es (tell f a) d = logs es a d" "logs es a (recordDeployment b d) = logs es a d"
  by (simp_all add: logs_def tell_def recordDeployment_def)

lemma tell_config [simp]: "linkPath (tell f d) = linkPath d" "dw_config (tell f d) = dw_config d"
  by (simp_all add: tell_def linkPath_def)

lemma logs_record: "logs es a d \<Longrightarrow> logs (es @ [e]) a (record_event e d)"
  by (simp add: logs_def record_event_def)

text \<open>A hook that is set leaves one event, or none when its shell cannot be run.\<close>

definition hook_events :: "string \<Rightarrow> life_event list \<Rightarrow> bool" where
  "hook_events cmd evs = (evs = [] \<or> cmd \<noteq> [] \<and> evs = [EvHook cmd])"

lemma logs_runHook: "\<exists>evs. hook_events cmd evs \<and> logs evs d (runHook dp name cmd d)"
proof (cases "cmd = []")
  case True
  then show ?thesis by (intro exI [of _ "[]"]) (simp add: hook_events_def runHook_def execHook_def)
next
  case False
  obtain d1 x where c: "call (dp_Hook dp (dw_root d) cmd) d = (d1, x)" by (rule prod.exhaust)
  note l = logs_call [OF c]
  show ?thesis
  proof (cases x)
    case (Inl e)
    with c l False show ?thesis by (intro exI [of _ "[]"]) (simp add: hook_events_def runHook_def execHook_def)
  next
    case (Inr r)
    with c logs_record [OF l, of "EvHook cmd"] False show ?thesis
      by (intro exI [of _ "[EvHook cmd]"]) (simp add: hook_events_def runHook_def execHook_def)
  qed
qed

lemma logs_preserve:
  assumes "preserve dp p d = (d', Inr t)"
  shows "logs [EvExtracted p t] d d'"
proof -
  obtain d1 stamp where 1: "call (dp_Stamp dp) d = (d1, stamp)" by (rule prod.exhaust)
  let ?dst = "joinPath (joinPath (dw_root d1) ''releases'') stamp"
  obtain d2 e where 2: "call (dp_MkdirAll dp ?dst) d1 = (d2, e)" by (rule prod.exhaust)
  have "logs [] d d2" using logs_silent [OF logs_call [OF 1] logs_call [OF 2]] .
  then have "logs [] d (d2\<lparr>dw_world := w\<rparr>)" for w by simp
  from logs_record [OF this] have "logs [EvExtracted p ?dst] d (record_event (EvExtracted p ?dst) (d2\<lparr>dw_world := w\<rparr>))" for w by simp
  with assms 1 2 show ?thesis by (auto simp: preserve_def Let_def split: option.splits prod.splits)
qed

lemma logs_link_Remove: "logs [] d (link_Remove dp l d)"
  by (auto simp: link_Remove_def dest: logs_call split: prod.splits option.splits)

lemma logs_switchLink:
  assumes "switchLink dp t d = (d', None)"
  shows "logs [EvSwitched t] d d'"
proof -
  let ?tmp = "linkPath d @ ''.tmp''"
  let ?d0 = "link_Remove dp ?tmp d"
  obtain d1 e1 where 1: "call (dp_Symlink dp t ?tmp) ?d0 = (d1, e1)" by (rule prod.exhaust)
  let ?d1 = "d1\<lparr>dw_links := (dw_links d1)(?tmp := Some t)\<rparr>"
  obtain d2 e2 where 2: "call (dp_Rename dp ?tmp (linkPath d)) ?d1 = (d2, e2)" by (rule prod.exhaust)
  have "logs [] d ?d1" using logs_silent [OF logs_link_Remove logs_call [OF 1]] by simp
  from logs_silent [OF this logs_call [OF 2]] have "logs [] d (d2\<lparr>dw_links := l\<rparr>)" for l by simp
  from logs_record [OF this] have "logs [EvSwitched t] d (record_event (EvSwitched t) (d2\<lparr>dw_links := l\<rparr>))" for l by simp
  with assms 1 2 show ?thesis
    by (auto simp: switchLink_def link_Symlink_def link_Rename_def Let_def split: option.splits prod.splits if_splits)
qed

lemma logs_deploy:
  assumes "deploy dp key d = (d', None)"
  shows "\<exists>t before after. hook_events (cg_BeforeDeployHook (dw_config d)) before \<and> hook_events (cg_AfterDeployHook (dw_config d)) after \<and>
    logs (before @ [EvExtracted (joinPath (dp_GetDir dp) key) t, EvSwitched t] @ after) d d' \<and> dw_links d' (linkPath d) = Some t"
proof -
  let ?d0 = "runHook dp ''Before Deploy'' (cg_BeforeDeployHook (dw_config d)) d"
  obtain before where b: "hook_events (cg_BeforeDeployHook (dw_config d)) before" "logs before d ?d0" using logs_runHook by blast
  obtain d1 t where 1: "preserve dp (joinPath (dp_GetDir dp) key) ?d0 = (d1, Inr t)"
    using assms by (auto simp: deploy_def Let_def split: prod.splits sum.splits)
  let ?d1 = "tell (OnDeploy (dp_SlackFile dp t (dw_world d1))) d1"
  obtain d2 where 2: "switchLink dp t ?d1 = (d2, None)" "d' = runHook dp ''After Deploy'' (cg_AfterDeployHook (dw_config d2)) d2"
    using assms 1 by (auto simp: deploy_def Let_def split: prod.splits option.splits)
  have l2: "logs (before @ [EvExtracted (joinPath (dp_GetDir dp) key) t] @ [EvSwitched t]) d d2"
    using logs_trans [OF b(2) logs_trans [OF logs_preserve [OF 1]]] logs_switchLink [OF 2(1)] by simp
  obtain after where a: "hook_events (cg_AfterDeployHook (dw_config d2)) after" "logs after d2 d'" using logs_runHook 2(2) by blast
  have same: "dw_config d2 = dw_config d" "linkPath ?d1 = linkPath d" "linkPath d2 = linkPath d"
    using l2 logs_trans [OF b(2) logs_preserve [OF 1]] by (simp_all add: logs_def linkPath_def tell_def)
  have "dw_links d2 (linkPath d) = Some t" using switchLink_adds [OF 2(1)] same(2) by simp
  moreover have "dw_links d' (linkPath d2) = dw_links d2 (linkPath d2)" using adds_runHook [of d2 dp "''After Deploy''"] 2(2) by (simp add: adds_def)
  ultimately have "dw_links d' (linkPath d) = Some t" using same(3) by simp
  moreover have "logs (before @ [EvExtracted (joinPath (dp_GetDir dp) key) t, EvSwitched t] @ after) d d'" using logs_trans [OF l2 a(2)] by simp
  ultimately show ?thesis using a(1) b(1) same(1) by metis
qed

section \<open>Download\<close>

lemma limited_writes_concat: "limited_writes chunks lw = (lw', None) \<Longrightarrow> lw_W lw' = lw_W lw @ concat chunks"
proof (induction chunks arbitrary: lw)
  case (Cons p ps)
  then obtain lw1 where 1: "limited_Write p lw = (lw1, None)" "limited_writes ps lw1 = (lw', None)"
    by (auto split: prod.splits option.splits)
  then have "lw_W lw1 = lw_W lw @ p" by (auto simp: limited_Write_def split: if_splits)
  with Cons.IH [OF 1(2)] show ?case by simp
qed simp

lemma downloadAndCache_exact:
  assumes "lawful_cache dp view" and "downloadAndCache dp res st d = (d', None)" and "\<not> cs_foundInCache st"
  shows "logs [EvDownloaded (cs_key st), EvCurrentKey (cs_key st)] d d' \<and>
    (\<exists>w w' chunks. dp_Download dp (cr_ArtifactURL res) w = (w', chunks, None) \<and>
       view (dw_world d') = (view (dw_world d))(cs_key st \<mapsto> concat chunks, currentkeyName \<mapsto> cs_key st))"
proof -
  let ?key = "cs_key st"
  obtain d1 bytes d2 where 1: "fetchArtifact dp (cr_ArtifactURL res) d = (d1, Inr bytes)" and 2: "call (dp_Write dp ?key bytes) d1 = (d2, None)"
      and 3: "setCurrentKey dp ?key (record_event (EvDownloaded ?key) d2) = (d', None)"
    using assms(2,3) by (auto simp: downloadAndCache_def split: option.splits prod.splits sum.splits)
  obtain w' chunks where dl: "dp_Download dp (cr_ArtifactURL res) (dw_world d) = (w', chunks, None)" "d1 = d\<lparr>dw_world := w'\<rparr>" "bytes = concat chunks"
    using 1 by (auto simp: fetchArtifact_def call_def dest!: limited_writes_concat split: prod.splits option.splits)
  have v: "view (dw_world d1) = view (dw_world d)" using lawful(6) [OF assms(1), of "cr_ArtifactURL res" "dw_world d"] dl by simp
  have "view (dw_world d2) = (view (dw_world d1))(?key \<mapsto> bytes)"
    using 2 lawful_write [OF assms(1)] by (auto simp: call_def split: prod.splits)
  with setCurrentKey_view [OF assms(1) 3] v have "view (dw_world d') = (view (dw_world d))(?key \<mapsto> bytes, currentkeyName \<mapsto> ?key)"
    by (simp add: record_event_def)
  moreover have "logs [] d d2" using logs_call [OF 2] dl(2) by (simp add: logs_def)
  then have l: "logs [EvDownloaded ?key] d (record_event (EvDownloaded ?key) d2)" using logs_record by fastforce
  obtain d3 where "call (dp_Write dp currentkeyName ?key) (record_event (EvDownloaded ?key) d2) = (d3, None)" "d' = record_event (EvCurrentKey ?key) d3"
    using 3 by (auto simp: setCurrentKey_def split: prod.splits option.splits)
  then have "logs [EvDownloaded ?key, EvCurrentKey ?key] d d'"
    using logs_record [OF logs_trans [OF l logs_call]] by fastforce
  ultimately show ?thesis using dl(1,3) by blast
qed

section \<open>Promotion\<close>

definition server_events :: "'w Dewy \<Rightarrow> life_event list" where
  "server_events d = (if cg_Command (dw_config d) \<noteq> SERVER then [] else if dw_isServerRunning d then [EvRestarted] else [EvStarted])"

definition report_events :: "CurrentResponse \<Rightarrow> 'w Dewy \<Rightarrow> life_event list" where
  "report_events res d = (if dw_disableReport d then [] else
     [EvReported \<lparr>rr_ID = cr_ID res, rr_Tag = cr_Tag res, rr_Command = Command_String (cg_Command (dw_config d)), rr_Err = None\<rparr>])"

text \<open>What a late phase keeps: the version, and the links.\<close>

definition keeps :: "'w Dewy \<Rightarrow> 'w Dewy \<Rightarrow> bool" where
  "keeps d d' = (dw_cVer d' = dw_cVer d \<and> dw_links d' = dw_links d \<and> dw_config d' = dw_config d \<and> dw_disableReport d' = dw_disableReport d)"

lemma keeps_call: "call f d = (d', x) \<Longrightarrow> keeps d d' \<and> dw_log d' = dw_log d"
  by (auto simp: call_def keeps_def split: prod.splits)

lemma removeReleases_exact:
  "\<exists>names'. dw_log (fst (removeReleases dp dir names d)) = dw_log d @ map EvPruned names' \<and> keeps d (fst (removeReleases dp dir names d))"
proof (induction dp dir names d rule: removeReleases.induct)
  case (2 dp dir name names d)
  obtain d1 e where c: "call (dp_RemoveAll dp (joinPath dir name)) d = (d1, e)" by (rule prod.exhaust)
  note k = keeps_call [OF c]
  show ?case
  proof (cases e)
    case None
    obtain ns where "dw_log (fst (removeReleases dp dir names (record_event (EvPruned name) d1))) = dw_log (record_event (EvPruned name) d1) @ map EvPruned ns"
        "keeps (record_event (EvPruned name) d1) (fst (removeReleases dp dir names (record_event (EvPruned name) d1)))"
      using 2 [OF c [symmetric] None] by blast
    with c k None show ?thesis by (intro exI [of _ "name # ns"]) (simp add: keeps_def record_event_def)
  next
    case (Some x)
    with c k show ?thesis by (intro exI [of _ "[]"]) simp
  qed
qed (simp add: keeps_def)

lemma keepReleases_exact:
  "\<exists>names. dw_log (fst (keepReleases dp d)) = dw_log d @ map EvPruned names \<and> keeps d (fst (keepReleases dp d))"
proof -
  let ?dir = "joinPath (dw_root d) ''releases''"
  obtain d1 r where c: "call (dp_ReadDir dp ?dir) d = (d1, r)" by (rule prod.exhaust)
  note k = keeps_call [OF c]
  show ?thesis
  proof (cases r)
    case (Inl e)
    with c k show ?thesis by (intro exI [of _ "[]"]) (simp add: keepReleases_def)
  next
    case (Inr files)
    with c k removeReleases_exact [of dp ?dir "selectStaleReleases files keepReleasesCount" d1] show ?thesis
      by (auto simp: keepReleases_def keeps_def)
  qed
qed

lemma reportDeployment_exact:
  "dw_log (reportDeployment dp res d) = dw_log d @ report_events res d \<and> keeps d (reportDeployment dp res d)"
  by (auto simp: reportDeployment_def report_events_def Let_def record_event_def call_def keeps_def split: prod.splits)

lemma startOrRestartServer_exact:
  "startOrRestartServer dp d = (d', None) \<Longrightarrow> cg_Command (dw_config d) = SERVER \<Longrightarrow> dw_log d' = dw_log d @ server_events d \<and> keeps d d'"
  by (auto simp: startOrRestartServer_def restartServer_def startServer_def server_events_def tell_def record_event_def recordServerRestart_def
      call_def keeps_def split: if_splits prod.splits option.splits)

lemma promoteAndReport_exact:
  assumes "promoteAndReport dp res d = (d', None)"
  shows "\<exists>names. dw_log d' = dw_log d @ server_events d @ report_events res d @ map EvPruned names \<and>
    dw_cVer d' = cr_Tag res \<and> dw_links d' = dw_links d"
proof -
  let ?d = "d\<lparr>dw_cVer := cr_Tag res\<rparr>"
  obtain d1 where 1: "dw_log d1 = dw_log ?d @ server_events d" "keeps ?d d1" "d' = fst (keepReleases dp (reportDeployment dp res d1))"
  proof (cases "cg_Command (dw_config d) = SERVER")
    case True
    obtain d1 where "startOrRestartServer dp ?d = (d1, None)" "d' = fst (keepReleases dp (reportDeployment dp res d1))"
      using assms True by (auto simp: promoteAndReport_def Let_def split: prod.splits option.splits)
    with that [of d1] startOrRestartServer_exact [of dp ?d d1] True show thesis by (simp add: server_events_def)
  next
    case False
    with that [of ?d] assms show thesis by (simp add: promoteAndReport_def server_events_def keeps_def Let_def)
  qed
  moreover have "report_events res d1 = report_events res d" using 1(2) by (simp add: report_events_def keeps_def)
  ultimately show ?thesis using reportDeployment_exact [of dp res d1] keepReleases_exact [of dp "reportDeployment dp res d1"]
    by (auto simp: keeps_def)
qed

section \<open>The tick\<close>

text \<open>
  The services that a deployment of the release needs, all in order: the artifact can be downloaded
  within the limit, the cache and the file system take what is written, the archive extracts, the
  links can be replaced, and the process starter answers. Hooks, the report and the removal of old
  releases may fail.
\<close>

definition working :: "'w deps \<Rightarrow> CurrentResponse \<Rightarrow> bool" where
  "working dp res = (
     dp_NewArtifact dp (cr_ArtifactURL res) = None \<and>
     (\<forall>w. snd (snd (dp_Download dp (cr_ArtifactURL res) w)) = None \<and>
        int (length (concat (fst (snd (dp_Download dp (cr_ArtifactURL res) w))))) \<le> MaxArtifactSize) \<and>
     (\<forall>k v w. snd (dp_Write dp k v w) = None) \<and> (\<forall>p w. snd (dp_MkdirAll dp p w) = None) \<and>
     (let p = joinPath (dp_GetDir dp) (cachekeyName res) in
       \<forall>dst w. snd (snd (ExtractArchive (dp_Entries dp w) (dp_Apply dp) (dp_Exists dp p w) p dst w)) = None) \<and>
     (\<forall>l w. snd (dp_Remove dp l w) = None) \<and> (\<forall>a b w. snd (dp_Symlink dp a b w) = None) \<and> (\<forall>a b w. snd (dp_Rename dp a b w) = None) \<and>
     (\<forall>w. snd (dp_Signal dp w) = None) \<and> (\<forall>w. snd (dp_NewStarter dp w) = None))"

lemma call_returns: "(\<And>w. snd (f w) = x) \<Longrightarrow> \<exists>d'. call f d = (d', x)"
  by (metis call_def case_prod_unfold)

lemma working_calls:
  assumes "working dp res"
  shows "\<exists>d'. call (dp_Write dp k v) d = (d', None)" "\<exists>d'. call (dp_MkdirAll dp q) d = (d', None)" "\<exists>d'. call (dp_Remove dp l) d = (d', None)"
    "\<exists>d'. call (dp_Symlink dp t l) d = (d', None)" "\<exists>d'. call (dp_Rename dp t l) d = (d', None)" "\<exists>d'. call (dp_Signal dp) d = (d', None)"
    "\<exists>d'. call (dp_NewStarter dp) d = (d', None)"
  using assms by (simp_all add: working_def call_returns)

lemma fetchArtifact_working:
  assumes "working dp res"
  shows "\<exists>d' bytes. fetchArtifact dp (cr_ArtifactURL res) d = (d', Inr bytes)"
proof -
  obtain w chunks e where dl: "dp_Download dp (cr_ArtifactURL res) (dw_world d) = (w, chunks, e)" by (metis surj_pair)
  with assms have ok: "e = None" "int (length (concat chunks)) \<le> MaxArtifactSize"
    unfolding working_def by (metis fst_conv snd_conv)+
  let ?lw = "\<lparr>lw_W = [], lw_N = MaxArtifactSize, lw_written = 0\<rparr>"
  obtain lw' x where lw: "limited_writes chunks ?lw = (lw', x)" by (rule prod.exhaust)
  have "list_all (\<lambda>p. int (length p) \<le> max_int64 div 2) chunks"
  proof -
    have "length p \<le> length (concat chunks)" if "p \<in> set chunks" for p
      using that by (induction chunks) auto
    then show ?thesis using ok(2) by (fastforce simp: list_all_iff MaxArtifactSize_def max_int64_def)
  qed
  then have "x = None" using limited_writes_inv [OF _ _ _ _ _ lw] ok(2) by (simp add: MaxArtifactSize_def max_int64_def)
  with dl ok(1) lw show ?thesis by (simp add: fetchArtifact_def call_def)
qed

lemma setCurrentKey_working: "working dp res \<Longrightarrow> \<exists>d'. setCurrentKey dp k d = (d', None)"
  using working_calls(1) [of dp res currentkeyName k d] by (auto simp: setCurrentKey_def)

lemma downloadAndCache_working:
  assumes "working dp res"
  shows "\<exists>d'. downloadAndCache dp res st d = (d', None)"
proof -
  obtain d1 bytes where 1: "fetchArtifact dp (cr_ArtifactURL res) d = (d1, Inr bytes)" using fetchArtifact_working [OF assms] by blast
  obtain d2 where 2: "call (dp_Write dp (cs_key st) bytes) d1 = (d2, None)"
    using working_calls(1) [OF assms] by blast
  obtain d3 where "setCurrentKey dp (cs_key st) (record_event (EvDownloaded (cs_key st)) d2) = (d3, None)"
    using setCurrentKey_working [OF assms] by blast
  with 1 2 assms show ?thesis by (simp add: downloadAndCache_def working_def)
qed

lemma preserve_working:
  assumes "working dp res"
  shows "\<exists>d' t. preserve dp (joinPath (dp_GetDir dp) (cachekeyName res)) d = (d', Inr t)"
proof -
  let ?p = "joinPath (dp_GetDir dp) (cachekeyName res)"
  obtain d1 stamp where 1: "call (dp_Stamp dp) d = (d1, stamp)" by (rule prod.exhaust)
  let ?dst = "joinPath (joinPath (dw_root d1) ''releases'') stamp"
  obtain d2 where 2: "call (dp_MkdirAll dp ?dst) d1 = (d2, None)"
    using working_calls(2) [OF assms] by blast
  obtain w xs e where x: "ExtractArchive (dp_Entries dp (dw_world d2)) (dp_Apply dp) (dp_Exists dp ?p (dw_world d2)) ?p ?dst (dw_world d2) = (w, xs, e)"
    by (metis surj_pair)
  with assms have "e = None" unfolding working_def Let_def by (metis snd_conv)
  with 1 2 x show ?thesis by (simp add: preserve_def Let_def)
qed

lemma switchLink_working:
  assumes "working dp res"
  shows "\<exists>d'. switchLink dp t d = (d', None)"
proof -
  let ?tmp = "linkPath d @ ''.tmp''"
  let ?d0 = "link_Remove dp ?tmp d"
  have "dw_links ?d0 ?tmp = None"
    using working_calls(3) [OF assms, of ?tmp d] by (auto simp: link_Remove_def)
  moreover obtain d1 where "call (dp_Symlink dp t ?tmp) ?d0 = (d1, None)"
    using working_calls(4) [OF assms] by blast
  moreover obtain d2 where "call (dp_Rename dp ?tmp (linkPath d)) (d1\<lparr>dw_links := (dw_links d1)(?tmp := Some t)\<rparr>) = (d2, None)"
    using working_calls(5) [OF assms] by blast
  ultimately show ?thesis by (simp add: switchLink_def link_Symlink_def link_Rename_def Let_def)
qed

lemma deploy_working:
  assumes "working dp res"
  shows "\<exists>d'. deploy dp (cachekeyName res) d = (d', None)"
proof -
  let ?d0 = "runHook dp ''Before Deploy'' (cg_BeforeDeployHook (dw_config d)) d"
  obtain d1 t where 1: "preserve dp (joinPath (dp_GetDir dp) (cachekeyName res)) ?d0 = (d1, Inr t)" using preserve_working [OF assms] by blast
  obtain d2 where "switchLink dp t (tell (OnDeploy (dp_SlackFile dp t (dw_world d1))) d1) = (d2, None)" using switchLink_working [OF assms] by blast
  with 1 show ?thesis by (simp add: deploy_def Let_def)
qed

lemma startOrRestartServer_working:
  assumes "working dp res"
  shows "\<exists>d'. startOrRestartServer dp d = (d', None)"
  using working_calls(6,7) [OF assms, of d] by (auto simp: startOrRestartServer_def restartServer_def startServer_def)

lemma promoteAndReport_working: "working dp res' \<Longrightarrow> \<exists>d'. promoteAndReport dp res d = (d', None)"
  using startOrRestartServer_working [of dp res' "d\<lparr>dw_cVer := cr_Tag res\<rparr>"] by (auto simp: promoteAndReport_def Let_def)

lemma runDeploy_working:
  assumes "working dp res" and "cs_key st = cachekeyName res"
  shows "\<exists>d'. runDeploy dp res st d = (d', None)"
proof -
  obtain d1 where 1: "downloadAndCache dp res st d = (d1, None)" using downloadAndCache_working [OF assms(1)] by blast
  obtain d2 where 2: "deploy dp (cs_key st) (tell (Send (''Downloaded artifact for '' @ backtick (cr_Tag res))) d1) = (d2, None)"
    using deploy_working [OF assms(1)] assms(2) by metis
  obtain d3 where "promoteAndReport dp res d2 = (d3, None)" using promoteAndReport_working [OF assms(1)] by blast
  with 1 2 show ?thesis by (simp add: runDeploy_def applyDeployment_def)
qed

text \<open>A release that is not in the cache is neither skipped nor found.\<close>

lemma resolveCacheState_new:
  assumes "lawful_cache dp view" and "view (dw_world d) (cachekeyName res) = None"
  shows "\<exists>w. resolveCacheState dp res d =
    (d\<lparr>dw_world := w\<rparr>, Inr \<lparr>cs_key = cachekeyName res, cs_foundInCache = False, cs_skip = False\<rparr>) \<and> view w = view (dw_world d)"
proof -
  obtain d1 cur where 1: "call (dp_Read dp currentkeyName) d = (d1, cur)" by (rule prod.exhaust)
  obtain d2 ks where 2: "call (dp_List dp) d1 = (d2, ks)" by (rule prod.exhaust)
  note r = call_read [OF assms(1) 1] and l = call_list [OF assms(1) 2]
  from l(2) r(1) assms(2) obtain keys where "ks = Inr keys" "cachekeyName res \<notin> set keys" by auto
  then have "resolveCacheState dp res d = (d2, Inr \<lparr>cs_key = cachekeyName res, cs_foundInCache = False, cs_skip = False\<rparr>)"
    using 1 2 by (simp add: resolveCacheState_def Let_def)
  moreover have "d2 = d\<lparr>dw_world := dw_world d2\<rparr>" using r(3) l(3) by (metis Dewy.update_convs(9) Dewy.surjective)
  ultimately show ?thesis using r(1) l(1) by metis
qed

lemma dewy_Run_new:
  assumes "lawful_cache dp view" and "snd (dp_Current dp (dw_world d)) = Inr res"
    and "SlotMatcher_Matches (cg_Slot (dw_config d)) (cr_Slot res)" and "view (dw_world d) (cachekeyName res) = None"
    and "dewy_Run dp d = (d', err)"
  shows "\<exists>w d1. view w = view (dw_world d) \<and> d' = recordDeployment (err \<noteq> None) d1 \<and>
    runDeploy dp res \<lparr>cs_key = cachekeyName res, cs_foundInCache = False, cs_skip = False\<rparr> (d\<lparr>dw_world := w\<rparr>) = (d1, err)"
proof -
  obtain w1 r where "dp_Current dp (dw_world d) = (w1, r)" by (rule prod.exhaust)
  then have rc: "resolveCurrent dp d = (d\<lparr>dw_world := w1\<rparr>, Inr (Some res))" "view w1 = view (dw_world d)"
    using assms(2,3) lawful(3) [OF assms(1), of "dw_world d"] by (simp_all add: resolveCurrent_def call_def)
  let ?st = "\<lparr>cs_key = cachekeyName res, cs_foundInCache = False, cs_skip = False\<rparr>"
  obtain w2 where s: "resolveCacheState dp res (d\<lparr>dw_world := w1\<rparr>) = (d\<lparr>dw_world := w2\<rparr>, Inr ?st)" "view w2 = view (dw_world d)"
    using resolveCacheState_new [OF assms(1), of "d\<lparr>dw_world := w1\<rparr>" res] rc(2) assms(4) by auto
  obtain d1 e where "runDeploy dp res ?st (d\<lparr>dw_world := w2\<rparr>) = (d1, e)" by (rule prod.exhaust)
  with assms(5) rc(1) s show ?thesis by (auto simp: dewy_Run_def)
qed

lemma runDeploy_exact:
  assumes "lawful_cache dp view" and "runDeploy dp res \<lparr>cs_key = key, cs_foundInCache = False, cs_skip = False\<rparr> d = (d', None)"
  shows "(\<exists>t before after names. dw_log d' = dw_log d @ [EvDownloaded key, EvCurrentKey key] @ before @
        [EvExtracted (joinPath (dp_GetDir dp) key) t, EvSwitched t] @ after @ server_events d @ report_events res d @ map EvPruned names \<and>
      hook_events (cg_BeforeDeployHook (dw_config d)) before \<and> hook_events (cg_AfterDeployHook (dw_config d)) after \<and>
      dw_links d' (linkPath d) = Some t) \<and>
    (\<exists>w w' chunks. dp_Download dp (cr_ArtifactURL res) w = (w', chunks, None) \<and>
      view (dw_world d') = (view (dw_world d))(key \<mapsto> concat chunks, currentkeyName \<mapsto> key)) \<and>
    dw_cVer d' = cr_Tag res"
proof -
  let ?st = "\<lparr>cs_key = key, cs_foundInCache = False, cs_skip = False\<rparr>"
  from assms(2) obtain d1 d2 where 1: "downloadAndCache dp res ?st d = (d1, None)"
      and 2: "deploy dp key (tell (Send (''Downloaded artifact for '' @ backtick (cr_Tag res))) d1) = (d2, None)"
      and 3: "promoteAndReport dp res d2 = (d', None)"
    by (auto simp: runDeploy_def applyDeployment_def split: prod.splits option.splits)
  note dl = downloadAndCache_exact [OF assms(1) 1]
  then have l1: "logs [EvDownloaded key, EvCurrentKey key] d d1" by simp
  then have same: "dw_config d1 = dw_config d" "linkPath d1 = linkPath d" by (simp_all add: logs_def linkPath_def)
  have v: "view (dw_world d') = view (dw_world d1)"
    using same_view_deploy [OF assms(1) 2] promoteAndReport_view [OF assms(1) 3] by (simp add: same_view_def tell_def)
  obtain t before after where t: "hook_events (cg_BeforeDeployHook (dw_config d)) before" "hook_events (cg_AfterDeployHook (dw_config d)) after"
      "logs (before @ [EvExtracted (joinPath (dp_GetDir dp) key) t, EvSwitched t] @ after) d1 d2" "dw_links d2 (linkPath d) = Some t"
    using logs_deploy [OF 2] same by auto
  note l2 = logs_trans [OF l1 t(3)]
  then have ev: "server_events d2 = server_events d" "report_events res d2 = report_events res d"
    by (simp_all add: logs_def server_events_def report_events_def)
  from promoteAndReport_exact [OF 3] ev obtain names where
      p: "dw_log d' = dw_log d2 @ server_events d @ report_events res d @ map EvPruned names" "dw_cVer d' = cr_Tag res" "dw_links d' = dw_links d2"
    by auto
  with l2 have "dw_log d' = dw_log d @ [EvDownloaded key, EvCurrentKey key] @ before @
      [EvExtracted (joinPath (dp_GetDir dp) key) t, EvSwitched t] @ after @ server_events d @ report_events res d @ map EvPruned names"
    by (simp add: logs_def)
  moreover have "dw_links d' (linkPath d) = Some t" using p(3) t(4) by simp
  moreover have "\<exists>w w' chunks. dp_Download dp (cr_ArtifactURL res) w = (w', chunks, None) \<and>
      view (dw_world d') = (view (dw_world d))(key \<mapsto> concat chunks, currentkeyName \<mapsto> key)"
    using dl v by simp
  ultimately show ?thesis using t(1,2) p(2) by blast
qed

section \<open>Property\<close>

text \<open>
  Claim C6. A new release is deployed, completely and in order. When the registry names a release of
  the slot of the instance that is not in the cache, the tick succeeds if the services it needs
  work; and when it succeeds, it has downloaded the artifact, made it the current key, run the hook
  before, extracted the artifact, switched the link to it, run the hook after, started the server
  or restarted a running one, reported and removed old releases, each once and nothing else. The
  cache holds exactly what was downloaded, the link points to the extracted release, and the version
  of the instance is the tag.
\<close>

theorem dewy_Run_deploys:
  assumes "lawful_cache dp view" and "snd (dp_Current dp (dw_world d)) = Inr res"
    and "SlotMatcher_Matches (cg_Slot (dw_config d)) (cr_Slot res)" and "view (dw_world d) (cachekeyName res) = None"
    and "dewy_Run dp d = (d', err)"
  shows "(working dp res \<longrightarrow> err = None) \<and> (err = None \<longrightarrow>
    (\<exists>t before after names. dw_log d' = dw_log d @ [EvDownloaded (cachekeyName res), EvCurrentKey (cachekeyName res)] @ before @
        [EvExtracted (joinPath (dp_GetDir dp) (cachekeyName res)) t, EvSwitched t] @ after @ server_events d @ report_events res d @ map EvPruned names \<and>
      hook_events (cg_BeforeDeployHook (dw_config d)) before \<and> hook_events (cg_AfterDeployHook (dw_config d)) after \<and>
      dw_links d' (linkPath d) = Some t) \<and>
    (\<exists>w w' chunks. dp_Download dp (cr_ArtifactURL res) w = (w', chunks, None) \<and>
      view (dw_world d') = (view (dw_world d))(cachekeyName res \<mapsto> concat chunks, currentkeyName \<mapsto> cachekeyName res)) \<and>
    dw_cVer d' = cr_Tag res)"
proof -
  obtain w d1 where w: "view w = view (dw_world d)" "d' = recordDeployment (err \<noteq> None) d1"
      and r: "runDeploy dp res \<lparr>cs_key = cachekeyName res, cs_foundInCache = False, cs_skip = False\<rparr> (d\<lparr>dw_world := w\<rparr>) = (d1, err)"
    using dewy_Run_new [OF assms] by blast
  have ev: "server_events (d\<lparr>dw_world := w\<rparr>) = server_events d" "report_events res (d\<lparr>dw_world := w\<rparr>) = report_events res d"
      "linkPath (recordDeployment b x) = linkPath x" "linkPath (d\<lparr>dw_world := w\<rparr>) = linkPath d" for b x
    by (simp_all add: server_events_def report_events_def linkPath_def recordDeployment_def)
  show ?thesis
  proof (cases err)
    case (Some e)
    with runDeploy_working [of dp res "\<lparr>cs_key = cachekeyName res, cs_foundInCache = False, cs_skip = False\<rparr>" "d\<lparr>dw_world := w\<rparr>"] r
    show ?thesis by auto
  next
    case None
    from runDeploy_exact [OF assms(1) r [unfolded None]] ev w None show ?thesis by (simp add: recordDeployment_def)
  qed
qed

lemma small_working: "working (small_deps True) app_release"
proof -
  have f: "archiveFormat (joinPath ''/c'' (cachekeyName app_release)) \<noteq> None" by code_simp
  then show ?thesis by (auto simp: working_def small_deps_def ExtractArchive_def MaxArtifactSize_def)
qed

theorem dewy_Run_deploys_witness:
  "\<exists>d' t names. dewy_Run (small_deps True) (small_dewy SERVER) = (d', None) \<and>
     dw_log d' = [EvDownloaded ''v1--a.zip'', EvCurrentKey ''v1--a.zip'', EvExtracted ''/c/v1--a.zip'' t, EvSwitched t, EvStarted] @
       report_events app_release (small_dewy SERVER) @ map EvPruned names \<and>
     dw_links d' ''/r/current'' = Some t \<and> dw_cVer d' = ''v1''"
proof -
  let ?dp = "small_deps True" and ?d = "small_dewy SERVER"
  obtain d' err where r: "dewy_Run ?dp ?d = (d', err)" by (rule prod.exhaust)
  have k: "cachekeyName app_release = ''v1--a.zip''" "joinPath (dp_GetDir ?dp) ''v1--a.zip'' = ''/c/v1--a.zip''"
      "linkPath ?d = ''/r/current''" "server_events ?d = [EvStarted]" "cg_BeforeDeployHook (dw_config ?d) = []"
      "cg_AfterDeployHook (dw_config ?d) = []" "dw_log ?d = []" "cr_Tag app_release = ''v1''"
    by code_simp+
  have "snd (dp_Current ?dp (dw_world ?d)) = Inr app_release" by (simp add: small_deps_def)
  moreover have "SlotMatcher_Matches (cg_Slot (dw_config ?d)) (cr_Slot app_release)" by code_simp
  moreover have "map_of (dw_world ?d) (cachekeyName app_release) = None" by (simp add: small_dewy_def)
  ultimately show ?thesis using dewy_Run_deploys [OF small_lawful _ _ _ r] small_working r k by (auto simp: hook_events_def)
qed

end
