(* ===== verification/Server_Release.thy ===== *)
theory Server_Release
  imports Lifecycle_Deploys Artifact
begin

text \<open>
  The components together: a tick of the command server whose registry is GitHub and whose
  artifacts are assets of its releases. The environment of the life cycle is built from the models
  of src/registry/ghr.go and src/artifact/ghr.go, and what each of them promises is
  put together to what the instance runs in the end.
\<close>

section \<open>The environment\<close>

text \<open>
  A chunk of a download is appended to what was written. A query that never returns has no
  outcome; it is given as an error here and excluded by what the service promises.
\<close>

definition keep_chunk :: "string \<Rightarrow> string list \<Rightarrow> string list \<times> string option" where
  "keep_chunk c cs = (cs @ [c], None)"

definition returned :: "'w \<Rightarrow> 'a \<Rightarrow> ('w \<times> 'a) option \<Rightarrow> 'w \<times> 'a" where
  "returned w e r = (case r of Some x \<Rightarrow> x | None \<Rightarrow> (w, e))"

definition isGHR :: "string \<Rightarrow> bool" where
  "isGHR url = (artifact_factories (hd (splitN2 url ''://'')) = Some ArtifactGHR)"

definition ghr_download :: "'w GitHubAssets \<Rightarrow> string \<Rightarrow> 'w \<Rightarrow> 'w \<times> string list \<times> string option" where
  "ghr_download ac url w = (case artifact_NewGHR None url of
     Inl err \<Rightarrow> (w, [], Some err)
   | Inr a \<Rightarrow> (case GHR_Download ac keep_chunk a (w, []) of
       None \<Rightarrow> (w, [], Some ''no return'') | Some ((w, cs), err) \<Rightarrow> (w, cs, err)))"

definition ghr_deps :: "'w GitHub \<Rightarrow> 'w GitHubAssets \<Rightarrow> platform \<Rightarrow> string \<Rightarrow> string \<Rightarrow> GHR \<Rightarrow> 'w deps \<Rightarrow> 'w deps" where
  "ghr_deps cl ac pl now hostname g dp = dp\<lparr>
     dp_Current := (\<lambda>w. returned w (Inl RegistryPanic) (GHR_Current cl pl now g w)),
     dp_Report := (\<lambda>req w. returned w (Some ''no return'') (GHR_Report cl hostname now g req w)),
     dp_NewArtifact := (\<lambda>url. if isGHR url then (case artifact_NewGHR None url of Inl err \<Rightarrow> Some err | Inr _ \<Rightarrow> None) else dp_NewArtifact dp url),
     dp_Download := (\<lambda>url w. if isGHR url then ghr_download ac url w else dp_Download dp url w)\<rparr>"

section \<open>What the service has\<close>

definition wanted :: "platform \<Rightarrow> GHR \<Rightarrow> string \<Rightarrow> bool" where
  "wanted pl g name = (if gh_Artifact g \<noteq> [] then name = gh_Artifact g else for_platform pl name)"

definition plain_name :: "string \<Rightarrow> bool" where
  "plain_name s = (s \<noteq> [] \<and> CHR ''/'' \<notin> set s \<and> CHR ''?'' \<notin> set s)"

definition plain_names :: "GHR \<Rightarrow> release list \<Rightarrow> bool" where
  "plain_names g rs = (plain_name (gh_Owner g) \<and> plain_name (gh_Repo g) \<and>
     list_all (\<lambda>r. plain_name (rl_TagName r) \<and> list_all plain_name (rl_Assets r)) rs)"

text \<open>The releases that the listing of assets shows hold the assets of the published ones.\<close>

definition same_assets :: "release list \<Rightarrow> gh_release list \<Rightarrow> bool" where
  "same_assets rs vs = list_all (\<lambda>r. list_ex (\<lambda>v. gr_TagName v = rl_TagName r \<and> set (rl_Assets r) \<subseteq> fst ` set (gr_Assets v)) vs) rs"

definition release_key :: "release \<Rightarrow> string \<Rightarrow> string" where
  "release_key rel name = rl_TagName rel @ ''--'' @ name"

definition release_url :: "GHR \<Rightarrow> release \<Rightarrow> string \<Rightarrow> string" where
  "release_url g rel name = ''ghr://'' @ gh_Owner g @ ''/'' @ gh_Repo g @ ''/tag/'' @ rl_TagName rel @ ''/'' @ name"

definition release_response :: "string \<Rightarrow> GHR \<Rightarrow> release \<Rightarrow> string \<Rightarrow> CurrentResponse" where
  "release_response now g rel name = \<lparr>cr_ID = now, cr_Tag = rl_TagName rel, cr_ArtifactURL = release_url g rel name,
     cr_CreatedAt = rl_PublishedAt rel, cr_Slot = extractSlot (rl_TagName rel) (gh_CalVer g)\<rparr>"

section \<open>Names\<close>

lemma basePath_last:
  assumes "CHR ''/'' \<notin> set name" and "name \<noteq> []"
  shows "basePath (p @ ''/'' @ name) = name"
proof -
  have "rev name \<noteq> [] \<and> hd (rev name) \<noteq> CHR ''/''" using assms by (metis hd_in_set rev_is_Nil_conv set_rev)
  then have "dropWhile (\<lambda>c. c = CHR ''/'') (rev name @ x) = rev name @ x" for x by (cases "rev name") auto
  then show ?thesis using assms by (simp add: basePath_def Let_def last_splitC)
qed

lemma cachekeyName_release:
  assumes "plain_names g rs" and "rel \<in> set rs" and "name \<in> set (rl_Assets rel)"
  shows "cachekeyName (release_response now g rel name) = release_key rel name"
proof -
  have p: "plain_name (gh_Owner g)" "plain_name (gh_Repo g)" "plain_name (rl_TagName rel)" "plain_name name"
    using assms by (auto simp: plain_names_def list_all_iff)
  then have u: "strIndex (release_url g rel name) ''?'' = None" by (simp add: release_url_def plain_name_def)
  have "hd (splitN2 (release_url g rel name) ''?'') = release_url g rel name" by (simp only: splitN2_def u option.case list.sel)
  moreover have "basePath (release_url g rel name) = name"
    using basePath_last [of name "''ghr://'' @ gh_Owner g @ ''/'' @ gh_Repo g @ ''/tag/'' @ rl_TagName rel"] p(4)
    by (simp add: release_url_def plain_name_def)
  ultimately show ?thesis by (simp add: cachekeyName_def release_response_def release_key_def)
qed

lemma isGHR_release [simp]: "isGHR (release_url g rel name)"
  by (simp add: isGHR_def release_url_def splitN2_def hasPrefix_def artifact_factories_def)

lemma release_key_not_current [simp]: "release_key rel name \<noteq> currentkeyName"
proof
  assume "release_key rel name = currentkeyName"
  then have "CHR ''-'' \<in> set currentkeyName" by (metis in_set_conv_decomp release_key_def append_Cons)
  then show False by (simp add: currentkeyName_def)
qed

section \<open>The parts\<close>

text \<open>What the query of the registry gives: an offered asset of the newest release, or why there is none.\<close>

lemma GHR_Current_cases:
  assumes "ghr_serves cl g w 1 pages" and "gh_CalVer g = []"
    and "\<forall>r\<in>set (published pages). \<forall>v. semver_candidate [] (gh_PreRelease g) (rl_TagName r) = Some v \<longrightarrow> plain_pre (sv_PreRelease v)"
  shows "\<exists>r. GHR_Current cl pl now g w = Some (w, r) \<and>
    ((\<exists>msg. r = Inl (RegistryError msg) \<and> (\<forall>rel\<in>set (published pages). semver_candidate [] (gh_PreRelease g) (rl_TagName rel) = None)) \<or>
     (\<exists>rel. newest_release (gh_PreRelease g) (published pages) rel \<and>
        ((\<exists>msg. r = Inl (ArtifactNotFoundError (gh_Artifact g) (rl_PublishedAt rel) msg) \<and> list_all (\<lambda>n. \<not> wanted pl g n) (rl_Assets rel)) \<or>
         (\<exists>name\<in>set (rl_Assets rel). wanted pl g name \<and> r = Inr (release_response now g rel name)))))"
proof -
  have l: "latest cl g w = Some (w, ghr_choose g (published pages))"
    using ghr_pages_serves [OF assms(1), of "[]"] by (simp add: latest_def)
  note c = ghr_choose_newest [OF assms(2,3)]
  show ?thesis
  proof (cases "ghr_choose g (published pages)")
    case (Inl e)
    then have "\<exists>msg. e = RegistryError msg" by (auto simp: ghr_choose_def split: if_splits sum.splits prod.splits)
    with l c Inl show ?thesis by (auto simp: GHR_Current_def)
  next
    case (Inr rel)
    with c obtain r where r: "rel = Some r" "newest_release (gh_PreRelease g) (published pages) r" by auto
    show ?thesis
    proof (cases "ghr_artifact pl g r")
      case a: (Inl e)
      then have "list_all (\<lambda>n. \<not> wanted pl g n) (rl_Assets r)"
        by (auto simp: ghr_artifact_def wanted_def MatchArtifactByPlatform_find list_all_iff find_None_iff split: if_splits option.splits)
      with l Inr r a ghr_artifact_missing [OF a] show ?thesis by (auto simp: GHR_Current_def)
    next
      case a: (Inr name)
      with l Inr r have "GHR_Current cl pl now g w = Some (w, Inr (release_response now g r name))"
        by (simp add: GHR_Current_def release_response_def release_url_def)
      moreover have "name \<in> set (rl_Assets r)" "wanted pl g name" using ghr_artifact_offered [OF a] by (simp_all add: wanted_def)
      ultimately show ?thesis using r(2) by blast
    qed
  qed
qed

text \<open>What the download of an offered asset gives: the bytes of an asset of that name in a release of that tag.\<close>

lemma ghr_download_release:
  assumes "plain_names g rs" and "rel \<in> set rs" and "name \<in> set (rl_Assets rel)" and "same_assets rs (concat vpages)"
    and "\<And>w. asset_pages ac (gh_Owner g) (gh_Repo g) w 1 vpages"
  shows "\<exists>a i v. artifact_NewGHR None (release_url g rel name) = Inr a \<and> v \<in> set (concat vpages) \<and> gr_TagName v = rl_TagName rel \<and>
    (name, i) \<in> set (gr_Assets v) \<and>
    (\<forall>w. ghr_download ac (release_url g rel name) w = (case ghr_fetch ac keep_chunk a i (w, []) of ((w, cs), err) \<Rightarrow> (w, cs, err)))"
proof -
  have "plain_name (gh_Owner g)" "plain_name (gh_Repo g)" "plain_name (rl_TagName rel)" "plain_name name"
    using assms(1-3) by (auto simp: plain_names_def list_all_iff)
  then have n: "artifact_NewGHR None (release_url g rel name) = Inr \<lparr>ga_owner = gh_Owner g, ga_repo = gh_Repo g, ga_tag = rl_TagName rel,
      ga_artifact = name, ga_url = release_url g rel name\<rparr>" (is "_ = Inr ?a")
    unfolding release_url_def by (intro artifact_NewGHR_url) (simp add: plain_name_def)
  obtain v where v: "v \<in> set (concat vpages)" "gr_TagName v = rl_TagName rel" "name \<in> fst ` set (gr_Assets v)"
    using assms(2-4) by (fastforce simp: same_assets_def list_all_iff list_ex_iff)
  then have "assetOf (rl_TagName rel) name (concat vpages) \<noteq> None" unfolding assetOf_None by blast
  then obtain i where i: "assetOf (rl_TagName rel) name (concat vpages) = Some i" by blast
  have "GHR_Download ac keep_chunk ?a (w, []) = Some (ghr_fetch ac keep_chunk ?a i (w, []))" for w
    using ghr_assetID_pages [of ac ?a w 1 vpages] assms(5) i by (simp add: GHR_Download_def)
  then have "ghr_download ac (release_url g rel name) w = (case ghr_fetch ac keep_chunk ?a i (w, []) of ((w, cs), err) \<Rightarrow> (w, cs, err))" for w
    by (simp add: ghr_download_def n)
  with n assetOf_Some [OF i] show ?thesis by blast
qed

text \<open>A tick without a release of its slot does nothing.\<close>

lemma dewy_Run_no_release:
  assumes "snd (dp_Current dp (dw_world d)) = Inl e" and "dewy_Run dp d = (d', err)"
  shows "dw_log d' = dw_log d \<and> dw_links d' = dw_links d \<and> dw_cVer d' = dw_cVer d \<and>
    err = (if IsWithinGracePeriod (snd (dp_Now dp (fst (dp_Current dp (dw_world d))))) defaultArtifactGracePeriod e
      then None else Some (registry_error_text e))"
proof -
  obtain d1 where 1: "call (dp_Current dp) d = (d1, Inl e)" "d1 = d\<lparr>dw_world := fst (dp_Current dp (dw_world d))\<rparr>"
    using assms(1) by (cases "dp_Current dp (dw_world d)") (auto simp: call_def)
  obtain d2 now where 2: "call (dp_Now dp) d1 = (d2, now)" by (rule prod.exhaust)
  then have "dw_log d2 = dw_log d1 \<and> dw_links d2 = dw_links d1 \<and> dw_cVer d2 = dw_cVer d1 \<and> now = snd (dp_Now dp (dw_world d1))" by (auto simp: call_def split: prod.splits)
  with 1 2 assms(2) show ?thesis by (auto simp: dewy_Run_def resolveCurrent_def recordDeployment_def split: if_splits)
qed

lemma dewy_Run_other_slot:
  assumes "snd (dp_Current dp (dw_world d)) = Inr res" and "\<not> SlotMatcher_Matches (cg_Slot (dw_config d)) (cr_Slot res)"
    and "dewy_Run dp d = (d', err)"
  shows "dw_log d' = dw_log d \<and> dw_links d' = dw_links d \<and> dw_cVer d' = dw_cVer d \<and> err = None"
  using assms by (auto simp: dewy_Run_def resolveCurrent_def call_def recordDeployment_def split: prod.splits)

section \<open>The tick\<close>

text \<open>The calls of GitHub leave the cache alone, so the environment is lawful if the rest is.\<close>

lemma lawful_ghr_deps:
  assumes "lawful_cache dp view" and "\<And>w. view (fst (returned w (Inl RegistryPanic) (GHR_Current cl pl now g w))) = view w"
    and "\<And>req w. view (fst (returned w (Some ''no return'') (GHR_Report cl hostname now g req w))) = view w"
    and "\<And>url w. view (fst (ghr_download ac url w)) = view w"
  shows "lawful_cache (ghr_deps cl ac pl now hostname g dp) view"
  using assms unfolding lawful_cache_def by (simp add: ghr_deps_def cong: option.case_cong)

text \<open>The service delivers these bytes for an asset of this name in a release of this tag.\<close>

definition delivers :: "'w GitHubAssets \<Rightarrow> GHR \<Rightarrow> gh_release list \<Rightarrow> release \<Rightarrow> string \<Rightarrow> string \<Rightarrow> bool" where
  "delivers ac g vs rel name bytes = (\<exists>a i v w w' cs. artifact_NewGHR None (release_url g rel name) = Inr a \<and>
     v \<in> set vs \<and> gr_TagName v = rl_TagName rel \<and> (name, i) \<in> set (gr_Assets v) \<and>
     ghr_fetch ac keep_chunk a i (w, []) = ((w', cs), None) \<and> bytes = concat cs)"

text \<open>What the instance runs after a tick that deployed an asset of a release.\<close>

definition runs_release :: "('w \<Rightarrow> string \<Rightarrow> string option) \<Rightarrow> 'w deps \<Rightarrow> (string \<Rightarrow> bool) \<Rightarrow> CurrentResponse \<Rightarrow> string \<Rightarrow> 'w Dewy \<Rightarrow> 'w Dewy \<Rightarrow> bool" where
  "runs_release view dp genuine res key d d' = (dw_cVer d' = cr_Tag res \<and>
     (\<exists>bytes. genuine bytes \<and> view (dw_world d') key = Some bytes \<and> view (dw_world d') currentkeyName = Some key) \<and>
     (\<exists>t before after names. dw_links d' (linkPath d) = Some t \<and>
        dw_log d' = dw_log d @ [EvDownloaded key, EvCurrentKey key] @ before @
          [EvExtracted (joinPath (dp_GetDir dp) key) t, EvSwitched t] @ after @ server_events d @ report_events res d @ map EvPruned names \<and>
        hook_events (cg_BeforeDeployHook (dw_config d)) before \<and> hook_events (cg_AfterDeployHook (dw_config d)) after))"

lemma deploys_release:
  assumes dps_def: "dps = ghr_deps cl ac pl now hostname g dp" and "lawful_cache dps view" and "snd (dp_Current dps (dw_world d)) = Inr (release_response now g rel name)"
    and "plain_names g rs" and "rel \<in> set rs" and "name \<in> set (rl_Assets rel)" and "same_assets rs (concat vpages)"
    and "\<And>w. asset_pages ac (gh_Owner g) (gh_Repo g) w 1 vpages"
    and "SlotMatcher_Matches (cg_Slot (dw_config d)) (cr_Slot (release_response now g rel name))"
    and "view (dw_world d) (release_key rel name) = None" and "dewy_Run dps d = (d', err)"
  shows "(working dps (release_response now g rel name) \<longrightarrow> err = None) \<and>
    (err = None \<longrightarrow> runs_release view dps (delivers ac g (concat vpages) rel name) (release_response now g rel name) (release_key rel name) d d')"
proof -
  let ?res = "release_response now g rel name" and ?key = "release_key rel name"
  note k = cachekeyName_release [OF assms(4-6), of now]
  obtain w d1 where w: "view w = view (dw_world d)" "d' = recordDeployment (err \<noteq> None) d1"
      and r: "runDeploy dps ?res \<lparr>cs_key = ?key, cs_foundInCache = False, cs_skip = False\<rparr> (d\<lparr>dw_world := w\<rparr>) = (d1, err)"
    using dewy_Run_new [OF assms(2,3,9) _ assms(11)] assms(10) k by auto
  have same: "server_events (d\<lparr>dw_world := w\<rparr>) = server_events d" "report_events ?res (d\<lparr>dw_world := w\<rparr>) = report_events ?res d"
      "linkPath (d\<lparr>dw_world := w\<rparr>) = linkPath d"
    by (simp_all add: server_events_def report_events_def linkPath_def)
  show ?thesis
  proof (cases err)
    case (Some e)
    with runDeploy_working [of dps ?res "\<lparr>cs_key = ?key, cs_foundInCache = False, cs_skip = False\<rparr>" "d\<lparr>dw_world := w\<rparr>"] r k
    show ?thesis by auto
  next
    case None
    note x = runDeploy_exact [OF assms(2) r [unfolded None]]
    from x obtain t before after names where t: "dw_log d1 = dw_log d @ [EvDownloaded ?key, EvCurrentKey ?key] @ before @
        [EvExtracted (joinPath (dp_GetDir dps) ?key) t, EvSwitched t] @ after @ server_events d @ report_events ?res d @ map EvPruned names"
        "hook_events (cg_BeforeDeployHook (dw_config d)) before" "hook_events (cg_AfterDeployHook (dw_config d)) after"
        "dw_links d1 (linkPath d) = Some t"
      using same by auto
    from x obtain w1 w2 chunks where c: "dp_Download dps (release_url g rel name) w1 = (w2, chunks, None)" "view (dw_world d1) ?key = Some (concat chunks)"
        "view (dw_world d1) currentkeyName = Some ?key" "dw_cVer d1 = cr_Tag ?res"
      by (auto simp: release_response_def)
    from ghr_download_release [OF assms(4-8)] c(1) have "delivers ac g (concat vpages) rel name (concat chunks)"
      by (fastforce simp: delivers_def dps_def ghr_deps_def split: prod.splits)
    moreover have "dw_log d' = dw_log d1" "dw_links d' = dw_links d1" "dw_cVer d' = dw_cVer d1" "dw_world d' = dw_world d1"
      using w(2) by (simp_all add: recordDeployment_def)
    ultimately have "runs_release view dps (delivers ac g (concat vpages) rel name) ?res ?key d d'"
      unfolding runs_release_def using t c(2-4) by metis
    with None show ?thesis by simp
  qed
qed


text \<open>The server of the examples with the release service of the examples.\<close>

definition hub_deps :: "((string \<times> string) list) deps" where
  "hub_deps = ghr_deps hub asset_hub linux_amd64 ''now'' ''h'' hub_repo (small_deps True)"

definition asset_hub_pages :: "gh_release list list" where
  "asset_hub_pages = [[\<lparr>gr_TagName = ''v1.9.0'', gr_Assets = [(''a_linux_amd64.zip'', 5)]\<rparr>],
     [\<lparr>gr_TagName = ''v1.10.0'', gr_Assets = [(''b.txt'', 8), (''b_linux_amd64.zip'', 9)]\<rparr>]]"

lemma asset_hub_pages: "asset_pages asset_hub ow re w 1 asset_hub_pages"
  by (simp add: asset_hub_def asset_hub_pages_def)

lemma hub_serves: "ghr_serves hub hub_repo w 1 hub_pages"
  by (simp add: hub_def hub_pages_def del: not_None_eq)

lemma hub_fetch: "ghr_fetch asset_hub keep_chunk a i (w, b) = ((w, b @ [itoa i]), None)"
  by (simp add: ghr_fetch_def asset_hub_def keep_chunk_def)

lemma hub_download: "\<exists>cs err. ghr_download asset_hub url w = (w, cs, err) \<and> (err = None \<longrightarrow> (\<exists>i. cs = [itoa i]))"
proof (cases "artifact_NewGHR None url")
  case (Inr a)
  note i = ghr_assetID_pages [OF asset_hub_pages, of a w]
  from Inr show ?thesis by (simp add: ghr_download_def GHR_Download_def hub_fetch i) blast
qed (simp add: ghr_download_def)

lemma hub_report: "\<exists>e. returned w x (GHR_Report hub hn now g req w) = (w, e)"
proof -
  have "\<exists>e. ghr_report_pages hub g tag info 2 w = Some (w, e)" for tag info
    by (subst ghr_report_pages.simps) (auto simp: hub_def split: option.splits)
  then have "\<exists>e. ghr_report_pages hub g tag info 1 w = Some (w, e)" for tag info
    by (subst ghr_report_pages.simps) (auto simp: hub_def split: option.splits)
  then obtain e where "ghr_report_pages hub g (rr_Tag req) (shippedInfo hn (rr_Command req) now) 1 w = Some (w, e)" by blast
  then show ?thesis by (cases "rr_Err req") (simp_all add: returned_def GHR_Report_def)
qed

lemma hub_plain: "\<forall>r\<in>set (published hub_pages). \<forall>v. semver_candidate [] (gh_PreRelease hub_repo) (rl_TagName r) = Some v \<longrightarrow> plain_pre (sv_PreRelease v)"
proof -
  have "list_all (\<lambda>r. case semver_candidate [] (gh_PreRelease hub_repo) (rl_TagName r) of Some v \<Rightarrow> plain_pre (sv_PreRelease v) | None \<Rightarrow> True) (published hub_pages)"
    by code_simp
  then show ?thesis by (auto simp: list_all_iff)
qed

lemma hub_current: "\<exists>r. GHR_Current hub linux_amd64 now hub_repo w = Some (w, r)"
  using GHR_Current_cases [OF hub_serves _ hub_plain] by (fastforce simp: hub_repo_def)

lemma hub_lawful: "lawful_cache hub_deps map_of"
proof -
  have c: "fst (returned w e (GHR_Current hub linux_amd64 now hub_repo w)) = w" for w e now
    using hub_current [of now w] by (auto simp: returned_def)
  have r: "fst (returned w e (GHR_Report hub hn now g req w)) = w" for w e hn now g req
    using hub_report [of w e hn now g req] by auto
  have d: "fst (ghr_download asset_hub url w) = w" for url w using hub_download [of url w] by auto
  show ?thesis unfolding hub_deps_def by (intro lawful_ghr_deps small_lawful) (simp_all add: c r d)
qed

lemma hub_newest: "newest_release False (published hub_pages) rel \<Longrightarrow> rel = hub_pages ! 1 ! 0"
proof -
  let ?v9 = "\<lparr>sv_V = ''v'', sv_Major = 1, sv_Minor = 9, sv_Patch = 0, sv_PreRelease = [], sv_BuildMetadata = []\<rparr>"
    and ?v10 = "\<lparr>sv_V = ''v'', sv_Major = 1, sv_Minor = 10, sv_Patch = 0, sv_PreRelease = [], sv_BuildMetadata = []\<rparr>"
  have "published hub_pages = [hub_pages ! 0 ! 1, hub_pages ! 1 ! 0]" by (simp add: published_def hub_pages_def)
  moreover have "semver_candidate [] False (rl_TagName (hub_pages ! 0 ! 1)) = Some ?v9"
      "semver_candidate [] False (rl_TagName (hub_pages ! 1 ! 0)) = Some ?v10" "0 < SemVer_Compare ?v10 ?v9" by code_simp+
  ultimately show "newest_release False (published hub_pages) rel \<Longrightarrow> rel = hub_pages ! 1 ! 0"
    by (auto simp: newest_release_def)
qed

lemma hub_working: "working hub_deps (release_response ''now'' hub_repo (hub_pages ! 1 ! 0) ''b_linux_amd64.zip'')" (is "working _ ?res")
proof -
  let ?rel = "hub_pages ! 1 ! 0" and ?n = "''b_linux_amd64.zip''"
  have n: "plain_names hub_repo (published hub_pages)" "same_assets (published hub_pages) (concat asset_hub_pages)"
      "archiveFormat (joinPath ''/c'' (cachekeyName ?res)) \<noteq> None" by code_simp+
  have m: "?rel \<in> set (published hub_pages)" "?n \<in> set (rl_Assets ?rel)" by (simp_all add: published_def hub_pages_def)
  from ghr_download_release [OF n(1) m n(2) asset_hub_pages] obtain a i v where a: "artifact_NewGHR None (release_url hub_repo ?rel ?n) = Inr a"
      "v \<in> set (concat asset_hub_pages)" "(?n, i) \<in> set (gr_Assets v)"
      "\<And>w :: (string \<times> string) list. ghr_download asset_hub (release_url hub_repo ?rel ?n) w = (w, [itoa i], None)" by (auto simp: hub_fetch)
  from a(2,3) have "i = 9" by (auto simp: asset_hub_pages_def)
  moreover have "length (itoa 9) = 1" by code_simp
  ultimately show ?thesis using a(1,4) n(3)
    by (auto simp: working_def hub_deps_def ghr_deps_def small_deps_def release_response_def MaxArtifactSize_def ExtractArchive_def)
qed

definition hub_bytes :: "release \<Rightarrow> string \<Rightarrow> string \<Rightarrow> bool" where
  "hub_bytes = delivers (asset_hub :: ((string \<times> string) list) GitHubAssets) hub_repo (concat asset_hub_pages)"

text \<open>The tick has a published version to work on.\<close>

lemma tick_outcome:
  "L \<and> E \<and> N \<or> (\<exists>r. P r \<and> (K1 \<and> K2 \<and> K3 \<and> (A r \<and> X r \<or> Y \<and> B r) \<or> (\<exists>n\<in>S r. W r n \<and> F r n \<and> G r n))) \<Longrightarrow>
   \<not> N \<Longrightarrow> \<exists>r. P r \<and> (A r \<or> B r \<or> (\<exists>n\<in>S r. F r n \<and> G r n))"
  by blast


end
