(* ===== verification/Proxy_Copy.thy ===== *)
theory Proxy_Copy
  imports Proxy
begin

text \<open>
  The bidirectional copy of a proxied connection: the idle timeout of connio.go and the two
  io.Copy goroutines of handleConnection in proxy.go. A session has the clock, the deadline of
  each of the two connections and one copier per direction; both copiers read and write the same
  two connections, so each of them renews the deadlines the other one waits under.
  \<open>copy_step\<close> is one step of one goroutine, of the clock or of the peers, and
  \<open>copy_run\<close> a whole schedule. The last section shows what every schedule keeps: bytes
  arrive in order, and a copier that runs into its deadline does so only after a whole idle
  timeout in which no chunk was forwarded in either direction.
\<close>

section \<open>The session\<close>

datatype side = Client | Backend
datatype way = Up | Down

fun way_src :: "way \<Rightarrow> side" where
  "way_src Up = Client"
| "way_src Down = Backend"

fun way_dst :: "way \<Rightarrow> side" where
  "way_dst Up = Backend"
| "way_dst Down = Client"

datatype copy_end = Eof | TimedOut | Broken

text \<open>
  Where an io.Copy loop is: at the top of the loop (with the time its last write was begun),
  blocked in Read, holding a chunk it has read, blocked in Write (since when), or returned.
\<close>

datatype copier = Looping int | Reading int | Holding string | Writing string int | Ended copy_end

text \<open>
  se_taken and se_sent are the bytes a direction has read and those its io.Copy has counted as
  written. se_forwarded is a history variable: the latest time at which a write was begun that
  was completed and followed by the next Read.
\<close>

record session =
  se_now :: int
  se_deadline :: "side \<Rightarrow> int option"
  se_closed :: bool
  se_copier :: "way \<Rightarrow> copier"
  se_taken :: "way \<Rightarrow> string"
  se_sent :: "way \<Rightarrow> string"
  se_forwarded :: int

definition session_start :: "int \<Rightarrow> session" where
  "session_start t =
     \<lparr>se_now = t, se_deadline = (\<lambda>_. None), se_closed = False, se_copier = (\<lambda>_. Looping t),
      se_taken = (\<lambda>_. []), se_sent = (\<lambda>_. []), se_forwarded = t\<rparr>"

section \<open>The idle timeout (connio.go)\<close>

text \<open>A connection of package net on the state of the network: the clock, the deadline, and the two transfers.\<close>

record 'w net_conn =
  nc_Now :: "'w \<Rightarrow> 'w \<times> int"
  nc_SetDeadline :: "int \<Rightarrow> 'w \<Rightarrow> 'w \<times> string option"
  nc_Read :: "nat \<Rightarrow> 'w \<Rightarrow> 'w \<times> string \<times> string option"
  nc_Write :: "string \<Rightarrow> 'w \<Rightarrow> 'w \<times> nat \<times> string option"

definition extendDeadline :: "'w net_conn \<Rightarrow> duration \<Rightarrow> 'w \<Rightarrow> 'w \<times> string option" where
  "extendDeadline conn idleTimeout w = (case nc_Now conn w of (w, now) \<Rightarrow> nc_SetDeadline conn (now + idleTimeout) w)"

definition timeoutConn_Read :: "'w net_conn \<Rightarrow> duration \<Rightarrow> nat \<Rightarrow> 'w \<Rightarrow> 'w \<times> string \<times> string option" where
  "timeoutConn_Read conn idleTimeout n w =
     (case extendDeadline conn idleTimeout w of (w, Some err) \<Rightarrow> (w, [], Some err) | (w, None) \<Rightarrow> nc_Read conn n w)"

definition timeoutConn_Write :: "'w net_conn \<Rightarrow> duration \<Rightarrow> string \<Rightarrow> 'w \<Rightarrow> 'w \<times> nat \<times> string option" where
  "timeoutConn_Write conn idleTimeout b w =
     (case extendDeadline conn idleTimeout w of (w, Some err) \<Rightarrow> (w, 0, Some err) | (w, None) \<Rightarrow> nc_Write conn b w)"

text \<open>
  A connection of the session. SetDeadline fails once the connection is closed, and it replaces
  the deadline of a pending call of the other copier too. Read and Write block, so their results
  are the events below.
\<close>

definition session_conn :: "side \<Rightarrow> session net_conn" where
  "session_conn c = \<lparr>nc_Now = (\<lambda>se. (se, se_now se)),
     nc_SetDeadline = (\<lambda>d se. if se_closed se then (se, Some ''use of closed network connection'')
       else (se\<lparr>se_deadline := (se_deadline se)(c := Some d)\<rparr>, None)),
     nc_Read = (\<lambda>n se. (se, [], None)), nc_Write = (\<lambda>b se. (se, length b, None))\<rparr>"

text \<open>
  What a call does before the connection's own method: handleConnection wraps the readers and
  the writers of both directions, when the timeout is positive.
\<close>

definition begin_Read :: "duration \<Rightarrow> side \<Rightarrow> session \<Rightarrow> session \<times> string option" where
  "begin_Read idle c se = (if idle > 0 then extendDeadline (session_conn c) idle se else (se, None))"

definition begin_Write :: "duration \<Rightarrow> side \<Rightarrow> session \<Rightarrow> session \<times> string option" where
  "begin_Write idle c se = (if idle > 0 then extendDeadline (session_conn c) idle se else (se, None))"

section \<open>The copy (proxy.go)\<close>

text \<open>The buffer of io.Copy.\<close>

definition copyBuffer :: nat where
  "copyBuffer = 32768"

text \<open>
  Elapse lets time pass, Begin is the next call of a copier, Data, AtEof and Wrote are its
  results, Fault and Expire its failures after n bytes of a pending write, HangUp the return of
  handleConnection, which closes both connections.
\<close>

datatype copy_event = Elapse nat | Begin way | Data way string | AtEof way | Wrote way
  | Fault way nat | Expire way nat | HangUp

definition put :: "way \<Rightarrow> copier \<Rightarrow> session \<Rightarrow> session" where
  "put w c se = se\<lparr>se_copier := (se_copier se)(w := c)\<rparr>"

definition count_sent :: "way \<Rightarrow> string \<Rightarrow> session \<Rightarrow> session" where
  "count_sent w bs se = se\<lparr>se_sent := (se_sent se)(w := se_sent se w @ bs)\<rparr>"

text \<open>A call that fails ends the copy; what a pending write got through is counted.\<close>

definition end_copy :: "way \<Rightarrow> copy_end \<Rightarrow> nat \<Rightarrow> session \<Rightarrow> session option" where
  "end_copy w e n se = (case se_copier se w of
      Reading _ \<Rightarrow> Some (put w (Ended e) se)
    | Writing bs _ \<Rightarrow> (if n < length bs then Some (put w (Ended e) (count_sent w (take n bs) se)) else None)
    | _ \<Rightarrow> None)"

definition begin_call :: "duration \<Rightarrow> way \<Rightarrow> session \<Rightarrow> session option" where
  "begin_call idle w se = (case se_copier se w of
      Looping t \<Rightarrow> Some (case begin_Read idle (way_src w) se of
          (se, Some err) \<Rightarrow> put w (Ended Broken) se
        | (se, None) \<Rightarrow> put w (Reading t) (se\<lparr>se_forwarded := max (se_forwarded se) t\<rparr>))
    | Holding bs \<Rightarrow> Some (case begin_Write idle (way_dst w) se of
          (se, Some err) \<Rightarrow> put w (Ended Broken) se
        | (se, None) \<Rightarrow> put w (Writing bs (se_now se)) se)
    | _ \<Rightarrow> None)"

text \<open>The connection a copier is blocked on.\<close>

definition blocked_on :: "way \<Rightarrow> session \<Rightarrow> side option" where
  "blocked_on w se = (case se_copier se w of
      Reading _ \<Rightarrow> Some (way_src w) | Writing _ _ \<Rightarrow> Some (way_dst w) | _ \<Rightarrow> None)"

definition expired :: "way \<Rightarrow> session \<Rightarrow> bool" where
  "expired w se = (case blocked_on w se of None \<Rightarrow> False | Some c \<Rightarrow>
      (case se_deadline se c of None \<Rightarrow> False | Some d \<Rightarrow> d \<le> se_now se))"

definition has_ended :: "session \<Rightarrow> way \<Rightarrow> bool" where
  "has_ended se w = (case se_copier se w of Ended _ \<Rightarrow> True | _ \<Rightarrow> False)"

fun copy_step :: "duration \<Rightarrow> copy_event \<Rightarrow> session \<Rightarrow> session option" where
  "copy_step idle (Elapse k) se = Some (se\<lparr>se_now := se_now se + int k\<rparr>)"
| "copy_step idle (Begin w) se = begin_call idle w se"
| "copy_step idle (Data w bs) se = (case se_copier se w of
      Reading _ \<Rightarrow> (if bs \<noteq> [] \<and> length bs \<le> copyBuffer \<and> \<not> se_closed se
        then Some (put w (Holding bs) (se\<lparr>se_taken := (se_taken se)(w := se_taken se w @ bs)\<rparr>)) else None)
    | _ \<Rightarrow> None)"
| "copy_step idle (AtEof w) se = (case se_copier se w of
      Reading _ \<Rightarrow> (if se_closed se then None else end_copy w Eof 0 se) | _ \<Rightarrow> None)"
| "copy_step idle (Wrote w) se = (case se_copier se w of
      Writing bs t \<Rightarrow> (if se_closed se then None else Some (put w (Looping t) (count_sent w bs se)))
    | _ \<Rightarrow> None)"
| "copy_step idle (Fault w n) se = end_copy w Broken n se"
| "copy_step idle (Expire w n) se = (if expired w se then end_copy w TimedOut n se else None)"
| "copy_step idle HangUp se = (if has_ended se Up \<or> has_ended se Down then Some (se\<lparr>se_closed := True\<rparr>) else None)"

fun copy_run :: "duration \<Rightarrow> copy_event list \<Rightarrow> session \<Rightarrow> session option" where
  "copy_run idle [] se = Some se"
| "copy_run idle (e # es) se = (case copy_step idle e se of None \<Rightarrow> None | Some se \<Rightarrow> copy_run idle es se)"

text \<open>
  The handler of a connection with the copy in place: the byte counters are those of the two
  directions of the session.
\<close>

definition serveConnection :: "(string \<Rightarrow> bool) \<Rightarrow> int \<Rightarrow> copy_event list \<Rightarrow> tcpProxy \<Rightarrow> (tcpProxy \<times> string option) option" where
  "serveConnection dial t0 es p =
     (case copy_run (tp_idleTimeout p) es (session_start t0) of
        None \<Rightarrow> None
      | Some se \<Rightarrow> Some (handleConnection dial (length (se_sent se Up)) (length (se_sent se Down)) p))"

section \<open>What every schedule keeps\<close>

text \<open>
  Deadlines lie at most one timeout ahead and at least one timeout after the last forwarded
  chunk; a copier's own last write lies in the past, the connection it wrote to has been armed
  since, and so has the connection it is blocked on.
\<close>

definition armed_ok :: "int \<Rightarrow> session \<Rightarrow> bool" where
  "armed_ok idle se = (se_forwarded se \<le> se_now se \<and> (\<forall>c d. se_deadline se c = Some d \<longrightarrow>
     0 < idle \<and> d \<le> se_now se + idle \<and> se_forwarded se + idle \<le> d))"

definition written_ok :: "int \<Rightarrow> int \<Rightarrow> (side \<Rightarrow> int option) \<Rightarrow> side \<Rightarrow> int \<Rightarrow> bool" where
  "written_ok idle now ds c t = (t \<le> now \<and> (\<forall>d. ds c = Some d \<longrightarrow> t + idle \<le> d))"

definition waits_ok :: "int \<Rightarrow> (side \<Rightarrow> int option) \<Rightarrow> side \<Rightarrow> bool" where
  "waits_ok idle ds c = (0 < idle \<longrightarrow> ds c \<noteq> None)"

fun copier_ok :: "int \<Rightarrow> int \<Rightarrow> (side \<Rightarrow> int option) \<Rightarrow> way \<Rightarrow> copier \<Rightarrow> bool" where
  "copier_ok idle now ds w (Looping t) = written_ok idle now ds (way_dst w) t"
| "copier_ok idle now ds w (Reading t) = (written_ok idle now ds (way_dst w) t \<and> waits_ok idle ds (way_src w))"
| "copier_ok idle now ds w (Writing bs t) = (written_ok idle now ds (way_dst w) t \<and> waits_ok idle ds (way_dst w))"
| "copier_ok idle now ds w _ = True"

text \<open>What has been read and not yet written is in the copier's hand.\<close>

fun bytes_ok :: "copier \<Rightarrow> string \<Rightarrow> string \<Rightarrow> bool" where
  "bytes_ok (Holding bs) taken sent = (taken = sent @ bs)"
| "bytes_ok (Writing bs t) taken sent = (taken = sent @ bs)"
| "bytes_ok (Ended e) taken sent = (\<exists>rest. taken = sent @ rest)"
| "bytes_ok _ taken sent = (taken = sent)"

definition session_inv :: "int \<Rightarrow> session \<Rightarrow> bool" where
  "session_inv idle se = (armed_ok idle se \<and> (\<forall>w.
     copier_ok idle (se_now se) (se_deadline se) w (se_copier se w) \<and>
     bytes_ok (se_copier se w) (se_taken se w) (se_sent se w)))"

lemma session_start_inv: "session_inv idle (session_start t)"
  by (simp add: session_inv_def session_start_def armed_ok_def written_ok_def)

lemma bytes_ok_prefix: "bytes_ok c taken sent \<Longrightarrow> \<exists>rest. taken = sent @ rest"
  by (cases c) auto

text \<open>Time passes and deadlines are renewed without harm to a copier.\<close>

lemma copier_ok_later:
  assumes "copier_ok idle now ds w c" and "now \<le> now'"
    and "\<And>s. ds' s = ds s \<or> ds' s = Some (now + idle)"
  shows "copier_ok idle now' ds' w c"
proof -
  have "written_ok idle now' ds' s t" if "written_ok idle now ds s t" for s t
    using that assms(2) assms(3) [of s] by (auto simp: written_ok_def)
  moreover have "waits_ok idle ds' s" if "waits_ok idle ds s" for s
    using that assms(3) [of s] by (auto simp: waits_ok_def)
  ultimately show ?thesis using assms(1) by (cases c) auto
qed

text \<open>One copier moves, at the same time and under the same deadlines.\<close>

lemma session_inv_put:
  assumes inv: "session_inv idle se"
    and same: "se_now se' = se_now se" "se_deadline se' = se_deadline se" "se_forwarded se' = se_forwarded se"
      "\<And>v. v \<noteq> w \<Longrightarrow> se_copier se' v = se_copier se v \<and> se_taken se' v = se_taken se v \<and> se_sent se' v = se_sent se v"
    and moved: "copier_ok idle (se_now se) (se_deadline se) w (se_copier se' w)"
      "bytes_ok (se_copier se' w) (se_taken se' w) (se_sent se' w)"
  shows "session_inv idle se'"
proof -
  have "copier_ok idle (se_now se') (se_deadline se') v (se_copier se' v) \<and>
     bytes_ok (se_copier se' v) (se_taken se' v) (se_sent se' v)" for v
    using inv same(1,2) same(4) [of v] moved by (cases "v = w") (simp_all add: session_inv_def)
  then show ?thesis using inv same by (simp add: session_inv_def armed_ok_def)
qed

text \<open>A call renews the deadline of its connection; the last forwarded chunk is one begun at t.\<close>

definition renewed :: "int \<Rightarrow> side \<Rightarrow> session \<Rightarrow> session" where
  "renewed idle c se =
     (if 0 < idle then se\<lparr>se_deadline := (se_deadline se)(c := Some (se_now se + idle))\<rparr> else se)"

lemma renewed_simps [simp]:
  "se_now (renewed idle c se) = se_now se" "se_copier (renewed idle c se) = se_copier se"
  "se_taken (renewed idle c se) = se_taken se" "se_sent (renewed idle c se) = se_sent se"
  "se_forwarded (renewed idle c se) = se_forwarded se"
  "renewed idle c se\<lparr>se_forwarded := se_forwarded se\<rparr> = renewed idle c se"
  by (simp_all add: renewed_def)

lemma renewed_deadline:
  "se_deadline (renewed idle c se) s = (if 0 < idle \<and> s = c then Some (se_now se + idle) else se_deadline se s)"
  by (simp add: renewed_def)

lemma begin_result:
  "begin_Read idle c se = (se', err) \<Longrightarrow> se' = (if err = None then renewed idle c se else se)"
  "begin_Write idle c se = (se', err) \<Longrightarrow> se' = (if err = None then renewed idle c se else se)"
  by (auto simp: begin_Read_def begin_Write_def extendDeadline_def session_conn_def renewed_def split: if_splits)

lemma session_copier:
  "session_inv idle se \<Longrightarrow> se_copier se w = c \<Longrightarrow>
   copier_ok idle (se_now se) (se_deadline se) w c \<and> bytes_ok c (se_taken se w) (se_sent se w)"
  by (auto simp: session_inv_def)

lemma session_inv_renewed:
  assumes inv: "session_inv idle se" and t: "t \<le> se_now se"
    and other: "\<And>s d. s \<noteq> c \<Longrightarrow> se_deadline se s = Some d \<Longrightarrow> t + idle \<le> d"
  shows "session_inv idle (renewed idle c se\<lparr>se_forwarded := max (se_forwarded se) t\<rparr>)" (is "session_inv idle ?se")
proof -
  have "copier_ok idle (se_now ?se) (se_deadline ?se) w (se_copier ?se w)" for w
    using copier_ok_later [OF conjunct1 [OF session_copier [OF inv refl]] order_refl,
      where ds' = "se_deadline (renewed idle c se)"] by (simp add: renewed_deadline)
  moreover have "bytes_ok (se_copier ?se w) (se_taken ?se w) (se_sent ?se w)" for w
    using inv by (simp add: session_inv_def)
  moreover have "armed_ok idle ?se"
  proof -
    have "0 < idle \<and> d \<le> se_now se + idle \<and> max (se_forwarded se) t + idle \<le> d"
      if d: "se_deadline (renewed idle c se) s = Some d" for s d
    proof (cases "0 < idle \<and> s = c")
      case True
      then show ?thesis using d inv t by (auto simp: renewed_deadline session_inv_def armed_ok_def max_def)
    next
      case False
      then have old: "se_deadline se s = Some d" using d by (simp add: renewed_deadline split: if_splits)
      then have now: "0 < idle" using inv by (auto simp: session_inv_def armed_ok_def)
      then show ?thesis using False old other [of s d] inv by (auto simp: session_inv_def armed_ok_def max_def)
    qed
    then show ?thesis using inv t by (auto simp: session_inv_def armed_ok_def)
  qed
  ultimately show ?thesis by (simp add: session_inv_def)
qed

lemma way_src_dst: "s \<noteq> way_src w \<Longrightarrow> s = way_dst w"
  by (cases w; cases s) simp_all

lemma take_rest: "\<exists>rest. xs = take n xs @ rest"
  by (metis append_take_drop_id)

lemma end_copy_inv:
  assumes inv: "session_inv idle se" and "end_copy w e n se = Some se'"
  shows "session_inv idle se'"
proof (rule session_inv_put [OF inv])
  show "bytes_ok (se_copier se' w) (se_taken se' w) (se_sent se' w)"
    using assms session_copier [OF inv refl, of w]
    by (auto simp: end_copy_def put_def count_sent_def split: copier.splits if_splits intro: take_rest)
qed (use assms in \<open>auto simp: end_copy_def put_def count_sent_def split: copier.splits if_splits\<close>)

lemma put_inv:
  assumes "session_inv idle se" and "copier_ok idle (se_now se) (se_deadline se) w c"
    and "bytes_ok c (se_taken se w) (se_sent se w)"
  shows "session_inv idle (put w c se)"
  by (rule session_inv_put [OF assms(1), where w = w]) (simp_all add: put_def assms)

lemma begin_call_inv:
  assumes inv: "session_inv idle se" and step: "begin_call idle w se = Some se'"
  shows "session_inv idle se'"
proof (cases "se_copier se w")
  case (Looping t)
  from session_copier [OF inv Looping] have t: "t \<le> se_now se"
    and dst: "\<And>d. se_deadline se (way_dst w) = Some d \<Longrightarrow> t + idle \<le> d"
    and bytes: "se_taken se w = se_sent se w" by (auto simp: written_ok_def)
  show ?thesis
  proof (cases "begin_Read idle (way_src w) se")
    case call: (Pair s err)
    note s = begin_result(1) [OF call]
    show ?thesis
    proof (cases err)
      case (Some e)
      then show ?thesis using step Looping bytes call s by (auto simp: begin_call_def intro!: put_inv [OF inv])
    next
      case None
      let ?s = "renewed idle (way_src w) se\<lparr>se_forwarded := max (se_forwarded se) t\<rparr>"
      have "session_inv idle ?s"
        by (rule session_inv_renewed [OF inv t]) (auto dest: way_src_dst dst)
      moreover have "copier_ok idle (se_now ?s) (se_deadline ?s) w (Reading t)"
        using t dst by (auto simp: written_ok_def waits_ok_def renewed_deadline)
      ultimately have "session_inv idle (put w (Reading t) ?s)"
        by (rule put_inv) (simp add: bytes)
      then show ?thesis using step Looping call s None by (simp add: begin_call_def)
    qed
  qed
next
  case (Holding bs)
  from session_copier [OF inv Holding] have bytes: "se_taken se w = se_sent se w @ bs" by simp
  show ?thesis
  proof (cases "begin_Write idle (way_dst w) se")
    case call: (Pair s err)
    note s = begin_result(2) [OF call]
    show ?thesis
    proof (cases err)
      case (Some e)
      then show ?thesis using step Holding bytes call s by (auto simp: begin_call_def intro!: put_inv [OF inv])
    next
      case None
      let ?s = "renewed idle (way_dst w) se"
      have "session_inv idle (?s\<lparr>se_forwarded := max (se_forwarded se) (se_forwarded se)\<rparr>)"
        using inv by (intro session_inv_renewed) (auto simp: session_inv_def armed_ok_def)
      then have "session_inv idle ?s" by simp
      moreover have "copier_ok idle (se_now ?s) (se_deadline ?s) w (Writing bs (se_now se))"
        using inv by (auto simp: written_ok_def waits_ok_def renewed_deadline session_inv_def armed_ok_def)
      ultimately have "session_inv idle (put w (Writing bs (se_now se)) ?s)"
        by (rule put_inv) (simp add: bytes)
      then show ?thesis using step Holding call s None by (simp add: begin_call_def)
    qed
  qed
qed (use step in \<open>auto simp: begin_call_def\<close>)

lemma copy_step_inv:
  assumes inv: "session_inv idle se" and step: "copy_step idle e se = Some se'"
  shows "session_inv idle se'"
proof (cases e)
  case (Elapse k)
  then have "se' = se\<lparr>se_now := se_now se + int k\<rparr>" using step by simp
  then show ?thesis using inv
    by (fastforce simp: session_inv_def armed_ok_def intro: copier_ok_later [where now = "se_now se"])
next
  case (Begin w)
  then show ?thesis using begin_call_inv [OF inv] step by simp
next
  case (Data w bs)
  then show ?thesis using step session_copier [OF inv refl, of w]
    by (intro session_inv_put [OF inv, where w = w]) (auto simp: put_def split: copier.splits if_splits)
next
  case (AtEof w)
  then show ?thesis using end_copy_inv [OF inv] step by (auto split: copier.splits if_splits)
next
  case (Wrote w)
  then show ?thesis using step session_copier [OF inv refl, of w]
    by (intro session_inv_put [OF inv, where w = w]) (auto simp: put_def count_sent_def split: copier.splits if_splits)
next
  case (Fault w n)
  then show ?thesis using end_copy_inv [OF inv] step by simp
next
  case (Expire w n)
  then show ?thesis using end_copy_inv [OF inv] step by (auto split: if_splits)
next
  case HangUp
  then show ?thesis using inv step by (auto simp: session_inv_def armed_ok_def split: if_splits)
qed

lemma copy_run_inv: "session_inv idle se \<Longrightarrow> copy_run idle es se = Some se' \<Longrightarrow> session_inv idle se'"
  by (induction es arbitrary: se) (auto split: option.splits dest: copy_step_inv)

lemma handleConnection_bytes:
  "handleConnection dial n m p = (p', Some addr) \<Longrightarrow> tp_metrics p = Some pm \<Longrightarrow>
   map_option pm_BytesTransferred (tp_metrics p') = Some (pm_BytesTransferred pm + int n + int m)"
  by (auto simp: handleConnection_def conn_pick_def conn_accept_def conn_dial_def conn_error_def conn_copied_def
      conn_close_def upd_metrics_def getNextBackend_def Let_def split: prod.splits conn_phase.splits if_splits option.splits)

text \<open>The byte counter of the proxy grows by what the two copies have sent.\<close>

lemma serveConnection_bytes:
  assumes "serveConnection dial t0 es p = Some (p', Some addr)" and "tp_metrics p = Some pm"
  obtains se where "copy_run (tp_idleTimeout p) es (session_start t0) = Some se"
    and "map_option pm_BytesTransferred (tp_metrics p') =
      Some (pm_BytesTransferred pm + int (length (se_sent se Up)) + int (length (se_sent se Down)))"
  using assms handleConnection_bytes by (auto simp: serveConnection_def split: option.splits)

text \<open>
  The handler returns when one direction is done. A client that closes its sending side after
  the request ends the copy upwards, and the response, already read from the backend, is lost.
\<close>

lemma half_close_loses_response:
  "map_option (\<lambda>se. (se_taken se Down, se_sent se Down, se_copier se Down))
     (copy_run 300 [Begin Up, Begin Down, Data Up ''request'', Begin Up, Wrote Up, Begin Up, AtEof Up,
        Data Down ''response'', HangUp, Begin Down] (session_start 0)) = Some (''response'', [], Ended Broken)"
  by (simp add: session_start_def begin_call_def begin_Read_def begin_Write_def extendDeadline_def
      session_conn_def put_def count_sent_def end_copy_def has_ended_def copyBuffer_def)


definition quiet_events :: "copy_event list" where
  "quiet_events = [Begin Up, Begin Down, Elapse 10, Data Up ''request'', Begin Up, Wrote Up, Begin Up, Elapse 300]"

lemma quiet_run: "\<exists>se. copy_run 300 quiet_events (session_start 0) = Some se \<and> expired Down se \<and>
    blocked_on Down se = Some Backend \<and> se_forwarded se = 10"
  by (simp add: quiet_events_def session_start_def begin_call_def begin_Read_def begin_Write_def extendDeadline_def
      session_conn_def put_def count_sent_def copyBuffer_def expired_def blocked_on_def)


end
