(* ===== verification/Cli.thy ===== *)
theory Cli
  imports Lifecycle
begin

text \<open>
  The command line (cli.go): ports, ranges and port mappings, the name of the application, the
  configuration of each command, the dispatch, and the listing of containers over the admin API.
  The parser of flags is a parameter: its result is the record of options and the remaining
  arguments. The help text and the banner are not modelled.
\<close>

section \<open>Options\<close>

record cli =
  cl_command :: string
  cl_args :: "string list"
  cl_Name :: string
  cl_LogLevel :: string
  cl_LogFormat :: string
  cl_Interval :: goint
  cl_Ports :: "string list"
  cl_Registry :: string
  cl_Cache :: string
  cl_Notifier :: string
  cl_BeforeDeployHook :: string
  cl_AfterDeployHook :: string
  cl_Replicas :: goint
  cl_HealthPath :: string
  cl_HealthTimeout :: goint
  cl_DrainTime :: goint
  cl_ContainerRuntime :: string
  cl_ProxyIdleTimeout :: goint
  cl_Cmd :: "string list"
  cl_AdminPort :: goint
  cl_Slot :: string
  cl_CalVer :: string
  cl_Telemetry :: bool
  cl_OTLPEndpoint :: string
  cl_OTLPInsecure :: bool
  cl_Help :: bool
  cl_Version :: bool

definition ShortCommit :: "string \<Rightarrow> string" where
  "ShortCommit commit = (if length commit > 7 then take 7 commit else commit)"

text \<open>The text of an error of strconv.Atoi.\<close>

definition atoi_error_text :: "string \<Rightarrow> string" where
  "atoi_error_text s = ''strconv.Atoi: parsing '' @ goQuote s @ '': '' @
     (case atoi_sign s of (_, ds) \<Rightarrow> if ds = [] \<or> \<not> list_all is_digit ds then ''invalid syntax'' else ''value out of range'')"

section \<open>Ports\<close>

definition validatePortNumber :: "goint \<Rightarrow> string option" where
  "validatePortNumber port =
     (if port < 1 \<or> port > 65535 then Some (''port number must be between 1 and 65535, got '' @ itoa port) else None)"

definition validatePort :: "string \<Rightarrow> string option" where
  "validatePort port = (case atoi_opt port of
     None \<Rightarrow> Some (''invalid port number: '' @ port) | Some portNum \<Rightarrow> validatePortNumber portNum)"

text \<open>The loop over the ports of a range.\<close>

fun rangePorts :: "string \<Rightarrow> goint list \<Rightarrow> string + string list" where
  "rangePorts rangeSpec [] = Inr []"
| "rangePorts rangeSpec (i # is) = (case validatePortNumber i of
     Some err \<Rightarrow> Inl (''invalid port '' @ itoa i @ '' in range '' @ rangeSpec @ '': '' @ err)
   | None \<Rightarrow> map_sum id (Cons (itoa i)) (rangePorts rangeSpec is))"

definition parsePortRange :: "string \<Rightarrow> string + string list" where
  "parsePortRange rangeSpec =
     (case splitC (CHR ''-'') rangeSpec of
        [a, b] \<Rightarrow>
          (let startStr = trimSpace a; endStr = trimSpace b in
           (case atoi_opt startStr of
              None \<Rightarrow> Inl (''invalid start port in range '' @ rangeSpec @ '': '' @ atoi_error_text startStr)
            | Some start \<Rightarrow> (case atoi_opt endStr of
                None \<Rightarrow> Inl (''invalid end port in range '' @ rangeSpec @ '': '' @ atoi_error_text endStr)
              | Some end \<Rightarrow>
                  if start > end then Inl (''start port ('' @ itoa start @ '') cannot be greater than end port ('' @ itoa end @ '')'')
                  else if wrap64 (end - start) > 100
                  then Inl (''port range too large ('' @ itoa (wrap64 (end - start + 1)) @ '' ports), maximum allowed is 100'')
                  else rangePorts rangeSpec [start..end])))
      | _ \<Rightarrow> Inl (''invalid port range format: '' @ rangeSpec))"

definition parsePortPart :: "string \<Rightarrow> string + string list" where
  "parsePortPart p =
     (let part = trimSpace p in
      if part = [] then Inr []
      else if strContains part ''-'' then parsePortRange part
      else (case validatePort part of Some err \<Rightarrow> Inl err | None \<Rightarrow> Inr [part]))"

text \<open>A loop that concatenates the results of its elements and ends at the first error.\<close>

fun collect :: "('a \<Rightarrow> string + 'b list) \<Rightarrow> 'a list \<Rightarrow> string + 'b list" where
  "collect f [] = Inr []"
| "collect f (x # xs) = (case f x of Inl err \<Rightarrow> Inl err | Inr ys \<Rightarrow> map_sum id (append ys) (collect f xs))"

definition parsePortSpec :: "string \<Rightarrow> string + string list" where
  "parsePortSpec spec = (if spec = [] then Inr [] else collect parsePortPart (splitC (CHR '','') spec))"

text \<open>rangeKeys is the order in which the map of unique ports is iterated.\<close>

definition validateAndDeduplicatePorts :: "(string list \<Rightarrow> string list) \<Rightarrow> string list \<Rightarrow> string list" where
  "validateAndDeduplicatePorts rangeKeys ports =
     (if ports = [] then ports else sort_key (\<lambda>p. fst (atoi p)) (rangeKeys (remdups ports)))"

definition parsePorts :: "(string list \<Rightarrow> string list) \<Rightarrow> string list \<Rightarrow> string + string list" where
  "parsePorts rangeKeys portSpecs =
     (if portSpecs = [] then Inr []
      else map_sum id (validateAndDeduplicatePorts rangeKeys) (collect parsePortSpec portSpecs))"

section \<open>Port mappings\<close>

text \<open>A number in a mapping; what names the part of the mapping in errors.\<close>

definition mappingPort :: "string \<Rightarrow> string \<Rightarrow> string \<Rightarrow> string + goint" where
  "mappingPort what spec s =
     (case atoi_opt (trimSpace s) of
        None \<Rightarrow> Inl (''invalid '' @ what @ '' port in '' @ spec @ '': '' @ atoi_error_text (trimSpace s))
      | Some p \<Rightarrow> (case validatePortNumber p of
          Some err \<Rightarrow> Inl (''invalid '' @ what @ '' port in '' @ spec @ '': '' @ err) | None \<Rightarrow> Inr p))"

definition parsePortMapping :: "string \<Rightarrow> string + PortMapping" where
  "parsePortMapping spec =
     (if strContains spec '':'' then
        (case splitC (CHR '':'') spec of
           [a, b] \<Rightarrow> (case mappingPort ''proxy'' spec a of
               Inl err \<Rightarrow> Inl err
             | Inr proxyPort \<Rightarrow> (case mappingPort ''container'' spec b of
                 Inl err \<Rightarrow> Inl err
               | Inr containerPort \<Rightarrow> Inr \<lparr>ProxyPort = proxyPort, ContainerPort = containerPort\<rparr>))
         | _ \<Rightarrow> Inl (''invalid port mapping format: '' @ spec @ '' (expected proxy:container)''))
      else (case atoi_opt spec of
          None \<Rightarrow> Inl (''invalid port: '' @ spec)
        | Some proxyPort \<Rightarrow> (case validatePortNumber proxyPort of
            Some err \<Rightarrow> Inl (''invalid port: '' @ err)
          | None \<Rightarrow> Inr \<lparr>ProxyPort = proxyPort, ContainerPort = 0\<rparr>)))"

fun parseMappings :: "goint set \<Rightarrow> string list \<Rightarrow> string + PortMapping list" where
  "parseMappings proxyPorts [] = Inr []"
| "parseMappings proxyPorts (s # specs) =
     (let spec = trimSpace s in
      if spec = [] then parseMappings proxyPorts specs
      else (case parsePortMapping spec of
          Inl err \<Rightarrow> Inl err
        | Inr m \<Rightarrow>
            if ProxyPort m \<in> proxyPorts then Inl (''duplicate proxy port: '' @ itoa (ProxyPort m))
            else map_sum id (Cons m) (parseMappings (insert (ProxyPort m) proxyPorts) specs)))"

definition parsePortMappings :: "string list \<Rightarrow> string + PortMapping list" where
  "parsePortMappings portSpecs = (if portSpecs = [] then Inr [] else parseMappings {} portSpecs)"

section \<open>The name of the application\<close>

text \<open>The part of a string before the first occurrence of a character, as with strings.Index.\<close>

definition before :: "char \<Rightarrow> string \<Rightarrow> string" where
  "before c s = (case strIndex s [c] of Some i \<Rightarrow> take i s | None \<Rightarrow> s)"

definition extractAppNameFromRegistry :: "string \<Rightarrow> string" where
  "extractAppNameFromRegistry registryURL =
     (case splitN2 registryURL ''://'' of
        [schem, path] \<Rightarrow>
          if schem = ''img'' then before (CHR '':'') (last (splitC (CHR ''/'') (before (CHR ''?'') path)))
          else if schem = ''ghr'' \<and> length (splitC (CHR ''/'') path) \<ge> 2 then splitC (CHR ''/'') path ! 1
          else if schem = ''s3'' then (case find (\<lambda>p. p \<noteq> []) (rev (splitC (CHR ''/'') path)) of Some p \<Rightarrow> p | None \<Rightarrow> [])
          else []
      | _ \<Rightarrow> [])"

section \<open>The configuration of a command\<close>

definition configureServerCommand :: "(string list \<Rightarrow> string list) \<Rightarrow> cli \<Rightarrow> Config \<Rightarrow> string + Config" where
  "configureServerCommand rangeKeys c conf =
     (case (if cl_Ports c \<noteq> [] then parsePorts rangeKeys (cl_Ports c) else Inr []) of
        Inl err \<Rightarrow> Inl (''Error: invalid port specification: '' @ err)
      | Inr parsedPorts \<Rightarrow>
          Inr (conf\<lparr>cg_Command := SERVER, cg_Starter := Some \<lparr>sc_args = drop 1 (cl_args c),
            sc_command = (case cl_args c of [] \<Rightarrow> [] | command # _ \<Rightarrow> command), sc_dir = [], sc_interval = 0, sc_logformat = cl_LogFormat c,
            sc_pidfile = [], sc_ports = parsedPorts, sc_paths = [], sc_sigonhup = [], sc_sigonterm = [], sc_statusfile = []\<rparr>\<rparr>))"

definition orDefault :: "goint \<Rightarrow> goint \<Rightarrow> goint" where
  "orDefault x d = (if x = 0 then d else x)"

definition containerAppName :: "cli \<Rightarrow> string" where
  "containerAppName c =
     (if cl_Name c \<noteq> [] then cl_Name c
      else let name = extractAppNameFromRegistry (cl_Registry c) in if name = [] then ''app'' else name)"

definition proxyIdleTimeoutOf :: "goint \<Rightarrow> duration" where
  "proxyIdleTimeoutOf t = (if t = 0 then 0 else if t > 0 then wrap64 (seconds t) else seconds 300)"

definition configureContainerCommand :: "cli \<Rightarrow> Config \<Rightarrow> string + Config" where
  "configureContainerCommand c conf =
     (if cl_Ports c = [] then Inl ''Error: --port option is required for container command''
      else case parsePortMappings (cl_Ports c) of
        Inl err \<Rightarrow> Inl (''Error: failed to parse port mappings: '' @ err)
      | Inr portMappings \<Rightarrow>
          if portMappings = [] then Inl ''Error: no valid port mappings specified''
          else Inr (conf\<lparr>cg_Command := CONTAINER, cg_Container := Some \<lparr>cc_Name = containerAppName c, cc_PortMappings = portMappings,
            cc_Replicas = cl_Replicas c, cc_Command = cl_Cmd c, cc_ExtraArgs = cl_args c, cc_HealthPath = cl_HealthPath c,
            cc_HealthTimeout = wrap64 (seconds (orDefault (cl_HealthTimeout c) 30)),
            cc_DrainTime = wrap64 (seconds (orDefault (cl_DrainTime c) 30)),
            cc_Runtime = (if cl_ContainerRuntime c = [] then ''docker'' else cl_ContainerRuntime c),
            cc_ProxyIdleTimeout = proxyIdleTimeoutOf (cl_ProxyIdleTimeout c)\<rparr>\<rparr>))"

section \<open>The dispatch\<close>

text \<open>
  What a command line asks for: the help after an error line, the version, the listing of
  containers, an error, or an instance with a configuration, an interval, a level and a format of
  the log.
\<close>

datatype cli_action =
    ShowHelp string
  | ShowVersion bool
  | ContainerList
  | CliError string
  | RunInstance Config goint string string

definition cli_config :: "(string list \<Rightarrow> string list) \<Rightarrow> string \<Rightarrow> cli \<Rightarrow> string + Config" where
  "cli_config rangeKeys version c =
     (let conf = DefaultConfig\<lparr>cg_Registry := cl_Registry c, cg_Cache := (cg_Cache DefaultConfig)\<lparr>kc_URL := cl_Cache c\<rparr>,
            cg_Notifier := cl_Notifier c, cg_BeforeDeployHook := cl_BeforeDeployHook c, cg_AfterDeployHook := cl_AfterDeployHook c,
            cg_AdminPort := cl_AdminPort c, cg_Slot := cl_Slot c, cg_CalVer := cl_CalVer c, cg_Version := version\<rparr> in
      if cl_command c = ''server'' then configureServerCommand rangeKeys c conf
      else if cl_command c = ''container'' then configureContainerCommand c conf
      else Inr (conf\<lparr>cg_Command := ASSETS\<rparr>))"

definition cli_run :: "(string list \<Rightarrow> string list) \<Rightarrow> string \<Rightarrow> string + cli \<times> string list \<Rightarrow> cli_action" where
  "cli_run rangeKeys version parsed =
     (case parsed of
        Inl _ \<Rightarrow> ShowHelp []
      | Inr (c, args) \<Rightarrow>
          if cl_Help c then ShowHelp []
          else if cl_Version c then ShowVersion (cl_LogFormat c = ''json'')
          else case args of
            [] \<Rightarrow> ShowHelp ''Error: command is not available''
          | command # rest \<Rightarrow>
              if command \<notin> {''server'', ''assets'', ''container''} then ShowHelp ''Error: command is not available''
              else if command = ''container'' \<and> rest \<noteq> [] \<and> hd rest = ''list'' then ContainerList
              else let c = c\<lparr>cl_Interval := (if cl_Interval c < 0 then 10 else cl_Interval c), cl_command := command, cl_args := rest,
                         cl_LogLevel := (if cl_LogLevel c \<noteq> [] then toUpper (cl_LogLevel c) else ''ERROR''),
                         cl_LogFormat := (if cl_LogFormat c = [] then ''text'' else cl_LogFormat c)\<rparr> in
                if cl_Registry c = [] then ShowHelp ''Error: --registry is not set''
                else (case cli_config rangeKeys version c of
                    Inl err \<Rightarrow> CliError err
                  | Inr conf \<Rightarrow> RunInstance conf (cl_Interval c) (cl_LogLevel c) (cl_LogFormat c)))"

section \<open>The listing of containers\<close>

text \<open>get is the request to the admin API on a port: an error, or a response.\<close>

fun findAdmin :: "(goint \<Rightarrow> 'w \<Rightarrow> 'w \<times> (string + 'r)) \<Rightarrow> goint \<Rightarrow> nat \<Rightarrow> 'w \<Rightarrow> 'w \<times> (goint \<times> 'r) option" where
  "findAdmin get port 0 w = (w, None)"
| "findAdmin get port (Suc left) w = (case get port w of
     (w, Inr resp) \<Rightarrow> (w, Some (port, resp)) | (w, Inl err) \<Rightarrow> findAdmin get (wrap64 (port + 1)) left w)"

definition padRight :: "nat \<Rightarrow> string \<Rightarrow> string" where
  "padRight n s = s @ replicate (n - length s) (CHR '' '')"

text \<open>fmtTime formats a time with the layout 2006-01-02 15:04:05, whose length is that of its results.\<close>

definition deployTimeFormat :: string where "deployTimeFormat = ''2006-01-02 15:04:05''"

definition upstreamWidth :: "Info list \<Rightarrow> nat" where
  "upstreamWidth infos = fold (\<lambda>info w. max w (length (ci_IPPort info))) infos (length ''UPSTREAM'') + 4"

definition deployTimeWidth :: nat where
  "deployTimeWidth = max (length ''DEPLOY TIME'') (length deployTimeFormat) + 4"

definition listRow :: "nat \<Rightarrow> string \<Rightarrow> string \<Rightarrow> string \<Rightarrow> string" where
  "listRow w upstream time name = padRight w upstream @ padRight deployTimeWidth time @ name"

definition displayContainerList :: "(instant \<Rightarrow> string) \<Rightarrow> Info list \<Rightarrow> string list" where
  "displayContainerList fmtTime infos =
     (if infos = [] then [''No containers found.'']
      else let infos = sort_key ci_Name infos; w = upstreamWidth infos in
        listRow w ''UPSTREAM'' ''DEPLOY TIME'' ''NAME'' # map (\<lambda>i. listRow w (ci_IPPort i) (fmtTime (ci_DeployedAt i)) (ci_Name i)) infos)"

definition runContainerList :: "(goint \<Rightarrow> 'w \<Rightarrow> 'w \<times> (string + goint \<times> (string + Info list))) \<Rightarrow> (instant \<Rightarrow> string) \<Rightarrow> goint \<Rightarrow> 'w \<Rightarrow>
    'w \<times> (string + string list)" where
  "runContainerList get fmtTime adminPort w =
     (let port = (if adminPort = 0 then 17539 else adminPort) in
      (case findAdmin get port 10 w of
         (w, None) \<Rightarrow> (w, Inl (''Error: no running dewy instances found (tried ports '' @ itoa port @ ''-'' @ itoa (wrap64 (port + 10 - 1)) @ '')''))
       | (w, Some (successPort, status, body)) \<Rightarrow>
           if status \<noteq> 200 then (w, Inl (''Error: admin API returned status '' @ itoa status))
           else (case body of
               Inl err \<Rightarrow> (w, Inl (''Error: failed to parse response: '' @ err))
             | Inr infos \<Rightarrow> (w, Inr (displayContainerList fmtTime infos @
                 (if successPort \<noteq> port then [[], ''(Connected to admin API on port '' @ itoa successPort @ '')''] else []))))))"

section \<open>Lemmas\<close>

definition valid_port :: "goint \<Rightarrow> bool" where
  "valid_port n = (1 \<le> n \<and> n \<le> 65535)"

lemma validatePortNumber_None: "validatePortNumber n = None \<longleftrightarrow> valid_port n"
  by (auto simp: validatePortNumber_def valid_port_def)

lemma valid_port_int64: "valid_port n \<Longrightarrow> in_int64 n"
  by (simp add: valid_port_def int64_defs)

lemma rangePorts_Inr: "rangePorts spec is = Inr ps \<longleftrightarrow> ps = map itoa is \<and> list_all valid_port is"
proof (induction "is" arbitrary: ps)
  case (Cons i "is")
  then show ?case by (cases "validatePortNumber i"; cases "rangePorts spec is") (auto simp: validatePortNumber_None [symmetric])
qed auto

text \<open>The ports that a part of a specification names.\<close>

definition names_port :: "string \<Rightarrow> string \<Rightarrow> bool" where
  "names_port part p = (let t = trimSpace part in t \<noteq> [] \<and>
     (if CHR ''-'' \<in> set t
      then \<exists>a b m n i. splitC (CHR ''-'') t = [a, b] \<and> atoi_opt (trimSpace a) = Some m \<and> atoi_opt (trimSpace b) = Some n \<and>
        m \<le> i \<and> i \<le> n \<and> p = itoa i
      else p = t))"

definition port_number :: "string \<Rightarrow> bool" where
  "port_number p = (\<exists>n. atoi_opt p = Some n \<and> valid_port n)"

lemma parsePortRange_Inr:
  assumes "parsePortRange t = Inr ps"
  shows "\<exists>a b m n. splitC (CHR ''-'') t = [a, b] \<and> atoi_opt (trimSpace a) = Some m \<and> atoi_opt (trimSpace b) = Some n \<and>
    ps = map itoa [m..n] \<and> list_all valid_port [m..n]"
  using assms by (auto simp: parsePortRange_def Let_def rangePorts_Inr split: list.splits option.splits if_splits)

lemma parsePortPart_Inr:
  assumes "parsePortPart part = Inr ps"
  shows "set ps = {p. names_port part p} \<and> list_all port_number ps"
proof (cases "trimSpace part = [] \<or> CHR ''-'' \<notin> set (trimSpace part)")
  case True
  with assms show ?thesis
    by (auto simp: parsePortPart_def names_port_def Let_def validatePort_def port_number_def validatePortNumber_None
        split: if_splits option.splits)
next
  case False
  with assms have "parsePortRange (trimSpace part) = Inr ps" by (simp add: parsePortPart_def Let_def)
  from parsePortRange_Inr [OF this] obtain a b m n where r: "splitC (CHR ''-'') (trimSpace part) = [a, b]"
      "atoi_opt (trimSpace a) = Some m" "atoi_opt (trimSpace b) = Some n" "ps = map itoa [m..n]" "list_all valid_port [m..n]" by blast
  have "list_all port_number ps" using r(4,5) valid_port_int64 by (auto simp: list_all_iff port_number_def)
  moreover have "set ps = {p. names_port part p}" using False r by (auto simp: names_port_def Let_def)
  ultimately show ?thesis by blast
qed

lemma collect_Inr:
  "collect f xs = Inr ys \<Longrightarrow> (\<And>x zs. f x = Inr zs \<Longrightarrow> set zs = {y. R x y} \<and> list_all P zs) \<Longrightarrow>
   set ys = {y. \<exists>x\<in>set xs. R x y} \<and> list_all P ys"
proof (induction xs arbitrary: ys)
  case (Cons x xs)
  from Cons.prems(1) obtain zs ws where z: "f x = Inr zs" "collect f xs = Inr ws" "ys = zs @ ws"
    by (cases "f x"; cases "collect f xs") auto
  have "set ws = {y. \<exists>x\<in>set xs. R x y} \<and> list_all P ws" using Cons.IH [OF z(2)] Cons.prems(2) by blast
  moreover have "set zs = {y. R x y} \<and> list_all P zs" by (rule Cons.prems(2) [OF z(1)])
  ultimately show ?case unfolding z(3) by (simp add: Un_def)
qed simp

lemma parsePortSpec_Inr:
  assumes "parsePortSpec spec = Inr ps"
  shows "set ps = {p. \<exists>part\<in>set (splitC (CHR '','') spec). names_port part p} \<and> list_all port_number ps"
proof (cases "spec = []")
  case True
  with assms show ?thesis by (simp add: parsePortSpec_def names_port_def trimSpace_def)
next
  case False
  with assms have "collect parsePortPart (splitC (CHR '','') spec) = Inr ps" by (simp add: parsePortSpec_def)
  from collect_Inr [OF this parsePortPart_Inr] show ?thesis by simp
qed

lemma parsePortMapping_Inr:
  "parsePortMapping spec = Inr m \<Longrightarrow> valid_port (ProxyPort m) \<and> (ContainerPort m = 0 \<or> valid_port (ContainerPort m))"
  by (auto simp: parsePortMapping_def mappingPort_def validatePortNumber_None split: if_splits list.splits option.splits sum.splits)

lemma parseMappings_Inr:
  "parseMappings seen specs = Inr ms \<Longrightarrow> distinct (map ProxyPort ms) \<and> set (map ProxyPort ms) \<inter> seen = {} \<and>
     list_all (\<lambda>m. valid_port (ProxyPort m) \<and> (ContainerPort m = 0 \<or> valid_port (ContainerPort m))) ms"
proof (induction seen specs arbitrary: ms rule: parseMappings.induct)
  case (2 seen s specs)
  show ?case
  proof (cases "trimSpace s = []")
    case True
    with 2 show ?thesis by simp
  next
    case False
    with 2(3) obtain m where m: "parsePortMapping (trimSpace s) = Inr m" "ProxyPort m \<notin> seen"
      by (auto simp: Let_def split: sum.splits if_splits)
    with 2(3) False obtain ms' where ms: "parseMappings (insert (ProxyPort m) seen) specs = Inr ms'" "ms = m # ms'"
      by (cases "parseMappings (insert (ProxyPort m) seen) specs") auto
    from 2(2) [OF refl False m ms(1)] parsePortMapping_Inr [OF m(1)] m(2) ms(2) show ?thesis by auto
  qed
qed simp

lemma parsePortMappings_Inr:
  "parsePortMappings specs = Inr ms \<Longrightarrow> distinct (map ProxyPort ms) \<and>
     list_all (\<lambda>m. valid_port (ProxyPort m) \<and> (ContainerPort m = 0 \<or> valid_port (ContainerPort m))) ms"
  using parseMappings_Inr by (auto simp: parsePortMappings_def split: if_splits)

section \<open>Properties\<close>



lemma splitC_suffix: "c \<notin> set t \<Longrightarrow> splitC c (s @ t) = butlast (splitC c s) @ [last (splitC c s) @ t]"
proof (induction s)
  case (Cons x s)
  obtain y ys where "splitC c s = y # ys" using splitC_not_Nil by (metis list.exhaust)
  with Cons show ?case by (cases ys) auto
qed simp

lemma before_hd: "before c s = hd (splitC c s)"
proof (cases "c \<in> set s")
  case False
  then have n: "strIndex s [c] = None" by (simp only: strIndex_char_None not_False_eq_True)
  show ?thesis unfolding before_def n using False by simp
next
  case True
  then obtain a b where s: "s = a @ c # b" "c \<notin> set a" by (meson split_list_first)
  have "strIndex (a @ c # b) [c] = Some (length a)" using s(2) by (induction a) (auto simp: hasPrefix_def)
  with s show ?thesis by (simp add: before_def splitC_append)
qed

text \<open>
  The two derivations of the name of an application agree on images: for an image
  registry whose query, if any, holds no slash, the name that the command line puts into the
  configuration is the one the instance derives from the registry URL itself.
\<close>

lemma appName_agree:
  assumes "CHR ''?'' \<notin> set path" and "CHR ''/'' \<notin> set q" and "rest = path \<or> rest = path @ ''?'' @ q"
  shows "extractAppNameFromRegistry (''img://'' @ rest) = deriveAppNameFromRegistry (''img://'' @ rest)"
proof -
  have s: "splitN2 (''img://'' @ rest) ''://'' = [''img'', rest]" by (simp add: splitN2_def hasPrefix_def)
  have "CHR ''?'' \<notin> set (last (splitC (CHR ''/'') path))"
    using assms(1) splitC_chars [of "last (splitC (CHR ''/'') path)" "CHR ''/''" path] by auto
  moreover have "last (splitC (CHR ''/'') (path @ CHR ''?'' # q)) = last (splitC (CHR ''/'') path) @ CHR ''?'' # q"
    using assms(2) splitC_suffix [of "CHR ''/''" "CHR ''?'' # q" path] by simp
  ultimately have "hd (splitC (CHR ''?'') (last (splitC (CHR ''/'') rest))) = last (splitC (CHR ''/'') (hd (splitC (CHR ''?'') rest)))"
    using assms(1,3) by (auto simp: splitC_append)
  with s show ?thesis by (simp add: extractAppNameFromRegistry_def deriveAppNameFromRegistry_def before_hd)
qed

text \<open>A range of 101 ports is accepted, although the message of the check says that 100 are the maximum.\<close>

theorem parsePortRange_101: "map_sum id length (parsePortRange ''1-101'') = Inr 101"
  by code_simp

text \<open>Duplicates are recognized by their spelling: a port can be listed twice.\<close>

theorem parsePorts_spelling: "parsePorts id [''80,080''] = Inr [''80'', ''080'']"
  by code_simp

text \<open>The name taken from a registry URL of GitHub releases keeps the query.\<close>

theorem extractAppName_query: "extractAppNameFromRegistry ''ghr://linyows/app?artifact=x'' = ''app?artifact=x''"
  by code_simp

end
