(* ===== verification/Cli_Help.thy ===== *)
theory Cli_Help
  imports Cli
begin

text \<open>
  The help text of the command line (cli.go): the table of options with the tags of the struct
  cli, and the text that buildHelp and showHelp make of it. The banner is left out; the
  reflection on the struct is a lookup in the table.
\<close>

section \<open>The table of options\<close>

record cli_option =
  op_field :: string
  op_long :: string
  op_short :: string
  op_arg :: string
  op_description :: string

definition opt :: "string \<Rightarrow> string \<Rightarrow> string \<Rightarrow> string \<Rightarrow> string \<Rightarrow> cli_option" where
  "opt field long short arg description =
     \<lparr>op_field = field, op_long = long, op_short = short, op_arg = arg, op_description = description\<rparr>"

definition cli_options :: "cli_option list" where
  "cli_options =
     [opt ''Name'' ''name'' ''n'' []
        ''Application name for container deployment'',
      opt ''LogLevel'' ''log-level'' ''l'' ''(debug|info|warn|error)''
        ''Set log level for output (default: error)'',
      opt ''LogFormat'' ''log-format'' ''f'' ''(text|json)''
        ''Set log format for output (default: text)'',
      opt ''Interval'' ''interval'' ''i'' ''seconds''
        ''Polling interval in seconds for checking registry updates (default: 10)'',
      opt ''Ports'' ''port'' ''p'' []
        ''For server: TCP ports to listen on. For container: port mappings in format 'proxy' or 'proxy:container' (multiple flags supported)'',
      opt ''Registry'' ''registry'' [] []
        ''Registry URL (e.g., ghr://owner/repo, s3://region/bucket/prefix, docker://registry/repo)'',
      opt ''Cache'' ''cache'' ''c'' []
        ''Cache backend URL (e.g., file:///path, s3://region/bucket/prefix, gs://bucket/prefix). Defaults to local file.'',
      opt ''Notifier'' ''notifier'' [] []
        ''Notifier URL for deployment notifications (e.g., slack://channel, mail://smtp:port/recipient)'',
      opt ''BeforeDeployHook'' ''before-deploy-hook'' [] []
        ''Shell command to execute before deployment begins'',
      opt ''AfterDeployHook'' ''after-deploy-hook'' [] []
        ''Shell command to execute after successful deployment'',
      opt ''Replicas'' ''replicas'' [] []
        ''Number of container replicas to run (default: 1)'',
      opt ''HealthPath'' ''health-path'' [] []
        ''Health check path (optional, e.g., /health)'',
      opt ''HealthTimeout'' ''health-timeout'' [] []
        ''Health check timeout in seconds (default: 30)'',
      opt ''DrainTime'' ''drain-time'' [] []
        ''Drain time in seconds after traffic switch (default: 30 for container command)'',
      opt ''ContainerRuntime'' ''runtime'' [] []
        ''Container runtime (docker or podman, default: docker)'',
      opt ''ProxyIdleTimeout'' ''proxy-idle-timeout'' [] []
        ''Proxy idle timeout in seconds (default: 300, 0 to disable)'',
      opt ''Cmd'' ''cmd'' [] []
        ''Command and arguments to pass to container (can be specified multiple times)'',
      opt ''AdminPort'' ''admin-port'' [] []
        ''Admin API port for container command (default: 17539, auto-increments if in use)'',
      opt ''Slot'' ''slot'' ''s'' []
        ''Deployment slot for blue/green deployment (e.g., blue, green). Only deploys if tag's build metadata matches.'',
      opt ''CalVer'' ''calver'' [] []
        ''CalVer format for version identification (e.g., YYYY.0M.0D.MICRO)'',
      opt ''Telemetry'' ''telemetry'' [] []
        ''Enable telemetry (Prometheus metrics on admin API /metrics endpoint)'',
      opt ''OTLPEndpoint'' ''otlp-endpoint'' [] []
        ''OTLP gRPC endpoint for exporting metrics (e.g., localhost:4317)'',
      opt ''OTLPInsecure'' ''otlp-insecure'' [] []
        ''Use insecure (plaintext) gRPC for OTLP export (default: TLS)'',
      opt ''Help'' ''help'' ''h'' []
        ''show this help message and exit'',
      opt ''Version'' ''version'' ''v'' []
        ''prints the version number'']"

section \<open>The text\<close>

definition newline :: char where "newline = CHR 0x0A"

definition indent :: string where "indent = replicate 24 (CHR '' '')"

text \<open>The lines after the first of a description are indented; an empty last line is dropped.\<close>

fun indentLines :: "string list \<Rightarrow> string" where
  "indentLines [] = []"
| "indentLines [l] = (if l = [] then [] else indent @ l)"
| "indentLines (l # ls) = indent @ l @ newline # indentLines ls"

definition layoutDescription :: "string \<Rightarrow> string" where
  "layoutDescription desc = (case splitC newline desc of
     l # l' # ls \<Rightarrow> l @ newline # indentLines (l' # ls) | _ \<Rightarrow> desc)"

definition optionText :: "cli_option \<Rightarrow> string" where
  "optionText f =
     (let a = (if op_arg f \<noteq> [] then CHR ''='' # op_arg f else [])
      in if op_short f \<noteq> [] then ''-'' @ op_short f @ '', --'' @ op_long f @ a else ''--'' @ op_long f @ a)"

text \<open>Printf with a left-justified field of 40 characters.\<close>

definition padRight :: "nat \<Rightarrow> string \<Rightarrow> string" where
  "padRight n s = s @ replicate (n - length s) (CHR '' '')"

definition buildHelp :: "string list \<Rightarrow> string list" where
  "buildHelp names = List.map_filter (\<lambda>name. case find (\<lambda>f. op_field f = name) cli_options of
     None \<Rightarrow> None
   | Some f \<Rightarrow> Some (''  '' @ padRight 40 (optionText f) @ '' '' @ layoutDescription (op_description f))) names"

definition generalOptions :: "string list" where
  "generalOptions = [''Interval'', ''Registry'', ''Cache'', ''Slot'', ''CalVer'', ''Notifier'', ''LogLevel'', ''LogFormat'', ''BeforeDeployHook'', ''AfterDeployHook'', ''Telemetry'', ''OTLPEndpoint'', ''OTLPInsecure'']"

definition serverOptions :: "string list" where
  "serverOptions = [''Ports'']"

definition containerOptions :: "string list" where
  "containerOptions = [''Replicas'', ''Cmd'', ''HealthPath'', ''HealthTimeout'', ''DrainTime'', ''ContainerRuntime'', ''ProxyIdleTimeout'']"

definition lines :: "string list \<Rightarrow> string" where "lines ls = concat (map (\<lambda>l. l @ [newline]) ls)"

definition helpText :: string where
  "helpText = lines
     ([''Usage: dewy [--version] [--help] command <options>'', [],
       ''Commands:'',
       ''  server     Keep the app server up to date'',
       ''  assets     Keep assets up to date'',
       ''  image      Keep container images up to date with zero-downtime deployment'', [],
       ''General Options:''] @ [joinS [newline] (buildHelp generalOptions)] @
      [[], ''Server Command Options:''] @ [joinS [newline] (buildHelp serverOptions)] @
      [[], ''Container Command Options:''] @ [joinS [newline] (buildHelp containerOptions)])"

section \<open>What the help tells\<close>

text \<open>Every field that showHelp names is in the table, so that no option is dropped in silence.\<close>

lemma help_fields_known:
  "list_all (\<lambda>n. n \<in> op_field ` set cli_options) (generalOptions @ serverOptions @ containerOptions)"
  by (simp add: generalOptions_def serverOptions_def containerOptions_def cli_options_def opt_def)

lemma buildHelp_length:
  assumes "set names \<subseteq> op_field ` set cli_options"
  shows "length (buildHelp names) = length names"
  using assms by (induction names) (auto simp: buildHelp_def List.map_filter_simps find_None_iff split: option.splits)

text \<open>Long and short names are unique, so the parser of flags can tell the options apart.\<close>

lemma cli_options_distinct:
  "distinct (map op_field cli_options) \<and> distinct (map op_long cli_options) \<and>
   distinct (filter (\<lambda>s. s \<noteq> []) (map op_short cli_options))"
  by code_simp

text \<open>
  Options that the help never shows: besides help and version, which the usage line names, the
  name of a container application and the port of the admin API.
\<close>

lemma help_unlisted:
  "map op_field (filter (\<lambda>f. op_field f \<notin> set (generalOptions @ serverOptions @ containerOptions)) cli_options) =
   [''Name'', ''AdminPort'', ''Help'', ''Version'']"
  by code_simp

text \<open>The description of the registry option names a scheme that no registry has.\<close>

lemma help_docker_scheme:
  "strContains (op_description (the (find (\<lambda>f. op_field f = ''Registry'') cli_options))) ''docker://'' \<and> factories ''docker'' = None"
  by code_simp

end
