(* ===== verification/GitHub_Client.thy ===== *)
theory GitHub_Client
  imports Dewy_Prelude "HOL-Library.AList"
begin

text \<open>
  The GitHub client (client package): the configuration of an app, the choice of the
  authentication, the base URL of an enterprise server, and the cache of installation tokens,
  also as a step relation for concurrent requests. The PEM and X.509 parsers and the service are
  parameters.
\<close>

section \<open>Configuration (github_app.go)\<close>

record GitHubAppConfig =
  gc_AppID :: goint
  gc_InstallationID :: goint
  gc_PrivateKey :: string

text \<open>The text of an error of strconv.ParseInt in base 10 with 64 bits.\<close>

definition parseInt_error_text :: "string \<Rightarrow> string" where
  "parseInt_error_text s = ''strconv.ParseInt: parsing '' @ goQuote s @ '': '' @
     (case atoi_sign s of (_, ds) \<Rightarrow> if ds = [] \<or> \<not> list_all is_digit ds then ''invalid syntax'' else ''value out of range'')"

definition privateKeyOf :: "(string \<Rightarrow> string) \<Rightarrow> (string \<Rightarrow> string + string) \<Rightarrow> string + string" where
  "privateKeyOf getenv readFile =
     (if getenv ''GITHUB_APP_PRIVATE_KEY'' \<noteq> [] then Inr (getenv ''GITHUB_APP_PRIVATE_KEY'')
      else let path = getenv ''GITHUB_APP_PRIVATE_KEY_PATH'' in
        if path = [] then Inl ''either GITHUB_APP_PRIVATE_KEY or GITHUB_APP_PRIVATE_KEY_PATH is required''
        else map_sum (append ''failed to read private key file: '') id (readFile path))"

definition LoadGitHubAppConfig :: "(string \<Rightarrow> string) \<Rightarrow> (string \<Rightarrow> string + string) \<Rightarrow> string + GitHubAppConfig option" where
  "LoadGitHubAppConfig getenv readFile =
     (let appIDStr = getenv ''GITHUB_APP_ID''; installationIDStr = getenv ''GITHUB_APP_INSTALLATION_ID'' in
      if appIDStr = [] then Inr None
      else (case atoi_opt appIDStr of
          None \<Rightarrow> Inl (''invalid GITHUB_APP_ID: '' @ parseInt_error_text appIDStr)
        | Some appID \<Rightarrow>
            if installationIDStr = [] then Inl ''GITHUB_APP_INSTALLATION_ID is required when GITHUB_APP_ID is set''
            else (case atoi_opt installationIDStr of
                None \<Rightarrow> Inl (''invalid GITHUB_APP_INSTALLATION_ID: '' @ parseInt_error_text installationIDStr)
              | Some installationID \<Rightarrow>
                  map_sum id (\<lambda>key. Some \<lparr>gc_AppID = appID, gc_InstallationID = installationID, gc_PrivateKey = key\<rparr>) (privateKeyOf getenv readFile))))"

text \<open>The block of a PEM text, the PKCS#1 key in it, and the PKCS#8 key, which may be no RSA key.\<close>

record 'k key_parsers =
  kp_PEM :: "string \<Rightarrow> string option"
  kp_PKCS1 :: "string \<Rightarrow> 'k option"
  kp_PKCS8 :: "string \<Rightarrow> 'k option option"

definition parsePrivateKey :: "'k key_parsers \<Rightarrow> string \<Rightarrow> string + 'k" where
  "parsePrivateKey kp pemBytes =
     (case kp_PEM kp pemBytes of
        None \<Rightarrow> Inl ''failed to parse PEM block''
      | Some block \<Rightarrow> (case kp_PKCS1 kp block of
          Some key \<Rightarrow> Inr key
        | None \<Rightarrow> (case kp_PKCS8 kp block of
            Some (Some rsaKey) \<Rightarrow> Inr rsaKey
          | Some None \<Rightarrow> Inl ''not an RSA private key''
          | None \<Rightarrow> Inl ''failed to parse private key'')))"

record 'k githubAppTransport =
  at_appID :: goint
  at_installationID :: goint
  at_privateKey :: 'k
  at_baseURL :: string
  at_token :: string
  at_tokenExpiry :: instant

definition NewGitHubAppTransport :: "'k key_parsers \<Rightarrow> GitHubAppConfig option \<Rightarrow> string \<Rightarrow> string + 'k githubAppTransport" where
  "NewGitHubAppTransport kp config baseURL =
     (case config of
        None \<Rightarrow> Inl ''config is required''
      | Some c \<Rightarrow> (case parsePrivateKey kp (gc_PrivateKey c) of
          Inl err \<Rightarrow> Inl (''failed to parse private key: '' @ err)
        | Inr key \<Rightarrow> Inr \<lparr>at_appID = gc_AppID c, at_installationID = gc_InstallationID c, at_privateKey = key,
            at_baseURL = baseURL, at_token = [], at_tokenExpiry = zeroTime\<rparr>))"

section \<open>Tokens (github_app.go)\<close>

definition jwtExpiration :: duration where "jwtExpiration = seconds 600"

definition tokenRefreshBuffer :: duration where "tokenRefreshBuffer = seconds 300"

record RegisteredClaims =
  jc_IssuedAt :: instant
  jc_ExpiresAt :: instant
  jc_Issuer :: string

definition createJWT :: "'k githubAppTransport \<Rightarrow> instant \<Rightarrow> RegisteredClaims" where
  "createJWT t now = \<lparr>jc_IssuedAt = now - seconds 60, jc_ExpiresAt = now + jwtExpiration, jc_Issuer = itoa (at_appID t)\<rparr>"

text \<open>
  The service: signing a JWT, setting the enterprise URL of the temporary client, and the exchange
  of the JWT for an installation token with its expiry.
\<close>

record ('k, 'w) token_service =
  ts_Now :: "'w \<Rightarrow> 'w \<times> instant"
  ts_Sign :: "'k \<Rightarrow> RegisteredClaims \<Rightarrow> string + string"
  ts_EnterpriseURL :: "string \<Rightarrow> string option"
  ts_CreateInstallationToken :: "string \<Rightarrow> goint \<Rightarrow> 'w \<Rightarrow> 'w \<times> (string + string \<times> instant)"

definition createInstallationToken :: "('k, 'w) token_service \<Rightarrow> 'k githubAppTransport \<Rightarrow> 'w \<Rightarrow> 'w \<times> (string + string \<times> instant)" where
  "createInstallationToken ts t w =
     (case ts_Now ts w of (w, now) \<Rightarrow>
       (case ts_Sign ts (at_privateKey t) (createJWT t now) of
          Inl err \<Rightarrow> (w, Inl (''failed to create JWT: '' @ err))
        | Inr jwtToken \<Rightarrow> (case (if at_baseURL t = [] then None else ts_EnterpriseURL ts (at_baseURL t)) of
            Some err \<Rightarrow> (w, Inl (''failed to set enterprise URL: '' @ err))
          | None \<Rightarrow> apsnd (map_sum (append ''failed to create installation token: '') id)
              (ts_CreateInstallationToken ts jwtToken (at_installationID t) w))))"

definition freshToken :: "string \<Rightarrow> instant \<Rightarrow> instant \<Rightarrow> bool" where
  "freshToken token expiry now = (token \<noteq> [] \<and> now + tokenRefreshBuffer < expiry)"

text \<open>The part of getToken under the write lock.\<close>

definition refreshToken :: "('k, 'w) token_service \<Rightarrow> 'k githubAppTransport \<times> 'w \<Rightarrow> ('k githubAppTransport \<times> 'w) \<times> (string + string)" where
  "refreshToken ts s =
     (case s of (t, w) \<Rightarrow> (case ts_Now ts w of (w, now) \<Rightarrow>
       if freshToken (at_token t) (at_tokenExpiry t) now then ((t, w), Inr (at_token t))
       else (case createInstallationToken ts t w of
           (w, Inl err) \<Rightarrow> ((t, w), Inl err)
         | (w, Inr (token, expiry)) \<Rightarrow> ((t\<lparr>at_token := token, at_tokenExpiry := expiry\<rparr>, w), Inr token))))"

definition getToken :: "('k, 'w) token_service \<Rightarrow> 'k githubAppTransport \<times> 'w \<Rightarrow> ('k githubAppTransport \<times> 'w) \<times> (string + string)" where
  "getToken ts s =
     (case s of (t, w) \<Rightarrow> (case ts_Now ts w of (w, now) \<Rightarrow>
       if freshToken (at_token t) (at_tokenExpiry t) now then ((t, w), Inr (at_token t)) else refreshToken ts (t, w)))"

text \<open>The header that RoundTrip sets on a clone of the request; send is the base transport.\<close>

definition RoundTrip :: "('k, 'w) token_service \<Rightarrow> ((string \<times> string) list \<Rightarrow> 'w \<Rightarrow> 'w \<times> (string + 'r)) \<Rightarrow> (string \<times> string) list \<Rightarrow>
    'k githubAppTransport \<times> 'w \<Rightarrow> ('k githubAppTransport \<times> 'w) \<times> (string + 'r)" where
  "RoundTrip ts send header s =
     (case getToken ts s of
        (s, Inl err) \<Rightarrow> (s, Inl (''failed to get installation token: '' @ err))
      | ((t, w), Inr token) \<Rightarrow> (case send (AList.update ''Authorization'' (''Bearer '' @ token) header) w of (w, r) \<Rightarrow> ((t, w), r)))"

text \<open>The request of the temporary client that is authenticated by the JWT.\<close>

definition jwt_RoundTrip :: "string \<Rightarrow> ((string \<times> string) list \<Rightarrow> 'w \<Rightarrow> 'w \<times> (string + 'r)) \<Rightarrow> (string \<times> string) list \<Rightarrow> 'w \<Rightarrow> 'w \<times> (string + 'r)" where
  "jwt_RoundTrip jwt send header =
     send (AList.update ''Accept'' ''application/vnd.github+json'' (AList.update ''Authorization'' (''Bearer '' @ jwt) header))"

section \<open>The client (github.go)\<close>

definition getAPIURL :: "(string \<Rightarrow> string) \<Rightarrow> string" where
  "getAPIURL getenv = (if getenv ''GITHUB_API_URL'' = [] then getenv ''GITHUB_ENDPOINT'' else getenv ''GITHUB_API_URL'')"

definition setClientBaseURL :: "(string \<Rightarrow> string + purl) \<Rightarrow> string \<Rightarrow> string + purl" where
  "setClientBaseURL urlParse apiURL =
     (case urlParse apiURL of
        Inl err \<Rightarrow> Inl (''invalid API URL: '' @ err)
      | Inr u \<Rightarrow>
          if pu_Path u = [] then Inr (u\<lparr>pu_Path := ''/''\<rparr>)
          else if last (pu_Path u) \<noteq> CHR ''/'' then Inr (u\<lparr>pu_Path := pu_Path u @ ''/''\<rparr>) else Inr u)"

datatype 'k github_auth = AppAuth "'k githubAppTransport" | TokenAuth string

text \<open>A client: its authentication and its base URL, None for the default one.\<close>

definition baseURLFor :: "(string \<Rightarrow> string + purl) \<Rightarrow> string \<Rightarrow> string + purl option" where
  "baseURLFor urlParse apiURL = (if apiURL = [] then Inr None else map_sum id Some (setClientBaseURL urlParse apiURL))"

definition newGitHubWithApp :: "'k key_parsers \<Rightarrow> (string \<Rightarrow> string + purl) \<Rightarrow> GitHubAppConfig \<Rightarrow> string \<Rightarrow> string + 'k github_auth \<times> purl option" where
  "newGitHubWithApp kp urlParse config apiURL =
     (case NewGitHubAppTransport kp (Some config) apiURL of
        Inl err \<Rightarrow> Inl err
      | Inr t \<Rightarrow> map_sum id (Pair (AppAuth t)) (baseURLFor urlParse apiURL))"

definition newGitHubWithPAT :: "(string \<Rightarrow> string) \<Rightarrow> (string \<Rightarrow> string + purl) \<Rightarrow> string \<Rightarrow> string + 'k github_auth \<times> purl option" where
  "newGitHubWithPAT getenv urlParse apiURL =
     (let token = (if getenv ''GH_TOKEN'' = [] then getenv ''GITHUB_TOKEN'' else getenv ''GH_TOKEN'') in
      if token = [] then Inl ''no GitHub token found in GITHUB_TOKEN or GH_TOKEN environment variables''
      else map_sum id (Pair (TokenAuth token)) (baseURLFor urlParse apiURL))"

definition NewGitHub :: "(string \<Rightarrow> string) \<Rightarrow> (string \<Rightarrow> string + string) \<Rightarrow> 'k key_parsers \<Rightarrow> (string \<Rightarrow> string + purl) \<Rightarrow>
    string + 'k github_auth \<times> purl option" where
  "NewGitHub getenv readFile kp urlParse =
     (case LoadGitHubAppConfig getenv readFile of
        Inl err \<Rightarrow> Inl (''failed to load GitHub App config: '' @ err)
      | Inr (Some appConfig) \<Rightarrow> newGitHubWithApp kp urlParse appConfig (getAPIURL getenv)
      | Inr None \<Rightarrow> newGitHubWithPAT getenv urlParse (getAPIURL getenv))"

section \<open>Concurrent requests\<close>

text \<open>
  A request reads the clock and the token under the read lock, and if the token is not fresh waits
  for the write lock; the section under that lock is one step. The history holds, newest first,
  the time at which each token was created and its expiry.
\<close>

datatype request = Arrived | Waiting | Served string | Rejected

record token_state =
  tk_now :: instant
  tk_token :: string
  tk_expiry :: instant
  tk_history :: "(instant \<times> string \<times> instant) list"
  tk_requests :: "request list"

inductive token_step :: "token_state \<Rightarrow> token_state \<Rightarrow> bool" where
  clock: "tk_now s \<le> now \<Longrightarrow> token_step s (s\<lparr>tk_now := now\<rparr>)"
| arrive: "token_step s (s\<lparr>tk_requests := tk_requests s @ [Arrived]\<rparr>)"
| hit: "i < length (tk_requests s) \<Longrightarrow> tk_requests s ! i = Arrived \<Longrightarrow> freshToken (tk_token s) (tk_expiry s) (tk_now s) \<Longrightarrow>
    token_step s (s\<lparr>tk_requests := (tk_requests s)[i := Served (tk_token s)]\<rparr>)"
| miss: "i < length (tk_requests s) \<Longrightarrow> tk_requests s ! i = Arrived \<Longrightarrow> \<not> freshToken (tk_token s) (tk_expiry s) (tk_now s) \<Longrightarrow>
    token_step s (s\<lparr>tk_requests := (tk_requests s)[i := Waiting]\<rparr>)"
| second_hit: "i < length (tk_requests s) \<Longrightarrow> tk_requests s ! i = Waiting \<Longrightarrow> freshToken (tk_token s) (tk_expiry s) (tk_now s) \<Longrightarrow>
    token_step s (s\<lparr>tk_requests := (tk_requests s)[i := Served (tk_token s)]\<rparr>)"
| refresh: "i < length (tk_requests s) \<Longrightarrow> tk_requests s ! i = Waiting \<Longrightarrow> \<not> freshToken (tk_token s) (tk_expiry s) (tk_now s) \<Longrightarrow>
    tk_now s \<le> now \<Longrightarrow>
    token_step s (s\<lparr>tk_now := now, tk_token := token, tk_expiry := expiry, tk_history := (now, token, expiry) # tk_history s,
      tk_requests := (tk_requests s)[i := Served token]\<rparr>)"
| failed: "i < length (tk_requests s) \<Longrightarrow> tk_requests s ! i = Waiting \<Longrightarrow> \<not> freshToken (tk_token s) (tk_expiry s) (tk_now s) \<Longrightarrow>
    token_step s (s\<lparr>tk_requests := (tk_requests s)[i := Rejected]\<rparr>)"

inductive_cases token_stepE: "token_step s s'"

definition token_start :: "instant \<Rightarrow> token_state" where
  "token_start now = \<lparr>tk_now = now, tk_token = [], tk_expiry = zeroTime, tk_history = [], tk_requests = []\<rparr>"

text \<open>Every token but the first was created when its predecessor had at most the buffer left.\<close>

fun spaced :: "(instant \<times> string \<times> instant) list \<Rightarrow> bool" where
  "spaced ((t2, k2, e2) # (t1, k1, e1) # rest) = (t1 \<le> t2 \<and> (k1 = [] \<or> e1 \<le> t2 + tokenRefreshBuffer) \<and> spaced ((t1, k1, e1) # rest))"
| "spaced _ = True"

definition token_inv :: "token_state \<Rightarrow> bool" where
  "token_inv s = (spaced (tk_history s) \<and>
     (case tk_history s of [] \<Rightarrow> tk_token s = [] | (t, k, e) # _ \<Rightarrow> t \<le> tk_now s \<and> tk_token s = k \<and> tk_expiry s = e) \<and>
     (\<forall>r\<in>set (tk_requests s). \<forall>k. r = Served k \<longrightarrow> k \<in> (fst \<circ> snd) ` set (tk_history s)))"

lemma token_inv_requests:
  "token_inv s \<Longrightarrow> (\<And>k. r = Served k \<Longrightarrow> k \<in> (fst \<circ> snd) ` set (tk_history s)) \<Longrightarrow> token_inv (s\<lparr>tk_requests := (tk_requests s)[i := r]\<rparr>)"
  by (auto simp: token_inv_def split: list.splits dest!: subsetD [OF set_update_subset_insert])

lemma fresh_in_history: "token_inv s \<Longrightarrow> freshToken (tk_token s) x y \<Longrightarrow> tk_token s \<in> (fst \<circ> snd) ` set (tk_history s)"
  by (cases "tk_history s") (force simp: token_inv_def freshToken_def)+

lemma token_step_inv: "token_step s s' \<Longrightarrow> token_inv s \<Longrightarrow> token_inv s'"
proof (induction rule: token_step.induct)
  case (clock s now)
  then show ?case by (auto simp: token_inv_def split: list.splits)
next
  case (arrive s)
  then show ?case by (auto simp: token_inv_def split: list.splits)
next
  case (hit i s)
  then show ?case by (intro token_inv_requests) (auto simp del: o_apply intro: fresh_in_history)
next
  case (miss i s)
  then show ?case by (intro token_inv_requests) auto
next
  case (second_hit i s)
  then show ?case by (intro token_inv_requests) (auto simp del: o_apply intro: fresh_in_history)
next
  case (refresh i s now token expiry)
  have sp: "spaced ((now, token, expiry) # tk_history s)"
    using refresh by (cases "tk_history s") (auto simp: token_inv_def freshToken_def)
  have "\<forall>r\<in>set ((tk_requests s)[i := Served token]). \<forall>k. r = Served k \<longrightarrow> k \<in> (fst \<circ> snd) ` set ((now, token, expiry) # tk_history s)"
    using refresh.prems by (auto simp: token_inv_def dest!: subsetD [OF set_update_subset_insert])
  with sp show ?case by (simp add: token_inv_def)
next
  case (failed i s)
  then show ?case by (intro token_inv_requests) auto
qed

lemma token_reachable_inv: "token_step\<^sup>*\<^sup>* (token_start t0) s \<Longrightarrow> token_inv s"
proof (induction rule: rtranclp_induct)
  case base
  show ?case by (simp add: token_inv_def token_start_def)
next
  case (step y z)
  then show ?case by (blast intro: token_step_inv)
qed

section \<open>Properties\<close>

text \<open>
  Claim C27. Concurrent requests share one installation token: in every interleaving of requests
  and of the passing of time, a new token is created only when the previous one has at most five
  minutes left, and every request that is served carries a token that was created.
\<close>

theorem getToken_shared:
  assumes "token_step\<^sup>*\<^sup>* (token_start t0) s"
  shows "spaced (tk_history s) \<and> (\<forall>i k. i < length (tk_requests s) \<and> tk_requests s ! i = Served k \<longrightarrow> (\<exists>t e. (t, k, e) \<in> set (tk_history s)))"
proof -
  have inv: "token_inv s" by (rule token_reachable_inv [OF assms])
  have "\<exists>t e. (t, k, e) \<in> set (tk_history s)" if "i < length (tk_requests s)" "tk_requests s ! i = Served k" for i k
  proof -
    have "Served k \<in> set (tk_requests s)" using that nth_mem by metis
    with inv have "k \<in> (fst \<circ> snd) ` set (tk_history s)" unfolding token_inv_def by blast
    then show ?thesis by force
  qed
  with inv show ?thesis by (auto simp: token_inv_def)
qed

definition two_served :: token_state where
  "two_served = \<lparr>tk_now = 0, tk_token = ''k'', tk_expiry = seconds 3600, tk_history = [(0, ''k'', seconds 3600)], tk_requests = [Served ''k'', Served ''k'']\<rparr>"

lemma two_requests: "token_step\<^sup>*\<^sup>* (token_start 0) two_served"
proof -
  let ?s = "\<lambda>rs. \<lparr>tk_now = 0, tk_token = [], tk_expiry = zeroTime, tk_history = [], tk_requests = rs\<rparr>"
  let ?f = "\<lambda>rs. two_served\<lparr>tk_requests := rs\<rparr>"
  have "token_step (token_start 0) (?s [Arrived])" using token_step.arrive [of "?s []"] by (simp add: token_start_def)
  moreover have "token_step (?s [Arrived]) (?s [Arrived, Arrived])" using token_step.arrive [of "?s [Arrived]"] by simp
  moreover have "token_step (?s [Arrived, Arrived]) (?s [Waiting, Arrived])"
    using token_step.miss [of 0 "?s [Arrived, Arrived]"] by (simp add: freshToken_def)
  moreover have "token_step (?s [Waiting, Arrived]) (?s [Waiting, Waiting])"
    using token_step.miss [of 1 "?s [Waiting, Arrived]"] by (simp add: freshToken_def)
  moreover have "token_step (?s [Waiting, Waiting]) (?f [Served ''k'', Waiting])"
    using token_step.refresh [of 0 "?s [Waiting, Waiting]" 0 "''k''" "seconds 3600"] by (simp add: freshToken_def two_served_def)
  moreover have "token_step (?f [Served ''k'', Waiting]) two_served"
    using token_step.second_hit [of 1 "?f [Served ''k'', Waiting]"] by (simp add: freshToken_def two_served_def tokenRefreshBuffer_def seconds_def)
  ultimately show ?thesis by (meson rtranclp.rtrancl_refl rtranclp.rtrancl_into_rtrancl)
qed

theorem getToken_shared_witness: "spaced (tk_history two_served) \<and> (\<exists>t e. (t, ''k'', e) \<in> set (tk_history two_served))"
proof -
  have "1 < length (tk_requests two_served) \<and> tk_requests two_served ! 1 = Served ''k''" by (simp add: two_served_def)
  with getToken_shared [OF two_requests] show ?thesis by blast
qed

end
