(* ===== verification/Container_Telemetry.thy ===== *)
theory Container_Telemetry
  imports Lifecycle
begin

text \<open>
  The metrics of containers (telemetry/container.go, container_metrics.go): the snapshot of the
  managed containers, the series that are reported of it, and the cache that collapses scrapes.
  The meter is the boundary: a report is the list of observations made.
\<close>

section \<open>Snapshots\<close>

definition observeMinInterval :: duration where "observeMinInterval = seconds 5"

definition observeTimeout :: duration where "observeTimeout = seconds 2"

definition containerStates :: "string list" where
  "containerStates = [''created'', ''running'', ''paused'', ''restarting'', ''exited'', ''dead'']"

record ContainerStatus =
  os_Name :: string
  os_Image :: string
  os_Version :: string
  os_Replica :: string
  os_State :: string
  os_Restarts :: goint
  os_ExitCode :: goint
  os_OOMKilled :: bool
  os_Terminated :: bool
  os_StartedAt :: instant

record ContainerSnapshot =
  sn_App :: string
  sn_DesiredReplicas :: goint
  sn_Containers :: "ContainerStatus list"

definition zeroSnapshot :: ContainerSnapshot where
  "zeroSnapshot = \<lparr>sn_App = [], sn_DesiredReplicas = 0, sn_Containers = []\<rparr>"

definition desiredReplicas :: "Config \<Rightarrow> goint" where
  "desiredReplicas c = (case cg_Container c of None \<Rightarrow> 1 | Some cc \<Rightarrow> if cc_Replicas cc \<le> 0 then 1 else cc_Replicas cc)"

definition toContainerStatus :: "Status \<Rightarrow> ContainerStatus" where
  "toContainerStatus s = \<lparr>os_Name = st_Name s, os_Image = st_Image s, os_Version = st_Version s, os_Replica = st_Replica s,
     os_State = st_State s, os_Restarts = st_Restarts s, os_ExitCode = st_ExitCode s, os_OOMKilled = st_OOMKilled s,
     os_Terminated = Terminated s, os_StartedAt = st_StartedAt s\<rparr>"

definition buildContainerSnapshot :: "string \<Rightarrow> goint \<Rightarrow> Status option list \<Rightarrow> ContainerSnapshot" where
  "buildContainerSnapshot app desired statuses =
     \<lparr>sn_App = app, sn_DesiredReplicas = desired, sn_Containers = map toContainerStatus (List.map_filter id statuses)\<rparr>"

definition observeContainers :: "'w host \<Rightarrow> Config \<Rightarrow> 'w Runtime option \<Rightarrow> 'w Runtime option \<times> (string + ContainerSnapshot)" where
  "observeContainers h c rt =
     (case rt of
        None \<Rightarrow> (None, Inr \<lparr>sn_App = appName c, sn_DesiredReplicas = desiredReplicas c, sn_Containers = []\<rparr>)
      | Some r \<Rightarrow> (case InspectManaged h (appName c) r of
          (r, Inl err) \<Rightarrow> (Some r, Inl err)
        | (r, Inr statuses) \<Rightarrow> (Some r, Inr (buildContainerSnapshot (appName c) (desiredReplicas c) (map Some statuses)))))"

section \<open>Observations\<close>

datatype instrument = Restarts | ContainerState | LastExitCode | OOMKilled | StartedAt | Replicas | DesiredReplicas | ContainerInfo

type_synonym observation = "instrument \<times> goint \<times> (string \<times> string) list"

definition baseAttrs :: "string \<Rightarrow> ContainerStatus \<Rightarrow> (string \<times> string) list" where
  "baseAttrs app cs = [(''app'', app), (''container'', os_Name cs), (''replica'', os_Replica cs)]"

text \<open>unix is the Unix time of an instant.\<close>

definition observeContainer :: "(instant \<Rightarrow> goint) \<Rightarrow> string \<Rightarrow> ContainerStatus \<Rightarrow> observation list" where
  "observeContainer unix app cs =
     (let base = baseAttrs app cs in
      [(Restarts, os_Restarts cs, base)] @
      map (\<lambda>state. (ContainerState, if os_State cs = state then 1 else 0, base @ [(''state'', state)])) containerStates @
      (if os_StartedAt cs \<noteq> zeroTime then [(StartedAt, unix (os_StartedAt cs), base)] else []) @
      (if os_Terminated cs then [(LastExitCode, os_ExitCode cs, base), (OOMKilled, if os_OOMKilled cs then 1 else 0, base)] else []) @
      [(ContainerInfo, 1, base @ [(''image'', os_Image cs), (''version'', os_Version cs)])])"

definition observe :: "(instant \<Rightarrow> goint) \<Rightarrow> ContainerSnapshot \<Rightarrow> observation list" where
  "observe unix snap =
     concat (map (observeContainer unix (sn_App snap)) (sn_Containers snap)) @
     [(Replicas, int (length (filter (\<lambda>cs. os_State cs = ''running'') (sn_Containers snap))), [(''app'', sn_App snap)]),
      (DesiredReplicas, sn_DesiredReplicas snap, [(''app'', sn_App snap)])]"

section \<open>The cache of snapshots\<close>

record containerObserverState =
  ob_cached :: ContainerSnapshot
  ob_cachedOK :: bool
  ob_cachedAt :: instant
  ob_primed :: bool

definition newObserverState :: containerObserverState where
  "newObserverState = \<lparr>ob_cached = zeroSnapshot, ob_cachedOK = False, ob_cachedAt = zeroTime, ob_primed = False\<rparr>"

text \<open>
  A collection at a time: the result of the observer, if it is asked, and the snapshot that is
  reported, if any. The first component of the result tells whether the observer was asked.
\<close>

definition snapshot :: "instant \<Rightarrow> (string + ContainerSnapshot) \<Rightarrow> containerObserverState \<Rightarrow>
    containerObserverState \<times> bool \<times> ContainerSnapshot option" where
  "snapshot now fn s =
     (let report = (\<lambda>s. if ob_cachedOK s then Some (ob_cached s) else None) in
      if ob_primed s \<and> time_Sub now (ob_cachedAt s) < observeMinInterval then (s, False, report s)
      else let s = s\<lparr>ob_primed := True, ob_cachedAt := now\<rparr>;
               s = (case fn of Inl _ \<Rightarrow> s\<lparr>ob_cached := zeroSnapshot, ob_cachedOK := False\<rparr>
                  | Inr snap \<Rightarrow> s\<lparr>ob_cached := snap, ob_cachedOK := True\<rparr>)
           in (s, True, report s))"

text \<open>A sequence of scrapes, each with its time and what the observer would answer; the times at which it was asked.\<close>

fun scrapes :: "(instant \<times> (string + ContainerSnapshot)) list \<Rightarrow> containerObserverState \<Rightarrow> (instant \<times> bool \<times> ContainerSnapshot option) list" where
  "scrapes [] s = []"
| "scrapes ((now, fn) # rest) s = (case snapshot now fn s of (s, asked, rep) \<Rightarrow> (now, asked, rep) # scrapes rest s)"

definition asked_at :: "(instant \<times> bool \<times> ContainerSnapshot option) list \<Rightarrow> instant list" where
  "asked_at rs = map fst (filter (fst \<circ> snd) rs)"

section \<open>Lemmas\<close>

lemma within_interval: "time_Sub t u < observeMinInterval \<longleftrightarrow> t - u < observeMinInterval"
  by (auto simp: time_Sub_def observeMinInterval_def seconds_def max_int64_def min_int64_def)

lemma snapshot_cases:
  "snapshot now fn s = (s', asked, rep) \<Longrightarrow>
   (asked \<longleftrightarrow> \<not> (ob_primed s \<and> now - ob_cachedAt s < observeMinInterval)) \<and>
   (if asked then ob_primed s' \<and> ob_cachedAt s' = now \<and> rep = (case fn of Inl _ \<Rightarrow> None | Inr snap \<Rightarrow> Some snap) else s' = s) \<and>
   rep = (if ob_cachedOK s' then Some (ob_cached s') else None)"
  by (auto simp: snapshot_def Let_def within_interval split: if_splits sum.splits)

lemma scrapes_spaced:
  assumes "sorted (map fst xs)" "ob_primed s \<Longrightarrow> list_all (\<lambda>x. ob_cachedAt s \<le> fst x) xs"
  shows "sorted_wrt (\<lambda>t u. observeMinInterval \<le> u - t) (asked_at (scrapes xs s)) \<and>
    (ob_primed s \<longrightarrow> list_all (\<lambda>t. observeMinInterval \<le> t - ob_cachedAt s) (asked_at (scrapes xs s)))"
  using assms
proof (induction xs arbitrary: s)
  case (Cons x xs)
  obtain now fn where x: "x = (now, fn)" by (rule prod.exhaust)
  obtain s' asked rep where sn: "snapshot now fn s = (s', asked, rep)" by (metis prod_cases3)
  note c = snapshot_cases [OF sn]
  have later: "list_all (\<lambda>y. now \<le> fst y) xs" "sorted (map fst xs)" using Cons.prems(1) x by (auto simp: list_all_iff)
  show ?case
  proof (cases asked)
    case True
    with c have s': "ob_primed s'" "ob_cachedAt s' = now" by simp_all
    from Cons.IH [OF later(2), of s'] s' later(1)
    have ih: "sorted_wrt (\<lambda>t u. observeMinInterval \<le> u - t) (asked_at (scrapes xs s'))"
        "list_all (\<lambda>t. observeMinInterval \<le> t - now) (asked_at (scrapes xs s'))" by simp_all
    have a: "asked_at (scrapes (x # xs) s) = now # asked_at (scrapes xs s')" using True sn x by (simp add: asked_at_def)
    have n: "observeMinInterval \<le> now - ob_cachedAt s" if "ob_primed s" using that c True by auto
    have "observeMinInterval \<ge> 0" by (simp add: observeMinInterval_def seconds_def)
    with ih n show ?thesis unfolding a by (fastforce simp: list_all_iff)
  next
    case False
    with c have "s' = s" by simp
    moreover have "asked_at (scrapes (x # xs) s) = asked_at (scrapes xs s')" using False sn x by (simp add: asked_at_def)
    ultimately show ?thesis using Cons.IH [OF later(2), of s] Cons.prems(2) by simp
  qed
qed (simp add: asked_at_def)

text \<open>A snapshot in the cache is one that the observer returned at the time that is kept with it.\<close>

definition cached_from :: "(instant \<times> (string + ContainerSnapshot)) list \<Rightarrow> containerObserverState \<Rightarrow> bool" where
  "cached_from xs s = (ob_cachedOK s \<longrightarrow> ob_primed s \<and> (ob_cachedAt s, Inr (ob_cached s)) \<in> set xs)"

lemma snapshot_cached_from:
  assumes "snapshot now fn s = (s', asked, rep)" "cached_from ys s"
  shows "cached_from (ys @ [(now, fn)]) s' \<and> (\<forall>snap. rep = Some snap \<longrightarrow> (\<exists>t. (t, Inr snap) \<in> set (ys @ [(now, fn)]) \<and> now - t < observeMinInterval))"
proof (cases asked)
  case True
  have "0 < observeMinInterval" by (simp add: observeMinInterval_def seconds_def)
  with snapshot_cases [OF assms(1)] True show ?thesis by (auto simp: cached_from_def split: sum.splits if_splits)
next
  case False
  with snapshot_cases [OF assms(1)] assms(2) show ?thesis by (auto simp: cached_from_def split: if_splits)
qed

lemma scrapes_reported:
  "cached_from ys s \<Longrightarrow> (now, asked, Some snap) \<in> set (scrapes xs s) \<Longrightarrow> \<exists>t. (t, Inr snap) \<in> set (ys @ xs) \<and> now - t < observeMinInterval"
proof (induction xs arbitrary: s ys)
  case (Cons x xs)
  obtain n fn where x: "x = (n, fn)" by (rule prod.exhaust)
  obtain s' a rep where sn: "snapshot n fn s = (s', a, rep)" by (metis prod_cases3)
  note c = snapshot_cached_from [OF sn Cons.prems(1)]
  from Cons.prems(2) sn x consider "now = n" "rep = Some snap" | "(now, asked, Some snap) \<in> set (scrapes xs s')" by auto
  then show ?case
  proof cases
    case 1
    with c x show ?thesis by auto
  next
    case 2
    from Cons.IH [OF conjunct1 [OF c] 2] x show ?thesis by simp
  qed
qed simp

section \<open>Properties\<close>

text \<open>
  Claim C39. Scrapes cannot overload the container daemon, nor report stale or made-up values: for
  any sequence of scrapes in order of time the containers are inspected at most once per five
  seconds, and a snapshot that is reported is one an inspection returned less than five seconds
  before; after a failed inspection nothing is reported.
\<close>

theorem scrapes_collapsed:
  assumes "sorted (map fst xs)"
  shows "sorted_wrt (\<lambda>t u. observeMinInterval \<le> u - t) (asked_at (scrapes xs newObserverState)) \<and>
    (\<forall>now asked snap. (now, asked, Some snap) \<in> set (scrapes xs newObserverState) \<longrightarrow>
       (\<exists>t. (t, Inr snap) \<in> set xs \<and> now - t < observeMinInterval))"
  using scrapes_spaced [OF assms, of newObserverState] scrapes_reported [of "[]" newObserverState _ _ _ xs]
  by (auto simp: newObserverState_def cached_from_def)

theorem scrapes_collapsed_witness:
  "asked_at (scrapes [(0, Inr zeroSnapshot), (seconds 4, Inr zeroSnapshot), (seconds 6, Inl ''timeout'')] newObserverState) = [0, seconds 6] \<and>
   sorted_wrt (\<lambda>t u. observeMinInterval \<le> u - t) [0, seconds 6]"
proof -
  let ?xs = "[(0, Inr zeroSnapshot), (seconds 4, Inr zeroSnapshot), (seconds 6, Inl ''timeout'')]"
  have "sorted (map fst ?xs)" by (simp add: seconds_def)
  moreover have "asked_at (scrapes ?xs newObserverState) = [0, seconds 6]" by code_simp
  ultimately show ?thesis using scrapes_collapsed [of ?xs] by metis
qed

text \<open>The gauge of replicas counts the running containers.\<close>

lemma observe_replicas:
  "(Replicas, n, a) \<in> set (observe unix snap) \<longleftrightarrow>
     n = int (length (filter (\<lambda>cs. os_State cs = ''running'') (sn_Containers snap))) \<and> a = [(''app'', sn_App snap)]"
  by (auto simp: observe_def observeContainer_def Let_def)

end
