(* ===== verification/Telemetry.thy ===== *)
theory Telemetry
  imports Container_Telemetry
begin

text \<open>
  The telemetry provider (telemetry/telemetry.go, and the instruments and the registration of
  telemetry/container.go): which instruments are created, in which order, and what is undone when
  one cannot be. The OpenTelemetry library is the boundary: the outcome of each of its calls is a
  function on the state of the world, and the provider keeps a log of the calls with an effect.
\<close>

section \<open>Instruments\<close>

datatype instrument_kind = Int64Counter | Int64UpDownCounter | Float64Histogram | Int64ObservableGauge

text \<open>Bucket boundaries are in thousandths of the unit; an empty list stands for the default ones.\<close>

record instrument_spec =
  is_Kind :: instrument_kind
  is_Name :: string
  is_Description :: string
  is_Unit :: string
  is_Boundaries :: "goint list"

definition proxyInstruments :: "instrument_spec list" where
  "proxyInstruments =
     [\<lparr>is_Kind = Int64Counter, is_Name = ''dewy.proxy.connections.total'',
       is_Description = ''Total number of proxy connections accepted'', is_Unit = ''{connection}'', is_Boundaries = []\<rparr>,
      \<lparr>is_Kind = Int64UpDownCounter, is_Name = ''dewy.proxy.connections.active'',
       is_Description = ''Number of currently active proxy connections'', is_Unit = ''{connection}'', is_Boundaries = []\<rparr>,
      \<lparr>is_Kind = Float64Histogram, is_Name = ''dewy.proxy.connection.duration'',
       is_Description = ''Duration of proxy connections'', is_Unit = ''s'', is_Boundaries = []\<rparr>,
      \<lparr>is_Kind = Float64Histogram, is_Name = ''dewy.proxy.connect.latency'',
       is_Description = ''Latency to establish connection to backend'', is_Unit = ''s'',
       is_Boundaries = [1, 5, 10, 25, 50, 100, 250, 500, 1000, 5000]\<rparr>,
      \<lparr>is_Kind = Int64Counter, is_Name = ''dewy.proxy.bytes.transferred'',
       is_Description = ''Total bytes transferred through proxy'', is_Unit = ''By'', is_Boundaries = []\<rparr>,
      \<lparr>is_Kind = Int64Counter, is_Name = ''dewy.proxy.errors.total'',
       is_Description = ''Total number of proxy errors'', is_Unit = ''{error}'', is_Boundaries = []\<rparr>,
      \<lparr>is_Kind = Int64UpDownCounter, is_Name = ''dewy.proxy.backends'',
       is_Description = ''Number of active proxy backends'', is_Unit = ''{backend}'', is_Boundaries = []\<rparr>]"

definition deploymentInstruments :: "instrument_spec list" where
  "deploymentInstruments =
     [\<lparr>is_Kind = Int64Counter, is_Name = ''dewy.deployments.total'',
       is_Description = ''Total number of deployments'', is_Unit = ''{deployment}'', is_Boundaries = []\<rparr>,
      \<lparr>is_Kind = Float64Histogram, is_Name = ''dewy.deployment.duration'',
       is_Description = ''Duration of deployments'', is_Unit = ''s'',
       is_Boundaries = [1000, 5000, 10000, 30000, 60000, 120000, 300000, 600000]\<rparr>,
      \<lparr>is_Kind = Int64Counter, is_Name = ''dewy.deployment.errors.total'',
       is_Description = ''Total number of deployment errors'', is_Unit = ''{error}'', is_Boundaries = []\<rparr>,
      \<lparr>is_Kind = Int64Counter, is_Name = ''dewy.healthchecks.total'',
       is_Description = ''Total number of health checks performed'', is_Unit = ''{check}'', is_Boundaries = []\<rparr>,
      \<lparr>is_Kind = Int64Counter, is_Name = ''dewy.healthchecks.failures.total'',
       is_Description = ''Total number of failed health checks'', is_Unit = ''{check}'', is_Boundaries = []\<rparr>,
      \<lparr>is_Kind = Int64Counter, is_Name = ''dewy.server.restarts.total'',
       is_Description = ''Total number of managed-server restarts, keyed by reason (deploy|signal)'', is_Unit = ''{restart}'',
       is_Boundaries = []\<rparr>]"

definition gauge :: "string \<Rightarrow> string \<Rightarrow> string \<Rightarrow> instrument_spec" where
  "gauge name unit description = \<lparr>is_Kind = Int64ObservableGauge, is_Name = name, is_Description = description,
     is_Unit = unit, is_Boundaries = []\<rparr>"

text \<open>The gauges of containers, each with the series it stands for.\<close>

definition containerInstruments :: "(instrument \<times> instrument_spec) list" where
  "containerInstruments =
     [(Restarts, gauge ''dewy.container.restarts'' ''{restart}''
         ''Container restart count as reported by the runtime (resets when the container is replaced)''),
      (ContainerState, gauge ''dewy.container.status'' []
         ''Container lifecycle state (1 for the current state, 0 otherwise), keyed by the state attribute''),
      (LastExitCode, gauge ''dewy.container.last_terminated.exit_code'' []
         ''Exit code of a terminated container (reported only while it lingers)''),
      (OOMKilled, gauge ''dewy.container.oom_killed'' []
         ''Whether a terminated container was OOM-killed (1) or not (0)''),
      (StartedAt, gauge ''dewy.container.started.timestamp'' ''s''
         ''Start time of the container as a Unix timestamp''),
      (Replicas, gauge ''dewy.container.replicas'' ''{replica}''
         ''Number of running container replicas''),
      (DesiredReplicas, gauge ''dewy.container.desired_replicas'' ''{replica}''
         ''Number of container replicas dewy is configured to run''),
      (ContainerInfo, gauge ''dewy.container.info'' []
         ''Static per-container info series (always 1), labeled with image and version'')]"

section \<open>The provider\<close>

record TelemetryConfig =
  tc_Enabled :: bool
  tc_OTLPEndpoint :: string
  tc_OTLPInsecure :: bool
  tc_ServiceName :: string
  tc_Version :: string

datatype metric_reader = PrometheusReader | OTLPReader string bool duration

datatype telemetry_event =
    MeterProviderCreated "metric_reader list"
  | InstrumentCreated instrument_spec
  | MeterProviderShutdown
  | GlobalProviderSet

record 'w otel =
  ot_Resource :: "string \<Rightarrow> string \<Rightarrow> 'w \<Rightarrow> 'w \<times> string option"
  ot_Prometheus :: "'w \<Rightarrow> 'w \<times> string option"
  ot_OTLP :: "string \<Rightarrow> bool \<Rightarrow> 'w \<Rightarrow> 'w \<times> string option"
  ot_Instrument :: "instrument_spec \<Rightarrow> 'w \<Rightarrow> 'w \<times> string option"
  ot_Shutdown :: "'w \<Rightarrow> 'w \<times> string option"

text \<open>A provider with no meter provider is the disabled one.\<close>

record Provider =
  pv_readers :: "metric_reader list option"
  pv_instruments :: "instrument_spec list"

definition disabledProvider :: Provider where
  "disabledProvider = \<lparr>pv_readers = None, pv_instruments = []\<rparr>"

fun createInstruments :: "'w otel \<Rightarrow> instrument_spec list \<Rightarrow> 'w \<times> telemetry_event list \<Rightarrow> ('w \<times> telemetry_event list) \<times> string option" where
  "createInstruments ot [] s = (s, None)"
| "createInstruments ot (x # xs) (w, calls) = (case ot_Instrument ot x w of
     (w, Some err) \<Rightarrow> ((w, calls), Some err)
   | (w, None) \<Rightarrow> createInstruments ot xs (w, calls @ [InstrumentCreated x]))"

definition containerMetrics_init :: "'w otel \<Rightarrow> 'w \<times> telemetry_event list \<Rightarrow> ('w \<times> telemetry_event list) \<times> string option" where
  "containerMetrics_init ot s = createInstruments ot (map snd containerInstruments) s"

definition newMetrics :: "'w otel \<Rightarrow> 'w \<times> telemetry_event list \<Rightarrow> ('w \<times> telemetry_event list) \<times> string option" where
  "newMetrics ot s = (case createInstruments ot (proxyInstruments @ deploymentInstruments) s of
     (s, Some err) \<Rightarrow> (s, Some err) | (s, None) \<Rightarrow> containerMetrics_init ot s)"

definition otlpReaders :: "'w otel \<Rightarrow> TelemetryConfig \<Rightarrow> 'w \<Rightarrow> 'w \<times> (string + metric_reader list)" where
  "otlpReaders ot cfg w =
     (if tc_OTLPEndpoint cfg = [] then (w, Inr [])
      else (case ot_OTLP ot (tc_OTLPEndpoint cfg) (tc_OTLPInsecure cfg) w of
          (w, Some err) \<Rightarrow> (w, Inl (''failed to create OTLP exporter: '' @ err))
        | (w, None) \<Rightarrow> (w, Inr [OTLPReader (tc_OTLPEndpoint cfg) (tc_OTLPInsecure cfg) (seconds 15)])))"

definition telemetry_New :: "'w otel \<Rightarrow> TelemetryConfig \<Rightarrow> 'w \<Rightarrow> ('w \<times> telemetry_event list) \<times> (string + Provider)" where
  "telemetry_New ot cfg w =
     (if \<not> tc_Enabled cfg then ((w, []), Inr disabledProvider)
      else (case ot_Resource ot (if tc_ServiceName cfg = [] then ''dewy'' else tc_ServiceName cfg) (tc_Version cfg) w of
        (w, Some err) \<Rightarrow> ((w, []), Inl (''failed to create resource: '' @ err))
      | (w, None) \<Rightarrow> (case ot_Prometheus ot w of
        (w, Some err) \<Rightarrow> ((w, []), Inl (''failed to create prometheus exporter: '' @ err))
      | (w, None) \<Rightarrow> (case otlpReaders ot cfg w of
        (w, Inl err) \<Rightarrow> ((w, []), Inl err)
      | (w, Inr rs) \<Rightarrow>
          let readers = PrometheusReader # rs in
          (case newMetrics ot (w, [MeterProviderCreated readers]) of
             ((w, calls), Some err) \<Rightarrow> ((fst (ot_Shutdown ot w), calls @ [MeterProviderShutdown]), Inl (''failed to create metrics: '' @ err))
           | ((w, calls), None) \<Rightarrow> ((w, calls @ [GlobalProviderSet]),
               Inr \<lparr>pv_readers = Some readers,
                    pv_instruments = proxyInstruments @ deploymentInstruments @ map snd containerInstruments\<rparr>))))))"

definition provider_Enabled :: "Provider \<Rightarrow> bool" where "provider_Enabled p = (pv_readers p \<noteq> None)"

definition provider_Shutdown :: "'w otel \<Rightarrow> Provider \<Rightarrow> 'w \<Rightarrow> 'w \<times> string option" where
  "provider_Shutdown ot p w = (if pv_readers p = None then (w, None) else ot_Shutdown ot w)"

datatype metrics_handler = NotFoundHandler | PrometheusHandler

definition provider_Handler :: "Provider \<Rightarrow> metrics_handler" where
  "provider_Handler p = (if pv_readers p = None then NotFoundHandler else PrometheusHandler)"

text \<open>
  RegisterContainerObserver: nothing is registered without telemetry, without an observer, or when
  the meter refuses. The callback that is registered observes the snapshot of the moment, if any.
\<close>

definition RegisterContainerObserver :: "('w \<Rightarrow> 'w \<times> string option) \<Rightarrow> Provider \<Rightarrow> bool \<Rightarrow> 'w \<Rightarrow> 'w \<times> containerObserverState option \<times> string option" where
  "RegisterContainerObserver register p hasObserver w =
     (if \<not> provider_Enabled p \<or> \<not> hasObserver then (w, None, None)
      else (case register w of (w, Some err) \<Rightarrow> (w, None, Some err) | (w, None) \<Rightarrow> (w, Some newObserverState, None)))"

definition collect :: "(instant \<Rightarrow> goint) \<Rightarrow> instant \<Rightarrow> (string + ContainerSnapshot) \<Rightarrow> containerObserverState \<Rightarrow> containerObserverState \<times> observation list" where
  "collect unix now fn s = (case snapshot now fn s of
     (s, asked, None) \<Rightarrow> (s, []) | (s, asked, Some snap) \<Rightarrow> (s, observe unix snap))"

section \<open>Lemmas\<close>

definition created :: "telemetry_event list \<Rightarrow> instrument_spec list" where
  "created calls = List.map_filter (\<lambda>e. case e of InstrumentCreated x \<Rightarrow> Some x | _ \<Rightarrow> None) calls"

lemma created_simps [simp]:
  "created [] = []" "created (calls @ calls') = created calls @ created calls'" "created (InstrumentCreated x # calls) = x # created calls"
  "created (MeterProviderCreated rs # calls) = created calls" "created (MeterProviderShutdown # calls) = created calls"
  "created (GlobalProviderSet # calls) = created calls"
  by (simp_all add: created_def List.map_filter_def)

lemma createInstruments_log:
  "createInstruments ot xs (w, calls) = ((w', calls'), e) \<Longrightarrow>
   \<exists>n\<le>length xs. calls' = calls @ map InstrumentCreated (take n xs) \<and> (e = None \<longleftrightarrow> n = length xs)"
proof (induction xs arbitrary: w calls)
  case (Cons x xs)
  obtain w1 r where x: "ot_Instrument ot x w = (w1, r)" by (rule prod.exhaust)
  show ?case
  proof (cases r)
    case None
    with Cons.prems x have "createInstruments ot xs (w1, calls @ [InstrumentCreated x]) = ((w', calls'), e)" by simp
    from Cons.IH [OF this] obtain n where "n \<le> length xs" "calls' = (calls @ [InstrumentCreated x]) @ map InstrumentCreated (take n xs)" "e = None \<longleftrightarrow> n = length xs"
      by blast
    then show ?thesis by (intro exI [of _ "Suc n"]) simp
  next
    case (Some err)
    with Cons.prems x show ?thesis by (intro exI [of _ 0]) auto
  qed
qed simp

lemma createInstruments_append:
  "createInstruments ot (xs @ ys) s =
   (case createInstruments ot xs s of (s, Some err) \<Rightarrow> (s, Some err) | (s, None) \<Rightarrow> createInstruments ot ys s)"
  by (induction ot xs s rule: createInstruments.induct) (auto split: option.splits prod.splits)

definition allInstruments :: "instrument_spec list" where
  "allInstruments = proxyInstruments @ deploymentInstruments @ map snd containerInstruments"

lemma newMetrics_all: "newMetrics ot s = createInstruments ot allInstruments s"
  unfolding newMetrics_def containerMetrics_init_def allInstruments_def append_assoc [symmetric] by (subst createInstruments_append) simp

lemma allInstruments_distinct: "distinct (map is_Name allInstruments)"
  by code_simp

text \<open>
  Either the provider is complete and global, or nothing is: a provider that was set up only in
  part is shut down again and never becomes the global one.
\<close>

lemma telemetry_New_all_or_nothing:
  assumes "telemetry_New ot cfg w = ((w', calls), r)"
  shows "(GlobalProviderSet \<in> set calls \<longleftrightarrow> tc_Enabled cfg \<and> (\<exists>p. r = Inr p)) \<and>
    (\<forall>rs err. r = Inl err \<and> MeterProviderCreated rs \<in> set calls \<longrightarrow> last calls = MeterProviderShutdown) \<and>
    (\<forall>p. r = Inr p \<longrightarrow> MeterProviderShutdown \<notin> set calls \<and> provider_Enabled p = tc_Enabled cfg \<and> created calls = pv_instruments p \<and>
      (tc_Enabled cfg \<longrightarrow> created calls = allInstruments))"
proof -
  have c: "createInstruments ot allInstruments (v, [MeterProviderCreated rs]) = ((v', calls'), e) \<Longrightarrow>
      set calls' \<inter> {GlobalProviderSet, MeterProviderShutdown} = {} \<and> (e = None \<longrightarrow> created calls' = allInstruments)" for v rs v' calls' e
    by (auto dest!: createInstruments_log simp: created_def List.map_filter_def comp_def)
  show ?thesis
    using assms c
    by (auto simp: telemetry_New_def newMetrics_all Let_def disabledProvider_def provider_Enabled_def allInstruments_def otlpReaders_def
        split: if_splits prod.splits option.splits sum.splits)
qed

text \<open>What a collection reports is observed of a snapshot that an inspection returned, and a disabled provider reports nothing.\<close>

lemma collect_observed:
  "collect unix now fn s = (s', obs) \<Longrightarrow> obs = [] \<or> (ob_cachedOK s' \<and> obs = observe unix (ob_cached s'))"
  using snapshot_cases [of now fn s s'] by (auto simp: collect_def split: prod.splits option.splits if_splits)

lemma RegisterContainerObserver_disabled: "RegisterContainerObserver register disabledProvider b w = (w, None, None)"
  by (simp add: RegisterContainerObserver_def provider_Enabled_def disabledProvider_def)

end
