(* ===== verification/Cache_Client.thy ===== *)
theory Cache_Client
  imports Cache_Store
begin

text \<open>
  The client of Cloud Storage that the cache uses by default (gsStorageClient in cache/gs.go): the
  operations of the cache in terms of readers, writers with conditions, and iterators of the
  storage library. The library is a parameter; the locale \<open>bucket_service\<close> states the
  conditional uploads it documents, from which the client meets the contract of the cache.
\<close>

section \<open>The client\<close>

text \<open>storage.Conditions: the zero value is rejected by the library, so absence has its own field.\<close>

record Conditions =
  cd_DoesNotExist :: bool
  cd_GenerationMatch :: goint

definition noConditions :: Conditions where
  "noConditions = \<lparr>cd_DoesNotExist = False, cd_GenerationMatch = 0\<rparr>"

text \<open>
  A writer belongs to an object under conditions, None for an object without; what is written
  becomes visible when Close succeeds, which then gives the generation. Reading an object
  may fail when it is opened or later. An iterator is the list of its results.
\<close>

record 'o Bucket =
  bk_NewReader :: "string \<Rightarrow> string \<Rightarrow> 'o \<Rightarrow> 'o \<times> (gs_error + (gs_error + string) \<times> goint)"
  bk_Write :: "string \<Rightarrow> string \<Rightarrow> Conditions option \<Rightarrow> string \<Rightarrow> 'o \<Rightarrow> 'o \<times> gs_error option"
  bk_Close :: "string \<Rightarrow> string \<Rightarrow> Conditions option \<Rightarrow> 'o \<Rightarrow> 'o \<times> (gs_error + goint)"
  bk_Delete :: "string \<Rightarrow> string \<Rightarrow> 'o \<Rightarrow> 'o \<times> gs_error option"
  bk_Objects :: "string \<Rightarrow> string \<Rightarrow> 'o \<Rightarrow> 'o \<times> (gs_error + string) list"

definition client_GetObject :: "'o Bucket \<Rightarrow> string \<Rightarrow> string \<Rightarrow> 'o \<Rightarrow> 'o \<times> (gs_error + string)" where
  "client_GetObject bk b n ob = (case bk_NewReader bk b n ob of
     (ob, Inl e) \<Rightarrow> (ob, Inl e) | (ob, Inr (content, gen)) \<Rightarrow> (ob, content))"

text \<open>A writer that failed is closed, and the error of the write is reported.\<close>

definition upload :: "'o Bucket \<Rightarrow> string \<Rightarrow> string \<Rightarrow> Conditions option \<Rightarrow> string \<Rightarrow> 'o \<Rightarrow> 'o \<times> (gs_error + goint)" where
  "upload bk b n conds d ob = (case bk_Write bk b n conds d ob of
     (ob, Some e) \<Rightarrow> (fst (bk_Close bk b n conds ob), Inl e)
   | (ob, None) \<Rightarrow> bk_Close bk b n conds ob)"

definition client_PutObject :: "'o Bucket \<Rightarrow> string \<Rightarrow> string \<Rightarrow> string \<Rightarrow> 'o \<Rightarrow> 'o \<times> gs_error option" where
  "client_PutObject bk b n d ob = (case upload bk b n None d ob of (ob, Inl e) \<Rightarrow> (ob, Some e) | (ob, Inr gen) \<Rightarrow> (ob, None))"

definition client_DeleteObject :: "'o Bucket \<Rightarrow> string \<Rightarrow> string \<Rightarrow> 'o \<Rightarrow> 'o \<times> gs_error option" where
  "client_DeleteObject bk b n ob = bk_Delete bk b n ob"

fun collectNames :: "(gs_error + string) list \<Rightarrow> string list \<Rightarrow> gs_error + string list" where
  "collectNames [] names = Inr names"
| "collectNames (Inl e # xs) names = Inl e"
| "collectNames (Inr n # xs) names = collectNames xs (if n \<noteq> [] then names @ [n] else names)"

definition client_ListObjects :: "'o Bucket \<Rightarrow> string \<Rightarrow> string \<Rightarrow> 'o \<Rightarrow> 'o \<times> (gs_error + string list)" where
  "client_ListObjects bk b pfx ob = (case bk_Objects bk b pfx ob of (ob, xs) \<Rightarrow> (ob, collectNames xs []))"

definition client_ReadWithGeneration :: "'o Bucket \<Rightarrow> string \<Rightarrow> string \<Rightarrow> 'o \<Rightarrow> 'o \<times> (gs_error + string \<times> goint)" where
  "client_ReadWithGeneration bk b n ob = (case bk_NewReader bk b n ob of
     (ob, Inl e) \<Rightarrow> (ob, Inl e)
   | (ob, Inr (content, gen)) \<Rightarrow> (ob, case content of Inl e \<Rightarrow> Inl e | Inr d \<Rightarrow> Inr (d, gen)))"

definition generationConditions :: "goint \<Rightarrow> Conditions" where
  "generationConditions expected =
     (if expected = 0 then noConditions\<lparr>cd_DoesNotExist := True\<rparr> else noConditions\<lparr>cd_GenerationMatch := expected\<rparr>)"

definition client_WriteIfGeneration :: "'o Bucket \<Rightarrow> string \<Rightarrow> string \<Rightarrow> string \<Rightarrow> goint \<Rightarrow> 'o \<Rightarrow> 'o \<times> (gs_error + goint)" where
  "client_WriteIfGeneration bk b n d expected ob = upload bk b n (Some (generationConditions expected)) d ob"

definition gsStorageClient :: "'o Bucket \<Rightarrow> 'o GSClient" where
  "gsStorageClient bk = \<lparr>gc_GetObject = client_GetObject bk, gc_PutObject = client_PutObject bk, gc_DeleteObject = client_DeleteObject bk,
     gc_ListObjects = client_ListObjects bk, gc_ReadWithGeneration = client_ReadWithGeneration bk,
     gc_WriteIfGeneration = client_WriteIfGeneration bk\<rparr>"

section \<open>The contract of the library\<close>

text \<open>
  One object of the bucket with its generation. A writer changes the object only when Close
  succeeds, which it does only if the conditions hold then; generations are positive and a new one
  is given to every upload. An empty set of conditions is refused.
\<close>

definition holds_for :: "Conditions \<Rightarrow> (string \<times> goint) option \<Rightarrow> bool" where
  "holds_for c x = (if cd_DoesNotExist c then x = None else (\<exists>d. x = Some (d, cd_GenerationMatch c)))"

locale bucket_service =
  fixes bk :: "'o Bucket" and b :: string and n :: string and obj :: "'o \<Rightarrow> (string \<times> goint) option"
  assumes reader: "bk_NewReader bk b n o1 = (o2, Inr (content, gen)) \<Longrightarrow>
      obj o2 = obj o1 \<and> (\<forall>d. content = Inr d \<longrightarrow> obj o1 = Some (d, gen)) \<and> content \<noteq> Inl ObjectNotExist"
    and reader_error: "bk_NewReader bk b n o1 = (o2, Inl e) \<Longrightarrow> obj o2 = obj o1 \<and> (e = ObjectNotExist \<longrightarrow> obj o1 = None)"
    and close_conditional: "bk_Write bk b n (Some c) d o1 = (o2, None) \<Longrightarrow> bk_Close bk b n (Some c) o2 = (o3, Inr gen) \<Longrightarrow>
      holds_for c (obj o1) \<and> obj o3 = Some (d, gen) \<and> (\<forall>d0 g0. obj o1 = Some (d0, g0) \<longrightarrow> gen \<noteq> g0)"
    and close_refused: "bk_Write bk b n (Some c) d o1 = (o2, None) \<Longrightarrow> bk_Close bk b n (Some c) o2 = (o3, Inl (GoogleError 412 msg)) \<Longrightarrow>
      obj o3 = obj o1"
    and write_failed: "bk_Write bk b n (Some c) d o1 = (o2, Some e) \<Longrightarrow> obj (fst (bk_Close bk b n (Some c) o2)) = obj o1"
    and generation_range: "obj o1 = Some (d, gen) \<Longrightarrow> 0 < gen \<and> in_int64 gen"
begin

lemma upload_Inr:
  assumes "upload bk b n (Some c) d o1 = (o2, Inr gen)"
  shows "holds_for c (obj o1) \<and> obj o2 = Some (d, gen) \<and> (\<forall>d0 g0. obj o1 = Some (d0, g0) \<longrightarrow> gen \<noteq> g0)"
proof -
  obtain o3 r where w: "bk_Write bk b n (Some c) d o1 = (o3, r)" by (rule prod.exhaust)
  with assms have "r = None" "bk_Close bk b n (Some c) o3 = (o2, Inr gen)" by (auto simp: upload_def split: option.splits)
  with close_conditional w show ?thesis by blast
qed

lemma upload_412:
  assumes "upload bk b n (Some c) d o1 = (o2, Inl (GoogleError 412 msg))"
  shows "obj o2 = obj o1"
proof -
  obtain o3 r where w: "bk_Write bk b n (Some c) d o1 = (o3, r)" by (rule prod.exhaust)
  show ?thesis
  proof (cases r)
    case None
    with assms w have "bk_Close bk b n (Some c) o3 = (o2, Inl (GoogleError 412 msg))" by (simp add: upload_def)
    with close_refused w None show ?thesis by blast
  next
    case (Some e)
    with assms w have "o2 = fst (bk_Close bk b n (Some c) o3)" by (simp add: upload_def)
    with write_failed w Some show ?thesis by blast
  qed
qed

text \<open>Two instances that write through the library from the same generation: the second is refused.\<close>

lemma client_two_writers:
  assumes "client_WriteIfGeneration bk b n d1 m o1 = (o2, Inr g1)" "obj o3 = obj o2" "client_WriteIfGeneration bk b n d2 m o3 = (o4, Inr g2)"
  shows False
  using assms upload_Inr [of "generationConditions m" d1 o1 o2 g1] upload_Inr [of "generationConditions m" d2 o3 o4 g2]
  by (auto simp: client_WriteIfGeneration_def holds_for_def generationConditions_def noConditions_def split: if_splits)

end

text \<open>The backend of the cache over such a bucket meets the generation preconditions it was verified for.\<close>

locale gs_backend = bucket_service bk "gs_Bucket g" "GS_objectName g key" obj
  for bk :: "'o Bucket" and g :: GS and key :: string and obj :: "'o \<Rightarrow> (string \<times> goint) option"

sublocale gs_backend \<subseteq> client: gs_service "gsStorageClient bk" g key obj
proof
  fix o1 o2 d gen e m k msg
  let ?b = "gs_Bucket g" and ?n = "GS_objectName g key"
  show "gc_ReadWithGeneration (gsStorageClient bk) ?b ?n o1 = (o2, Inr (d, gen)) \<Longrightarrow> obj o1 = Some (d, gen) \<and> obj o2 = obj o1"
    using reader by (fastforce simp: gsStorageClient_def client_ReadWithGeneration_def split: prod.splits sum.splits)
  show "gc_ReadWithGeneration (gsStorageClient bk) ?b ?n o1 = (o2, Inl e) \<Longrightarrow> obj o2 = obj o1 \<and> (e = ObjectNotExist \<longrightarrow> obj o1 = None)"
    using reader reader_error by (fastforce simp: gsStorageClient_def client_ReadWithGeneration_def split: prod.splits sum.splits)
  show "gc_WriteIfGeneration (gsStorageClient bk) ?b ?n d 0 o1 = (o2, Inr k) \<Longrightarrow> obj o1 = None \<and> obj o2 = Some (d, k)"
    using upload_Inr [of "generationConditions 0" d o1 o2 k]
    by (auto simp: gsStorageClient_def client_WriteIfGeneration_def generationConditions_def holds_for_def)
  show "m \<noteq> 0 \<Longrightarrow> gc_WriteIfGeneration (gsStorageClient bk) ?b ?n d m o1 = (o2, Inr k) \<Longrightarrow>
      \<exists>d0. obj o1 = Some (d0, m) \<and> obj o2 = Some (d, k) \<and> k \<noteq> m"
    using upload_Inr [of "generationConditions m" d o1 o2 k]
    by (auto simp: gsStorageClient_def client_WriteIfGeneration_def generationConditions_def holds_for_def noConditions_def)
  show "gc_WriteIfGeneration (gsStorageClient bk) ?b ?n d m o1 = (o2, Inl (GoogleError 412 msg)) \<Longrightarrow> obj o2 = obj o1"
    using upload_412 by (auto simp: gsStorageClient_def client_WriteIfGeneration_def)
  show "obj o1 = Some (d, gen) \<Longrightarrow> 0 < gen \<and> in_int64 gen" by (rule generation_range)
qed

context gs_backend
begin

text \<open>Of two instances that write over the same version the second gets no success.\<close>

lemma two_writers:
  assumes "GS_WriteIfMatch (gsStorageClient bk) g key v d1 w = (w1, Inr v1)" "obj w2 = obj w1"
  shows "GS_WriteIfMatch (gsStorageClient bk) g key v d2 w2 \<noteq> (w3, Inr v2)"
proof
  assume "GS_WriteIfMatch (gsStorageClient bk) g key v d2 w2 = (w3, Inr v2)"
  then obtain m g2 where m: "(if v = [] then Some 0 else atoi_opt v) = Some m"
      "client_WriteIfGeneration bk (gs_Bucket g) (GS_objectName g key) d2 m w2 = (w3, Inr g2)"
    by (auto simp: GS_WriteIfMatch_def gsStorageClient_def split: option.splits prod.splits sum.splits)
  with assms(1) obtain g1 where "client_WriteIfGeneration bk (gs_Bucket g) (GS_objectName g key) d1 m w = (w1, Inr g1)"
    by (auto simp: GS_WriteIfMatch_def gsStorageClient_def split: option.splits prod.splits sum.splits)
  from client_two_writers [OF this assms(2) m(2)] show False .
qed

end

section \<open>A bucket with one object\<close>

text \<open>The object and the content of the writer that is open; at the last generation uploads fail.\<close>

definition one_bucket :: "((string \<times> goint) option \<times> string) Bucket" where
  "one_bucket = \<lparr>
     bk_NewReader = (\<lambda>b n w. (w, case fst w of None \<Rightarrow> Inl ObjectNotExist
        | Some (d, g) \<Rightarrow> if 0 < g \<and> in_int64 g then Inr (Inr d, g) else Inl (GSError ''corrupt''))),
     bk_Write = (\<lambda>b n c d w. ((fst w, d), None)),
     bk_Close = (\<lambda>b n c w. (let g = (case fst w of None \<Rightarrow> 1 | Some (d, g) \<Rightarrow> g + 1) in
        if (case c of None \<Rightarrow> True | Some c \<Rightarrow>
              if cd_DoesNotExist c then fst w = None else (case fst w of None \<Rightarrow> False | Some (d, g) \<Rightarrow> g = cd_GenerationMatch c \<and> 0 < g \<and> in_int64 (g + 1)))
        then ((Some (snd w, g), snd w), Inr g) else (w, Inl (GoogleError 412 [])))),
     bk_Delete = (\<lambda>b n w. ((None, snd w), case fst w of None \<Rightarrow> Some ObjectNotExist | Some _ \<Rightarrow> None)),
     bk_Objects = (\<lambda>b p w. (w, []))\<rparr>"

definition valid_object :: "(string \<times> goint) option \<times> string \<Rightarrow> (string \<times> goint) option" where
  "valid_object w = (case fst w of Some (d, g) \<Rightarrow> if 0 < g \<and> in_int64 g then Some (d, g) else None | None \<Rightarrow> None)"

interpretation one_bucket: gs_backend one_bucket g key valid_object
  by unfold_locales
    (auto simp: one_bucket_def valid_object_def holds_for_def Let_def int64_defs split: option.splits if_splits prod.splits)

lemma one_bucket_no_second_write:
  "GS_WriteIfMatch (gsStorageClient one_bucket) g key v d1 w = (w1, Inr v1) \<Longrightarrow> valid_object w2 = valid_object w1 \<Longrightarrow>
   GS_WriteIfMatch (gsStorageClient one_bucket) g key v d2 w2 \<noteq> (w3, Inr v2)"
  by (rule one_bucket.two_writers)

text \<open>The listing returns every name that is not empty, in order, or the first error.\<close>

lemma collectNames_append:
  "collectNames xs names = (case find isl xs of Some e \<Rightarrow> Inl (projl e) | None \<Rightarrow> Inr (names @ filter (\<lambda>n. n \<noteq> []) (map projr xs)))"
  by (induction xs names rule: collectNames.induct) (auto split: option.splits)

end
