(* ===== verification/Sysdeps.thy ===== *)
theory Sysdeps
  imports Registry_Cached Container_Runtime
begin

text \<open>
  The deterministic surroundings of internal/sysdeps/fake (clock.go, env.go, exec.go), and the
  choice of level and format in logging/logger.go. Timers are shared by reference, so that a clock
  keeps them in a heap and lists the registered ones by address. The shared facts: a clock fires
  exactly the timers that are due, and the log of a container runtime lists the calls
  that a recording runner sees.
\<close>

section \<open>The clock (clock.go)\<close>

text \<open>The channel of a timer holds one value.\<close>

record fakeTimer =
  ft_deadline :: int
  ft_fireTime :: int
  ft_ch :: "int option"
  ft_stopped :: bool

record Clock =
  ck_now :: int
  ck_timers :: "nat list"
  ck_heap :: "fakeTimer list"

definition NewClock :: "int \<Rightarrow> Clock" where
  "NewClock start = \<lparr>ck_now = start, ck_timers = [], ck_heap = []\<rparr>"

text \<open>The timers that remain, those that fire, and the heap.\<close>

fun collectExpired :: "int \<Rightarrow> nat list \<Rightarrow> fakeTimer list \<Rightarrow> nat list \<times> nat list \<times> fakeTimer list" where
  "collectExpired now [] H = ([], [], H)"
| "collectExpired now (i # is) H =
     (if ft_stopped (H ! i) then collectExpired now is H
      else if ft_deadline (H ! i) \<le> now then
        (case collectExpired now is (H[i := (H ! i)\<lparr>ft_stopped := True, ft_fireTime := now\<rparr>]) of
           (remaining, fired, H) \<Rightarrow> (remaining, i # fired, H))
      else (case collectExpired now is H of (remaining, fired, H) \<Rightarrow> (i # remaining, fired, H)))"

fun fireAll :: "nat list \<Rightarrow> fakeTimer list \<Rightarrow> fakeTimer list" where
  "fireAll [] H = H"
| "fireAll (i # is) H = fireAll is (case ft_ch (H ! i) of
     None \<Rightarrow> H[i := (H ! i)\<lparr>ft_ch := Some (ft_fireTime (H ! i))\<rparr>] | Some _ \<Rightarrow> H)"

definition Clock_Set :: "int \<Rightarrow> Clock \<Rightarrow> Clock" where
  "Clock_Set t c = (case collectExpired t (ck_timers c) (ck_heap c) of
     (remaining, fired, H) \<Rightarrow> \<lparr>ck_now = t, ck_timers = remaining, ck_heap = fireAll fired H\<rparr>)"

definition Clock_Advance :: "int \<Rightarrow> Clock \<Rightarrow> Clock" where
  "Clock_Advance d c = Clock_Set (ck_now c + d) c"

definition Clock_NewTimer :: "int \<Rightarrow> Clock \<Rightarrow> Clock \<times> nat" where
  "Clock_NewTimer d c =
     (c\<lparr>ck_timers := ck_timers c @ [length (ck_heap c)],
        ck_heap := ck_heap c @ [\<lparr>ft_deadline = ck_now c + d, ft_fireTime = 0, ft_ch = None, ft_stopped = False\<rparr>]\<rparr>,
      length (ck_heap c))"

definition Timer_Stop :: "nat \<Rightarrow> Clock \<Rightarrow> Clock \<times> bool" where
  "Timer_Stop i c =
     (if ft_stopped (ck_heap c ! i) then (c, False)
      else (c\<lparr>ck_heap := (ck_heap c)[i := (ck_heap c ! i)\<lparr>ft_stopped := True\<rparr>]\<rparr>, True))"

text \<open>A receive from the channel of a timer that does not wait.\<close>

definition Timer_C :: "nat \<Rightarrow> Clock \<Rightarrow> Clock \<times> int option" where
  "Timer_C i c = (c\<lparr>ck_heap := (ck_heap c)[i := (ck_heap c ! i)\<lparr>ft_ch := None\<rparr>]\<rparr>, ft_ch (ck_heap c ! i))"

section \<open>The environment (env.go)\<close>

record Env =
  en_vars :: "string \<Rightarrow> string option"
  en_hostname :: string
  en_hostErr :: "string option"
  en_pid :: goint

definition NewEnv :: Env where
  "NewEnv = \<lparr>en_vars = (\<lambda>_. None), en_hostname = ''test-host'', en_hostErr = None, en_pid = 1\<rparr>"

definition Env_Set :: "string \<Rightarrow> string \<Rightarrow> Env \<Rightarrow> Env" where
  "Env_Set k v e = e\<lparr>en_vars := (en_vars e)(k \<mapsto> v)\<rparr>"

definition SetHostname :: "string \<Rightarrow> Env \<Rightarrow> Env" where
  "SetHostname name e = e\<lparr>en_hostname := name, en_hostErr := None\<rparr>"

definition SetHostnameError :: "string option \<Rightarrow> Env \<Rightarrow> Env" where
  "SetHostnameError err e = e\<lparr>en_hostErr := err\<rparr>"

definition SetPid :: "goint \<Rightarrow> Env \<Rightarrow> Env" where "SetPid pid e = e\<lparr>en_pid := pid\<rparr>"

definition Env_Get :: "string \<Rightarrow> Env \<Rightarrow> string" where
  "Env_Get k e = (case en_vars e k of None \<Rightarrow> [] | Some v \<Rightarrow> v)"

definition Env_Hostname :: "Env \<Rightarrow> string \<times> string option" where
  "Env_Hostname e = (en_hostname e, en_hostErr e)"

definition Env_Pid :: "Env \<Rightarrow> goint" where "Env_Pid = en_pid"

text \<open>The option of the shared registry cache (registry/cached.go) that takes its node id from an environment.\<close>

definition WithEnv :: "Env option \<Rightarrow> Cached \<Rightarrow> Cached" where
  "WithEnv env x = (case env of
     None \<Rightarrow> x
   | Some e \<Rightarrow> x\<lparr>ca_nodeID := nodeIDFrom (case Env_Hostname e of (host, None) \<Rightarrow> Some host | (_, Some _) \<Rightarrow> None) (Env_Pid e)\<rparr>)"

section \<open>The command runner (exec.go)\<close>

type_synonym commandResponse = "string list \<Rightarrow> string \<times> string option"

record CommandRunner =
  fr_calls :: "(string \<times> string list) list"
  fr_responses :: "string \<Rightarrow> commandResponse option"
  fr_paths :: "string \<Rightarrow> string option"

definition NewCommandRunner :: CommandRunner where
  "NewCommandRunner = \<lparr>fr_calls = [], fr_responses = (\<lambda>_. None), fr_paths = (\<lambda>_. None)\<rparr>"

definition SetOutputFunc :: "string \<Rightarrow> commandResponse \<Rightarrow> CommandRunner \<Rightarrow> CommandRunner" where
  "SetOutputFunc name fn c = c\<lparr>fr_responses := (fr_responses c)(name \<mapsto> fn)\<rparr>"

definition SetOutput :: "string \<Rightarrow> string \<Rightarrow> CommandRunner \<Rightarrow> CommandRunner" where
  "SetOutput name out = SetOutputFunc name (\<lambda>_. (out, None))"

definition SetError :: "string \<Rightarrow> string option \<Rightarrow> CommandRunner \<Rightarrow> CommandRunner" where
  "SetError name err = SetOutputFunc name (\<lambda>_. ([], err))"

definition SetPath :: "string \<Rightarrow> string \<Rightarrow> CommandRunner \<Rightarrow> CommandRunner" where
  "SetPath name path c = c\<lparr>fr_paths := (fr_paths c)(name \<mapsto> path)\<rparr>"

definition runner_record :: "string \<Rightarrow> string list \<Rightarrow> CommandRunner \<Rightarrow> CommandRunner" where
  "runner_record name args c = c\<lparr>fr_calls := fr_calls c @ [(name, args)]\<rparr>"

definition runner_respond :: "string \<Rightarrow> string list \<Rightarrow> CommandRunner \<Rightarrow> string \<times> string option" where
  "runner_respond name args c = (case fr_responses c name of
     None \<Rightarrow> ([], Some (''fake: unregistered command: '' @ name)) | Some fn \<Rightarrow> fn args)"

text \<open>ctxErr is the error of the context.\<close>

definition Runner_Output :: "string option \<Rightarrow> string \<Rightarrow> string list \<Rightarrow> CommandRunner \<Rightarrow> CommandRunner \<times> string \<times> string option" where
  "Runner_Output ctxErr name args c =
     (let c = runner_record name args c in (c, case ctxErr of Some err \<Rightarrow> ([], Some err) | None \<Rightarrow> runner_respond name args c))"

definition Runner_Run :: "string option \<Rightarrow> string \<Rightarrow> string list \<Rightarrow> CommandRunner \<Rightarrow> CommandRunner \<times> string option" where
  "Runner_Run ctxErr name args c =
     (let c = runner_record name args c in (c, case ctxErr of Some err \<Rightarrow> Some err | None \<Rightarrow> snd (runner_respond name args c)))"

definition Runner_LookPath :: "string \<Rightarrow> CommandRunner \<Rightarrow> string \<times> string option" where
  "Runner_LookPath name c = (case fr_paths c name of
     None \<Rightarrow> ([], Some (''fake: command not found: '' @ name)) | Some p \<Rightarrow> (p, None))"

text \<open>The host that a runtime with this runner sees; no error of the runner is an exit status.\<close>

definition runner_host :: "CommandRunner \<Rightarrow> CommandRunner host \<Rightarrow> CommandRunner host" where
  "runner_host c h = h\<lparr>
     h_output := (\<lambda>w cmd args. case Runner_Output None cmd args w of
        (w, out, None) \<Rightarrow> (w, Inr out) | (w, out, Some err) \<Rightarrow> (w, Inl (StartError err))),
     h_lookPath := (\<lambda>name. snd (Runner_LookPath name c))\<rparr>"

section \<open>The logger (logger.go)\<close>

datatype log_level = LevelDebug | LevelInfo | LevelWarn | LevelError

datatype log_handler = JSONHandler | TextHandler

record Logger =
  lg_level :: log_level
  lg_handler :: log_handler
  lg_format :: string

definition SetupLogger :: "string \<Rightarrow> string \<Rightarrow> Logger" where
  "SetupLogger level format =
     \<lparr>lg_level = (let l = toUpper level in
        if l = ''DEBUG'' then LevelDebug else if l = ''INFO'' then LevelInfo else if l = ''WARN'' then LevelWarn
        else if l = ''ERROR'' then LevelError else LevelInfo),
      lg_handler = (if toLower format = ''json'' then JSONHandler else TextHandler),
      lg_format = toLower format\<rparr>"

definition Logger_Format :: "Logger \<Rightarrow> string" where "Logger_Format = lg_format"

lemma WithEnv_hostname_error: "ca_nodeID (WithEnv (Some (SetHostnameError (Some err) NewEnv)) x) = ''unknown-host:1''"
proof -
  have "itoa 1 = ''1''" by code_simp
  then show ?thesis by (simp add: WithEnv_def SetHostnameError_def NewEnv_def Env_Hostname_def Env_Pid_def nodeIDFrom_def)
qed

section \<open>Exactness of the clock\<close>

abbreviation due :: "int \<Rightarrow> fakeTimer \<Rightarrow> bool" where
  "due now T \<equiv> \<not> ft_stopped T \<and> ft_deadline T \<le> now"

lemma update_elsewhere: "i \<notin> set is \<Longrightarrow> j \<in> set is \<Longrightarrow> H[i := x] ! j = H ! j"
  by (metis nth_list_update_neq)

lemma collectExpired_spec:
  assumes "distinct is" "set is \<subseteq> {..< length H}" "collectExpired now is H = (remaining, fired, H')"
  shows "remaining = filter (\<lambda>i. \<not> ft_stopped (H ! i) \<and> now < ft_deadline (H ! i)) is \<and> fired = filter (\<lambda>i. due now (H ! i)) is \<and>
    length H' = length H \<and>
    (\<forall>i. H' ! i = (if i \<in> set fired then (H ! i)\<lparr>ft_stopped := True, ft_fireTime := now\<rparr> else H ! i))"
  using assms
proof (induction "is" arbitrary: H remaining fired)
  case (Cons i "is")
  show ?case
  proof (cases "due now (H ! i)")
    case True
    let ?H = "H[i := (H ! i)\<lparr>ft_stopped := True, ft_fireTime := now\<rparr>]"
    obtain r f where c: "collectExpired now is ?H = (r, f, H')" "remaining = r" "fired = i # f"
      using Cons.prems(3) True by (auto split: prod.splits)
    have "i \<notin> set is" using Cons.prems(1) by simp
    then have f: "filter (\<lambda>i. P (?H ! i)) is = filter (\<lambda>i. P (H ! i)) is" for P
      by (intro filter_cong) (simp_all add: update_elsewhere [of i "is"])
    from Cons.IH [OF _ _ c(1)] Cons.prems(1,2)
    have "r = filter (\<lambda>i. \<not> ft_stopped (?H ! i) \<and> now < ft_deadline (?H ! i)) is" "f = filter (\<lambda>i. due now (?H ! i)) is"
      "length H' = length H" and H': "\<forall>j. H' ! j = (if j \<in> set f then (?H ! j)\<lparr>ft_stopped := True, ft_fireTime := now\<rparr> else ?H ! j)"
      by simp_all
    moreover from this(2) have "i \<notin> set f" using Cons.prems(1) by auto
    ultimately show ?thesis
      using c True Cons.prems(2) f [of "\<lambda>T. \<not> ft_stopped T \<and> now < ft_deadline T"] f [of "due now"]
      by (auto simp: nth_list_update)
  next
    case False
    then show ?thesis using Cons by (fastforce split: if_splits prod.splits)
  qed
qed simp

lemma fireAll_spec:
  assumes "distinct is" "set is \<subseteq> {..< length H}" "\<forall>i\<in>set is. ft_ch (H ! i) = None"
  shows "length (fireAll is H) = length H \<and>
    (\<forall>i. fireAll is H ! i = (if i \<in> set is then (H ! i)\<lparr>ft_ch := Some (ft_fireTime (H ! i))\<rparr> else H ! i))"
  using assms
proof (induction "is" arbitrary: H)
  case (Cons i "is")
  let ?H = "H[i := (H ! i)\<lparr>ft_ch := Some (ft_fireTime (H ! i))\<rparr>]"
  have f: "fireAll (i # is) H = fireAll is ?H" using Cons.prems(3) by simp
  have "\<forall>j\<in>set is. ft_ch (?H ! j) = None" using Cons.prems(1,3) by (simp add: update_elsewhere [of i "is"])
  from Cons.IH [OF _ _ this] Cons.prems(1,2)
  have IH: "length (fireAll is ?H) = length H"
    "\<forall>j. fireAll is ?H ! j = (if j \<in> set is then (?H ! j)\<lparr>ft_ch := Some (ft_fireTime (?H ! j))\<rparr> else ?H ! j)"
    by simp_all
  show ?case unfolding f using IH Cons.prems(1,2) by (auto simp: nth_list_update)
qed simp

text \<open>The registered timers are in the heap, each once; a timer that still runs is registered and has sent nothing.\<close>

definition clock_inv :: "Clock \<Rightarrow> bool" where
  "clock_inv c = (distinct (ck_timers c) \<and> set (ck_timers c) \<subseteq> {..< length (ck_heap c)} \<and>
     (\<forall>i<length (ck_heap c). \<not> ft_stopped (ck_heap c ! i) \<longrightarrow> i \<in> set (ck_timers c) \<and> ft_ch (ck_heap c ! i) = None) \<and>
     (\<forall>i<length (ck_heap c). \<forall>v. ft_ch (ck_heap c ! i) = Some v \<longrightarrow> ft_deadline (ck_heap c ! i) \<le> v))"

text \<open>Setting the clock fires the running timers that are due with the new time, and touches no other.\<close>

lemma Clock_Set_exact:
  assumes "clock_inv c"
  shows "length (ck_heap (Clock_Set t c)) = length (ck_heap c) \<and>
    ck_timers (Clock_Set t c) = filter (\<lambda>i. \<not> ft_stopped (ck_heap c ! i) \<and> t < ft_deadline (ck_heap c ! i)) (ck_timers c) \<and>
    (\<forall>i<length (ck_heap c). ck_heap (Clock_Set t c) ! i =
      (if due t (ck_heap c ! i) then (ck_heap c ! i)\<lparr>ft_stopped := True, ft_fireTime := t, ft_ch := Some t\<rparr> else ck_heap c ! i))"
proof -
  let ?H = "ck_heap c"
  obtain r f H where c: "collectExpired t (ck_timers c) ?H = (r, f, H)" by (metis surj_pair)
  have inv: "distinct (ck_timers c)" "set (ck_timers c) \<subseteq> {..< length ?H}"
    "\<And>i. i < length ?H \<Longrightarrow> \<not> ft_stopped (?H ! i) \<Longrightarrow> i \<in> set (ck_timers c) \<and> ft_ch (?H ! i) = None"
    using assms by (auto simp: clock_inv_def)
  note s = collectExpired_spec [OF inv(1,2) c]
  then have f: "distinct f" "set f \<subseteq> {..< length H}" "\<forall>i\<in>set f. ft_ch (H ! i) = None" using inv by auto
  have iff: "i \<in> set f \<longleftrightarrow> due t (?H ! i)" if "i < length ?H" for i using s inv(3) [OF that] by auto
  show ?thesis using fireAll_spec [OF f] s c iff by (auto simp: Clock_Set_def)
qed

datatype clock_op = OpNewTimer int | OpSet int | OpAdvance int | OpStop nat | OpReceive nat

fun clock_step :: "clock_op \<Rightarrow> Clock \<Rightarrow> Clock" where
  "clock_step (OpNewTimer d) c = fst (Clock_NewTimer d c)"
| "clock_step (OpSet t) c = Clock_Set t c"
| "clock_step (OpAdvance d) c = Clock_Advance d c"
| "clock_step (OpStop i) c = (if i < length (ck_heap c) then fst (Timer_Stop i c) else c)"
| "clock_step (OpReceive i) c = (if i < length (ck_heap c) then fst (Timer_C i c) else c)"

lemma clock_inv_Set: "clock_inv c \<Longrightarrow> clock_inv (Clock_Set t c)"
  using Clock_Set_exact [of c t] by (auto simp: clock_inv_def split: if_splits)

lemma clock_inv_step: "clock_inv c \<Longrightarrow> clock_inv (clock_step opn c)"
proof (cases opn)
  case (OpNewTimer d)
  assume "clock_inv c"
  with OpNewTimer show ?thesis by (auto simp: clock_inv_def Clock_NewTimer_def nth_append less_Suc_eq)
next
  case (OpStop i)
  assume "clock_inv c"
  with OpStop show ?thesis by (auto simp: clock_inv_def Timer_Stop_def nth_list_update)
next
  case (OpReceive i)
  assume "clock_inv c"
  with OpReceive show ?thesis by (auto simp: clock_inv_def Timer_C_def nth_list_update)
qed (auto simp: clock_inv_Set Clock_Advance_def)

lemma clock_inv_run: "clock_inv (fold clock_step ops (NewClock start))"
proof -
  have "clock_inv (NewClock start)" by (simp add: clock_inv_def NewClock_def)
  then show ?thesis by (induction ops arbitrary: start rule: rev_induct) (auto intro: clock_inv_step)
qed

text \<open>
  Whatever was done with a clock before, setting it delivers the new time to exactly the timers that
  run and are due, and only at or after their deadline.
\<close>

lemma fake_clock_exact:
  "(let c = fold clock_step ops (NewClock start); c' = Clock_Set t c in
    \<forall>i<length (ck_heap c). ft_ch (ck_heap c' ! i) =
      (if due t (ck_heap c ! i) then Some t else ft_ch (ck_heap c ! i)) \<and>
      (\<forall>v. ft_ch (ck_heap c' ! i) = Some v \<longrightarrow> ft_deadline (ck_heap c' ! i) \<le> v))"
  using Clock_Set_exact [OF clock_inv_run, of t ops start] clock_inv_Set [OF clock_inv_run, of t ops start]
  by (auto simp: Let_def clock_inv_def)

text \<open>
  A timer with no time left is due at once, but it fires only when the clock is set the next
  time; one of package time fires by itself.
\<close>

lemma fake_timer_zero:
  "(let (c, i) = Clock_NewTimer 0 (NewClock 5) in (due (ck_now c) (ck_heap c ! i), snd (Timer_C i c), snd (Timer_C i (Clock_Advance 0 c)))) =
   (True, None, Some 5)"
  by code_simp

section \<open>Recorded calls\<close>

lemma runner_host_records:
  assumes "execCommandOutput (runner_host c h) args r = (r', res)"
  shows "fr_calls (rt_world r') = fr_calls (rt_world r) @ [(rt_cmd r, args)] \<and> rt_log r' = rt_log r @ [Exec args res]"
  using assms by (auto simp: execCommandOutput_def runner_host_def Runner_Output_def runner_record_def log_event_def Let_def
    split: prod.splits option.splits)

lemma runner_host_missing: "fr_paths c cmd = None \<Longrightarrow> isl (newCLIRuntime (runner_host c h) w cmd drain)"
  by (simp add: newCLIRuntime_def runner_host_def Runner_LookPath_def)

end
