(* ===== verification/Spec2Isabelle.thy ===== *)
theory Spec2Isabelle
  imports Registry_Version_Props Registry_OCI Registry_Lease Lifecycle_Container_Props Server_Release Proxy_Copy Cli_Help GitHub_Client
    Telemetry Cache_Client Sysdeps
begin

text \<open>
  Verification of dewy, a daemon that keeps an application up to date: it asks a registry for
  the newest release, downloads the artifact or pulls the image, and deploys it as a server
  process, as a directory of assets, or as containers behind a TCP proxy with rolling updates.

  \<^bold>\<open>The program.\<close> The command line (cli.go) turns options into a configuration; dewy.go creates
  and starts an instance and runs a tick per interval. A tick of the commands server and assets
  (lifecycle.go, release.go) asks the registry, compares the answer with the cached current key,
  downloads the artifact into the cache, extracts it into a new release directory, switches the
  link of the current release, starts or restarts the server, reports and removes old releases.
  A tick of the command container pulls the image and hands over to the rolling deployment
  (container/deploy.go) which starts containers, checks their health, adds them to the proxies
  (proxy.go), and removes the old ones. Registries (registry), artifacts (artifact) and caches
  (cache) are chosen by the scheme of a URL; several instances can share registry answers in
  an atomic cache (registry/cached.go).

  \<^bold>\<open>Theories and sources.\<close>

  \<^item> Dewy_Prelude: Go integers with wrap-around, the parts of strings, strconv, net/url and
    time that are used, and the lemmas on lists, maps and sorting that all components share.

  \<^item> Go_Regex: the fragment of package regexp that the version parsers compile, with its
    leftmost-first matches. Registry_Version: version.go, semver.go, calver.go, slot.go of
    registry. Registry_Version_Props: their properties. The search for the latest version is
    verified once in the locale version_order, which both kinds of versions interpret.

  \<^item> Registry_Sources: registry.go (dispatch), platform.go, ghr.go, s3.go, gs.go, grpc.go.
    Registry_OCI: oci.go. Registry_Cached: cached.go as functions of one instance.
    Registry_Lease: many instances as a step relation on a shared cell, the abstract lease, and
    the proof that the functions run along the steps.

  \<^item> Cache_Store: the stores of the package cache. Cache_New: their construction from URLs.
    Cache_Client: the client of Cloud Storage, whose conditional uploads give the contract. The
    locale atomic_cache is the contract of the interface AtomicCache; the S3 and Cloud Storage backends provide it over the laws of their services
    (s3_service, gs_service). Artifact: the package artifact.

  \<^item> Proxy: proxy.go, proxy_backend.go. The locale backend_updater is the contract of the
    interface BackendUpdater that the rolling deployment relies on; the proxies of dewy
    interpret it. Proxy_Copy: the two copies of a connection under the idle timeout of connio.go,
    as steps of the goroutines, the clock and the peers.

  \<^item> Container_Runtime: container.go, runtime.go, image.go, credentials.go, inspect.go and
    healthcheck.go of container. Container_Deploy: container/deploy.go, container_deploy.go.

  \<^item> Lifecycle and Lifecycle_Props: config.go, lifecycle.go, release.go, hooks.go, connio.go,
    app_name.go, starter.go for the commands server and assets. Lifecycle_Deploys: what a
    successful tick does, event by event. Server_Release: that tick over the registry and the
    artifacts of GitHub, from the release service to the running server. Lifecycle_Container and
    Lifecycle_Container_Props: the same files for the command container, dewy.go with its start
    and signals, and admin_api.go.

  \<^item> Notifier: the package notifier. Slack_Color: the conversions of colours of notifier/slack.go,
    in a model of float64 as rational numbers with rounding. GitHub_Client: the package client. Container_Telemetry:
    the observations of telemetry/container.go and container_metrics.go. Telemetry: telemetry.go
    and the instruments. Cli: cli.go. Cli_Help: its help text.

  \<^item> Sysdeps: the clock, environment and command runner of internal/sysdeps/fake and the logger
    setup. A runner is one host of the container runtime, so that the log the properties speak of
    is what the runner records.

  \<^bold>\<open>State and effects.\<close> A struct is a record with its fields behind a short prefix, an error
  return is a sum or an option, an integer of Go is an int with the wrap-around written out
  or a word where bits matter. Code outside the repository is a parameter: the container
  runtime process (record host), the clients of GitHub, S3, Cloud Storage and gRPC, the HTTP client
  and resolver (oci_env), the operating system and the process starter (deps), sockets
  (network), the clock, url.Parse, the decoders of JSON and of query parameters, the parser of
  flags, PEM and X.509. Each is a function on the state of a world that the operation threads
  through, so it may answer differently at each call. A log records the commands and
  effects in order; the properties on ordering speak of the log.

  \<^bold>\<open>What is shown.\<close>

  \<^item> Choice of a release: the selected version passes the filters and is maximal, the comparison
    is the precedence of versions, parsing and printing are inverse; every registry offers an
    artifact of that version; a token is requested only from public endpoints, with a bounded
    number of requests.

  \<^item> Shared cache: the code of an instance, interleaved with any others, implements an abstract
    lease, only the holder of the newest claim publishes, a query asks the registry at most once and is not blocked by a crashed peer. The
    conditional writes lose no update.

  \<^item> Deployment: a failed deployment keeps the backends and the running containers, a
    successful one starts before it stops, a shutdown closes what was opened and stops every
    container; the link of the current release points only to complete releases; a tick with a new
    release and working services deploys it completely and in order, one without changes nothing. Over GitHub, what runs in the end was extracted from the bytes the service
    delivers for an asset of the newest published release. The properties of this theory
    put the command line, the creation, the start, ticks, signals, proxies and the rolling
    deployment together.

  \<^item> Containment: cache keys and extracted archives stay below their directories; downloads
    stay within their limit; extra arguments cannot take over managed options.

  \<^item> Notifications: errors are limited; the colour derived from the name of the host is
    never red, and the conversions it takes are inverse to each other on all colours.

  \<^item> Concurrency: the metrics of the proxy are exact in each interleaving; a proxied connection is
    cut off as idle only after a whole timeout without a forwarded chunk in either direction, and
    no silent peer blocks a copy for longer; concurrent requests
    share an installation token; scrapes are collapsed, and telemetry is set up completely or not at all.

  \<^bold>\<open>Loops.\<close> Recursions over lists are structural. The listing of tags stops after the 100 pages
  of the source, the admin server after its ten ports. The loops that end only when a service
  says so (pages of GitHub releases and S3 objects, the wait of the shared cache) are partial
  functions in the option monad: not returning is None, and that they return is part of the
  properties that need it. The state of a proxy is not bounded; the round robin is
  stated up to the wrap of its 64-bit counter.

  \<^bold>\<open>Not modelled.\<close> The output of log records, the real clock and processes behind internal/sysdeps,
  generated gRPC code, the banner and the durations in metrics. Contexts are not cancelled
  except where the shared cache waits. The arithmetic of colours rounds every operation, as the
  compiler does where it does not fuse a product with a sum.
\<close>

section \<open>From the command line to the tick\<close>

lemma dewy_New_config:
  "dewy_New newCache getwd urlParse urlEncode conf = Inr (conf', wd) \<Longrightarrow>
   cg_Command conf' = cg_Command conf \<and> cg_Container conf' = cg_Container conf"
  by (auto simp: dewy_New_def Let_def split: option.splits sum.splits if_splits)

lemma configureServer_command: "configureServerCommand rk c conf = Inr conf' \<Longrightarrow> cg_Command conf' = SERVER"
  by (auto simp: configureServerCommand_def split: sum.splits)

lemma configureContainer_mappings:
  "configureContainerCommand c conf = Inr conf' \<Longrightarrow> \<exists>cc. cg_Container conf' = Some cc \<and> parsePortMappings (cl_Ports c) = Inr (cc_PortMappings cc)"
  by (auto simp: configureContainerCommand_def split: if_splits sum.splits)

lemma cli_config_container:
  assumes "cli_config rk version c = Inr conf" "cg_Command conf = CONTAINER"
  shows "\<exists>cc. cg_Container conf = Some cc \<and> parsePortMappings (cl_Ports c) = Inr (cc_PortMappings cc)"
  using assms configureServer_command configureContainer_mappings
  by (fastforce simp: cli_config_def Let_def split: if_splits)

lemma cli_run_container:
  assumes "cli_run rk version (Inr (c, args)) = RunInstance conf interval level fmt" "cg_Command conf = CONTAINER"
  shows "\<exists>cc. cg_Container conf = Some cc \<and> parsePortMappings (cl_Ports c) = Inr (cc_PortMappings cc)"
proof -
  obtain c' where "cli_config rk version c' = Inr conf" "cl_Ports c' = cl_Ports c"
    using assms(1) by (auto simp: cli_run_def Let_def split: if_splits list.splits sum.splits)
  with cli_config_container assms(2) show ?thesis by metis
qed

text \<open>
  Claim C1. Whatever the command line, a failed tick never harms the running service: for an
  instance that is configured by the command line, created, started, and alive after any sequence
  of ticks and signals, the proxies are exactly those of the port options, and a tick that fails
  (in the registry, the pull, the resolution of ports, or the deployment at any replica) keeps
  every backend of every proxy and the deployed version, has run at most hooks and a pull and
  reported nothing, and has stopped no container that it had not started itself.
\<close>

theorem container_command_failure_safe:
  assumes "fair_ranges (ne_host ne)" and "cli_run rk version (Inr (c, args)) = RunInstance conf interval level fmt"
    and "cg_Command conf = CONTAINER" and "dewy_New newCache getwd urlParse urlEncode conf = Inr (conf', wd)"
    and "dw_config (nd_dewy n0) = conf'" and "Start ne n0 = (n1, True)" and "live ne occs n1 = (n, True)"
    and "RunContainer ne n = (n', Some e)"
  shows "(\<exists>ms. parsePortMappings (cl_Ports c) = Inr ms \<and> proxy_ports (nd_proxies n) = ProxyPort ` set ms) \<and>
    proxy_backends (nd_proxies n') = proxy_backends (nd_proxies n) \<and> dw_cVer (nd_dewy n') = dw_cVer (nd_dewy n) \<and>
    (\<exists>evs. dw_log (nd_dewy n') = dw_log (nd_dewy n) @ evs \<and> list_all is_prepared evs) \<and>
    (nd_containerRuntime n' = nd_containerRuntime n \<or>
      (\<exists>rt. nd_containerRuntime n' = Some rt \<and> set (targets (rt_log rt)) \<subseteq> set (starts (rt_log rt))))"
proof -
  obtain cc where cc: "cg_Container conf = Some cc" "parsePortMappings (cl_Ports c) = Inr (cc_PortMappings cc)"
    using cli_run_container [OF assms(2,3)] by blast
  have n0: "cg_Command (dw_config (nd_dewy n0)) = CONTAINER" "cg_Container (dw_config (nd_dewy n0)) = Some cc"
    using dewy_New_config [OF assms(4)] assms(3,5) cc(1) by simp_all
  have d: "distinct (map ProxyPort (cc_PortMappings cc))" using parsePortMappings_Inr [OF cc(2)] by simp
  from RunContainer_failure_safe [OF assms(1) n0 d assms(6-8)] cc(2) show ?thesis by simp
qed

text \<open>An instance with two replicas on a host with room for three: the second deployment fails.\<close>

definition web_release :: CurrentResponse where
  "web_release = \<lparr>cr_ID = ''sha256:1'', cr_Tag = ''v2'', cr_ArtifactURL = ''img://web:v2'', cr_CreatedAt = None, cr_Slot = []\<rparr>"

definition idle_deps :: "CurrentResponse \<Rightarrow> nat deps" where
  "idle_deps res = \<lparr>dp_Current = (\<lambda>w. (w, Inr res)), dp_Report = (\<lambda>r w. (w, None)), dp_Now = (\<lambda>w. (w, 0)),
     dp_Read = (\<lambda>k w. (w, Inl ''not found'')), dp_Write = (\<lambda>k v w. (w, None)), dp_List = (\<lambda>w. (w, Inr [])), dp_GetDir = ''/c'',
     dp_NewArtifact = (\<lambda>u. None), dp_Download = (\<lambda>u w. (w, [], None)),
     dp_Hook = (\<lambda>r c w. (w, Inl ''no shell'')), dp_Stamp = (\<lambda>w. (w, ''t1'')), dp_MkdirAll = (\<lambda>p w. (w, None)),
     dp_Exists = (\<lambda>p w. True), dp_Entries = (\<lambda>w f p. Inr []), dp_Apply = (\<lambda>x w. (w, None)),
     dp_SlackFile = (\<lambda>p w. None), dp_Remove = (\<lambda>l w. (w, None)), dp_Symlink = (\<lambda>a b w. (w, None)), dp_Rename = (\<lambda>a b w. (w, None)),
     dp_Signal = (\<lambda>w. (w, None)), dp_NewStarter = (\<lambda>w. (w, None)), dp_ReadDir = (\<lambda>p w. (w, Inr [])), dp_RemoveAll = (\<lambda>p w. (w, None))\<rparr>"

definition web_env :: "(nat, unit) node_env" where
  "web_env = \<lparr>ne_deps = idle_deps web_release,
     ne_host = (small_host 3)\<lparr>h_output := \<lambda>w cmd args. if hd args = ''ps'' \<and> args ! 2 = ''ancestor=web:v2'' then (w, Inr []) else h_output (small_host 3) w cmd args\<rparr>,
     ne_httpGet = (\<lambda>w url. (w, Inr 200)), ne_urlParse = (\<lambda>u. Inr \<lparr>pu_Scheme = ''img'', pu_Host = ''web:v2'', pu_Path = [], pu_Query = []\<rparr>),
     ne_net = open_network, ne_Listen = (\<lambda>p w. (w, None)), ne_Shutdown = (\<lambda>w. (w, None)), ne_TelemetryShutdown = (\<lambda>w. (w, None))\<rparr>"

definition web_cli :: cli where
  "web_cli = \<lparr>cl_command = [], cl_args = [], cl_Name = [], cl_LogLevel = [], cl_LogFormat = [], cl_Interval = -1, cl_Ports = [''80:8''],
     cl_Registry = ''img://web'', cl_Cache = [], cl_Notifier = [], cl_BeforeDeployHook = [], cl_AfterDeployHook = [], cl_Replicas = 2,
     cl_HealthPath = ''/up'', cl_HealthTimeout = 0, cl_DrainTime = 0, cl_ContainerRuntime = [], cl_ProxyIdleTimeout = -1, cl_Cmd = [],
     cl_AdminPort = 0, cl_Slot = [], cl_CalVer = [], cl_Telemetry = False, cl_OTLPEndpoint = [], cl_OTLPInsecure = False,
     cl_Help = False, cl_Version = False\<rparr>"

definition web_config :: Config where
  "web_config = (case cli_run id ''1.0.0'' (Inr (web_cli, [''container''])) of RunInstance conf interval level fmt \<Rightarrow> conf | _ \<Rightarrow> DefaultConfig)"

definition web_node :: "(nat, unit) Node" where
  "web_node = \<lparr>nd_dewy = \<lparr>dw_config = web_config, dw_isServerRunning = False, dw_disableReport = False, dw_root = ''/r'',
       dw_notifier = quiet_null, dw_cVer = [], dw_metrics = None, dw_links = (\<lambda>l. None), dw_world = 0, dw_log = []\<rparr>,
     nd_containerRuntime = None, nd_proxies = no_proxies, nd_adminServer = None\<rparr>"

definition web_alive :: "(nat, unit) Node" where
  "web_alive = fst (live web_env [Tick, Signal SIGHUP] (fst (Start web_env web_node)))"

lemma web_run:
  "(let s = Start web_env web_node; l = live web_env [Tick, Signal SIGHUP] (fst s); r = RunContainer web_env (fst l)
    in (snd s, snd l, snd r = None, dw_cVer (nd_dewy (fst l)), map (\<lambda>p. length (tp_backends (snd p))) (tcpProxies (nd_proxies (fst l))))) =
   (True, True, False, ''v2'', [2])"
  by code_simp

lemma web_life:
  "snd (Start web_env web_node)" "snd (live web_env [Tick, Signal SIGHUP] (fst (Start web_env web_node)))"
  "snd (RunContainer web_env web_alive) \<noteq> None" "dw_cVer (nd_dewy web_alive) = ''v2''"
  using web_run by (auto simp: Let_def web_alive_def)

lemma web_cli_run:
  "cli_run id ''1.0.0'' (Inr (web_cli, [''container''])) = RunInstance web_config 10 ''ERROR'' ''text''" "cg_Command web_config = CONTAINER"
  "dewy_New (\<lambda>u. None) (Inr ''/r'') Inr (\<lambda>v u. u) web_config = Inr (web_config, ''/r'')"
  by code_simp+

lemma web_setup:
  "dw_config (nd_dewy web_node) = web_config" "Start web_env web_node = (fst (Start web_env web_node), True)"
  "live web_env [Tick, Signal SIGHUP] (fst (Start web_env web_node)) = (web_alive, True)"
  "parsePortMappings (cl_Ports web_cli) = Inr [\<lparr>ProxyPort = 80, ContainerPort = 8\<rparr>]"
proof -
  show "dw_config (nd_dewy web_node) = web_config" by (simp add: web_node_def)
  show "Start web_env web_node = (fst (Start web_env web_node), True)" using web_life(1) by (metis prod.collapse)
  show "live web_env [Tick, Signal SIGHUP] (fst (Start web_env web_node)) = (web_alive, True)"
    using web_life(2) by (metis prod.collapse web_alive_def)
  show "parsePortMappings (cl_Ports web_cli) = Inr [\<lparr>ProxyPort = 80, ContainerPort = 8\<rparr>]" by code_simp
qed

theorem container_command_failure_safe_witness:
  "\<exists>n' e. RunContainer web_env web_alive = (n', Some e) \<and> proxy_ports (nd_proxies web_alive) = {80} \<and>
     proxy_backends (nd_proxies n') = proxy_backends (nd_proxies web_alive) \<and> dw_cVer (nd_dewy n') = ''v2''"
proof -
  obtain n' x where "RunContainer web_env web_alive = (n', x)" by (rule prod.exhaust)
  with web_life(3) obtain e where e: "RunContainer web_env web_alive = (n', Some e)" by auto
  have f: "fair_ranges (ne_host web_env)" by (simp add: fair_ranges_def small_host_def web_env_def)
  from container_command_failure_safe [OF f web_cli_run web_setup(1-3) e] e web_setup(4) web_life(4) show ?thesis by auto
qed


lemma web_found:
  "map_option (\<lambda>rt. snd (FindContainersByLabel (ne_host web_env) (managedLabels (appName (dw_config (nd_dewy web_alive)))) rt)) (get_runtime web_alive) =
   Some (Inr [''old1''])"
  by code_simp


end
